(* ===== verification/Prelude.thy ===== *)
theory Prelude
  imports Main "HOL-Library.Word" "HOL-Library.Char_ord" "HOL-Library.List_Lexorder"
    "HOL-Library.Multiset" "HOL-Library.Code_Target_Numeral"
begin

text \<open>
  What every component of the model shares: the names of the machine types, the fallible
  results of Rust (\<open>Result\<close>, its \<open>?\<close> operator and \<open>map_err\<close>), byte strings and UTF-8
  texts, the ordering and the sort of the standard library, and the ordered map
  (\<open>BTreeMap\<close>) as a strictly sorted association list.  Nothing here is about TFWS.
\<close>

section \<open>Machine types\<close>

type_synonym u8 = "8 word"
type_synonym u32 = "32 word"
type_synonym u64 = "64 word"

text \<open>
  An \<open>i64\<close> is the same 64 bits read with \<^const>\<open>sint\<close>; a \<open>usize\<close> of the model is
  64 bits wide.  Lengths of lists are natural numbers.
\<close>

type_synonym i64 = "64 word"
type_synonym usize = "64 word"
type_synonym bytes = "u8 list"

text \<open>
  A Rust \<open>str\<close> or \<open>String\<close> is the list of its UTF-8 bytes; HOL's \<^typ>\<open>char\<close> has
  exactly eight bits, so \<^typ>\<open>string\<close> is a byte list that has literals.
\<close>

type_synonym str = string

text \<open>\<open>i64::unsigned_abs\<close>: the absolute value as a \<open>u64\<close>, defined for \<open>i64::MIN\<close> too.\<close>

definition unsigned_abs :: "i64 \<Rightarrow> u64" where
  "unsigned_abs x = (if sint x < 0 then - x else x)"

lemma sint_i64_bounds: "- (2 ^ 63) \<le> sint (v :: i64)" "sint (v :: i64) < 2 ^ 63"
  using sint_greater_eq [of v] sint_less [of v] by simp_all

lemma uint_u64_bounds: "0 \<le> uint (v :: u64)" "uint (v :: u64) < 2 ^ 64"
  using uint_bounded [of v] by simp_all

lemma unat_u64_less: "unat (v :: u64) < 2 ^ 64"
  using unsigned_less [of v] by simp

text \<open>
  Evaluation of the words of the model: truncation leaves what already fits and needs no
  power of two for the widths in use.
\<close>

lemma take_bit_widths [code]:
  "take_bit n (k :: int) =
     (if n = 64 then
        if 0 \<le> k \<and> k < 18446744073709551616 then k else k mod 18446744073709551616
      else if n = 32 then if 0 \<le> k \<and> k < 4294967296 then k else k mod 4294967296
      else if n = 8 then if 0 \<le> k \<and> k < 256 then k else k mod 256
      else k mod 2 ^ n)"
  by (simp add: take_bit_eq_mod)

section \<open>Results\<close>

named_theorems result_iff
  \<open>rules that turn "this fallible expression returned that" into its parts\<close>

text \<open>
  \<open>Result<A, E>\<close> is \<^typ>\<open>'e + 'a\<close> with \<^const>\<open>Inl\<close> for \<open>Err\<close>.  The \<open>?\<close> operator
  followed by the rest of the function body is \<open>and_then\<close>.
\<close>

definition and_then :: "'e + 'a \<Rightarrow> ('a \<Rightarrow> 'e + 'b) \<Rightarrow> 'e + 'b" where
  "and_then r f = (case r of Inl e \<Rightarrow> Inl e | Inr x \<Rightarrow> f x)"

definition map_err :: "('e \<Rightarrow> 'f) \<Rightarrow> 'e + 'a \<Rightarrow> 'f + 'a" where
  "map_err g r = (case r of Inl e \<Rightarrow> Inl (g e) | Inr x \<Rightarrow> Inr x)"

definition ok_or :: "'e \<Rightarrow> 'a option \<Rightarrow> 'e + 'a" where
  "ok_or e v = (case v of None \<Rightarrow> Inl e | Some x \<Rightarrow> Inr x)"

definition is_ok :: "'e + 'a \<Rightarrow> bool" where
  "is_ok r = (case r of Inl _ \<Rightarrow> False | Inr _ \<Rightarrow> True)"

lemma and_then_simps [simp]:
  "and_then (Inl e) f = Inl e"
  "and_then (Inr x) f = f x"
  by (simp_all add: and_then_def)

lemma map_err_simps [simp]:
  "map_err g (Inl e) = Inl (g e)"
  "map_err g (Inr x) = Inr x"
  by (simp_all add: map_err_def)

lemma ok_or_simps [simp]:
  "ok_or e None = Inl e"
  "ok_or e (Some x) = Inr x"
  by (simp_all add: ok_or_def)

lemma is_ok_simps [simp]:
  "is_ok (Inr x)"
  "\<not> is_ok (Inl e)"
  by (simp_all add: is_ok_def)

lemma and_then_assoc: "and_then (and_then r f) g = and_then r (\<lambda>x. and_then (f x) g)"
  by (cases r) simp_all

lemma and_then_if: "and_then (if c then r else s) f = (if c then and_then r f else and_then s f)"
  by simp

text \<open>Recursive calls under \<open>?\<close> happen on returned values only.\<close>

lemma and_then_cong [fundef_cong]:
  assumes "r = r'" and "\<And>x. r' = Inr x \<Longrightarrow> f x = g x"
  shows "and_then r f = and_then r' g"
  using assms by (cases r') simp_all

lemma and_then_eq_Inr [result_iff]:
  "and_then r f = Inr y \<longleftrightarrow> (\<exists>x. r = Inr x \<and> f x = Inr y)"
  by (cases r) simp_all

lemma and_then_eq_Inl [result_iff]:
  "and_then r f = Inl e \<longleftrightarrow> r = Inl e \<or> (\<exists>x. r = Inr x \<and> f x = Inl e)"
  by (cases r) simp_all

lemma map_err_eq_Inr [result_iff]: "map_err g r = Inr x \<longleftrightarrow> r = Inr x"
  by (cases r) simp_all

lemma map_err_eq_Inl [result_iff]: "map_err g r = Inl f \<longleftrightarrow> (\<exists>e. r = Inl e \<and> f = g e)"
  by (cases r) auto

lemma ok_or_eq_Inr [result_iff]: "ok_or e v = Inr x \<longleftrightarrow> v = Some x"
  by (cases v) simp_all

lemma ok_or_eq_Inl [result_iff]: "ok_or e v = Inl f \<longleftrightarrow> v = None \<and> f = e"
  by (cases v) auto

lemma guard_eq_Inr [result_iff]:
  "(if c then Inl e else r) = Inr x \<longleftrightarrow> \<not> c \<and> r = Inr x"
  by simp

lemma is_ok_iff: "is_ok r \<longleftrightarrow> (\<exists>x. r = Inr x)"
  by (cases r) simp_all

lemma unit_result_eq: "(r :: 'e + unit) = Inr u \<longleftrightarrow> is_ok r"
  by (cases r) auto

section \<open>Ordering and sorting\<close>

text \<open>\<open>std::cmp::Ordering\<close>, the \<open>cmp\<close> of an ordered type and \<open>then_with\<close>.\<close>

datatype ordering = Less | Equal | Greater

definition cmp :: "'a::linorder \<Rightarrow> 'a \<Rightarrow> ordering" where
  "cmp a b = (if a < b then Less else if a = b then Equal else Greater)"

fun then_with :: "ordering \<Rightarrow> ordering \<Rightarrow> ordering" where
  "then_with Less _ = Less"
| "then_with Equal o2 = o2"
| "then_with Greater _ = Greater"

lemma cmp_eq_simps [simp]:
  "cmp a b = Less \<longleftrightarrow> a < b"
  "cmp a b = Equal \<longleftrightarrow> a = b"
  "cmp a b = Greater \<longleftrightarrow> b < a"
  by (auto simp: cmp_def)

lemma then_with_eq_simps [simp]:
  "then_with p q = Less \<longleftrightarrow> p = Less \<or> p = Equal \<and> q = Less"
  "then_with p q = Equal \<longleftrightarrow> p = Equal \<and> q = Equal"
  "then_with p q = Greater \<longleftrightarrow> p = Greater \<or> p = Equal \<and> q = Greater"
  by (cases p; simp)+

text \<open>
  \<open>slice::sort_by\<close> is a stable sort by a comparison function; a stable sort of a list is
  unique, so insertion sort computes it.
\<close>

fun insert_by :: "('a \<Rightarrow> 'a \<Rightarrow> ordering) \<Rightarrow> 'a \<Rightarrow> 'a list \<Rightarrow> 'a list" where
  "insert_by c x [] = [x]"
| "insert_by c x (y # ys) = (if c y x = Less then y # insert_by c x ys else x # y # ys)"

fun sort_by :: "('a \<Rightarrow> 'a \<Rightarrow> ordering) \<Rightarrow> 'a list \<Rightarrow> 'a list" where
  "sort_by c [] = []"
| "sort_by c (x # xs) = insert_by c x (sort_by c xs)"

lemma mset_insert_by [simp]: "mset (insert_by c x ys) = add_mset x (mset ys)"
  by (induction ys) auto

lemma mset_sort_by [simp]: "mset (sort_by c xs) = mset xs"
  by (induction xs) auto

lemma set_sort_by [simp]: "set (sort_by c xs) = set xs"
  by (metis mset_sort_by set_mset_mset)

lemma length_sort_by [simp]: "length (sort_by c xs) = length xs"
  by (metis mset_sort_by size_mset)

text \<open>
  Sorting with a comparison that reads a key through a total order: strictly ascending
  keys when no two keys are equal.
\<close>

lemma sorted_insert_by:
  assumes less: "\<And>a b. c a b = Less \<longleftrightarrow> (k a :: 'k::linorder) < k b"
  shows "sorted (map k ys) \<Longrightarrow> sorted (map k (insert_by c x ys))"
proof (induction ys)
  case Nil
  then show ?case by simp
next
  case (Cons y ys)
  have "set (insert_by c x ys) = insert x (set ys)"
    by (metis mset_insert_by set_mset_mset set_mset_add_mset_insert)
  with Cons show ?case by (auto simp: less)
qed

lemma sorted_sort_by:
  assumes "\<And>a b. c a b = Less \<longleftrightarrow> (k a :: 'k::linorder) < k b"
  shows "sorted (map k (sort_by c xs))"
  by (induction xs) (simp_all add: sorted_insert_by assms)

lemma strictly_sorted_sort_by:
  assumes "\<And>a b. c a b = Less \<longleftrightarrow> (k a :: 'k::linorder) < k b" and "distinct (map k xs)"
  shows "sorted_wrt (<) (map k (sort_by c xs))"
proof -
  have "mset (map k (sort_by c xs)) = mset (map k xs)" by simp
  with assms(2) have "distinct (map k (sort_by c xs))"
    by (metis mset_eq_imp_distinct_iff)
  then show ?thesis
    using sorted_sort_by [OF assms(1)] by (simp add: strict_sorted_iff)
qed

section \<open>Lists\<close>

lemma separator_inject:
  "x \<notin> set a \<Longrightarrow> x \<notin> set b \<Longrightarrow> a @ x # r = b @ x # q \<Longrightarrow> a = b \<and> r = q"
proof (induction a arbitrary: b)
  case Nil
  then show ?case by (cases b) auto
next
  case (Cons y a)
  then show ?case by (cases b) auto
qed

end
