(* ===== verification/Utf8.thy ===== *)
theory Utf8
  imports Prelude
begin

text \<open>
  The parts of \<open>str\<close>, \<open>String\<close> and \<open>u8\<close> the sources use: the bytes of a text, the UTF-8
  check of \<open>std::str::from_utf8\<close>, \<open>trim().is_empty()\<close>, ASCII classes, and decimal
  display of unsigned integers.
\<close>

section \<open>Bytes of a text\<close>

definition char_byte :: "char \<Rightarrow> u8" where
  "char_byte c = of_char c"

definition byte_char :: "u8 \<Rightarrow> char" where
  "byte_char b = char_of (unat b)"

definition as_bytes :: "str \<Rightarrow> bytes" where
  "as_bytes s = map char_byte s"

definition text_of :: "bytes \<Rightarrow> str" where
  "text_of bs = map byte_char bs"

lemma unat_char_byte: "unat (char_byte c) = of_char c"
proof -
  have "char_byte c = of_nat (of_char c)" by (simp add: char_byte_def of_nat_of_char)
  moreover have "(of_char c :: nat) mod 256 = of_char c" by simp
  ultimately show ?thesis by (simp add: unat_of_nat)
qed

text \<open>Evaluating the byte of a literal character.\<close>

lemma char_byte_Char [code]:
  "char_byte (Char b0 b1 b2 b3 b4 b5 b6 b7) =
     word_of_int (of_bool b0 + 2 * (of_bool b1 + 2 * (of_bool b2 + 2 * (of_bool b3
       + 2 * (of_bool b4 + 2 * (of_bool b5 + 2 * (of_bool b6 + 2 * of_bool b7)))))))"
  by (simp add: char_byte_def of_char_Char)

lemma byte_char_inverse [simp]: "char_byte (byte_char b) = b"
proof -
  have "unat b < 2 ^ 8" using unsigned_less [of b] by simp
  then have "unat (char_byte (byte_char b)) = unat b"
    by (simp add: unat_char_byte byte_char_def of_char_of)
  then show ?thesis by (simp add: word_unat_eq_iff)
qed

lemma char_byte_inverse [simp]: "byte_char (char_byte c) = c"
  by (simp add: byte_char_def unat_char_byte)

lemma text_of_as_bytes [simp]: "text_of (as_bytes s) = s"
  by (simp add: text_of_def as_bytes_def o_def map_idI)

lemma as_bytes_text_of [simp]: "as_bytes (text_of bs) = bs"
  by (simp add: text_of_def as_bytes_def o_def map_idI)

lemma length_as_bytes [simp]: "length (as_bytes s) = length s"
  by (simp add: as_bytes_def)

lemma as_bytes_append [simp]: "as_bytes (s @ t) = as_bytes s @ as_bytes t"
  by (simp add: as_bytes_def)

lemma as_bytes_simps [simp]:
  "as_bytes [] = []"
  "as_bytes (c # s) = char_byte c # as_bytes s"
  by (simp_all add: as_bytes_def)

lemma as_bytes_inject [simp]: "as_bytes s = as_bytes t \<longleftrightarrow> s = t"
  by (metis text_of_as_bytes)

section \<open>The UTF-8 check\<close>

text \<open>
  The table of well-formed sequences that \<open>core::str::from_utf8\<close> implements, on byte
  values: no overlong forms, no surrogates, nothing above U+10FFFF.
\<close>

definition continuation :: "nat \<Rightarrow> bool" where
  "continuation b \<longleftrightarrow> 128 \<le> b \<and> b \<le> 191"

definition second_of_three :: "nat \<Rightarrow> nat \<Rightarrow> bool" where
  "second_of_three b c \<longleftrightarrow>
     (if b = 224 then 160 \<le> c \<and> c \<le> 191
      else if b = 237 then 128 \<le> c \<and> c \<le> 159
      else continuation c)"

definition second_of_four :: "nat \<Rightarrow> nat \<Rightarrow> bool" where
  "second_of_four b c \<longleftrightarrow>
     (if b = 240 then 144 \<le> c \<and> c \<le> 191
      else if b = 244 then 128 \<le> c \<and> c \<le> 143
      else continuation c)"

fun utf8_codes :: "nat list \<Rightarrow> bool" where
  "utf8_codes [] = True"
| "utf8_codes (b # bs) =
     (if b < 128 then utf8_codes bs
      else if 194 \<le> b \<and> b \<le> 223 then
        (case bs of c # r \<Rightarrow> continuation c \<and> utf8_codes r | _ \<Rightarrow> False)
      else if 224 \<le> b \<and> b \<le> 239 then
        (case bs of c # d # r \<Rightarrow> second_of_three b c \<and> continuation d \<and> utf8_codes r
         | _ \<Rightarrow> False)
      else if 240 \<le> b \<and> b \<le> 244 then
        (case bs of c # d # e # r \<Rightarrow>
           second_of_four b c \<and> continuation d \<and> continuation e \<and> utf8_codes r
         | _ \<Rightarrow> False)
      else False)"

definition valid_utf8 :: "str \<Rightarrow> bool" where
  "valid_utf8 s = utf8_codes (map of_char s)"

definition from_utf8 :: "bytes \<Rightarrow> str option" where
  "from_utf8 bs = (if utf8_codes (map unat bs) then Some (text_of bs) else None)"

definition ascii :: "str \<Rightarrow> bool" where
  "ascii s \<longleftrightarrow> list_all (\<lambda>c. (of_char c :: nat) < 128) s"

lemma map_unat_as_bytes: "map unat (as_bytes s) = map of_char s"
  by (simp add: as_bytes_def unat_char_byte)

lemma from_utf8_as_bytes: "from_utf8 (as_bytes s) = (if valid_utf8 s then Some s else None)"
  by (simp add: from_utf8_def valid_utf8_def map_unat_as_bytes)

lemma from_utf8_Some: "from_utf8 bs = Some s \<longleftrightarrow> bs = as_bytes s \<and> valid_utf8 s"
proof -
  have "bs = as_bytes (text_of bs)" by simp
  then show ?thesis
    by (metis from_utf8_as_bytes as_bytes_inject option.distinct(1) option.inject)
qed

lemma valid_utf8_Nil [simp]: "valid_utf8 []"
  by (simp add: valid_utf8_def)

lemma ascii_valid [simp]: "ascii s \<Longrightarrow> valid_utf8 s"
  by (induction s) (auto simp: ascii_def valid_utf8_def)

lemma utf8_codes_append: "utf8_codes xs \<Longrightarrow> utf8_codes ys \<Longrightarrow> utf8_codes (xs @ ys)"
proof (induction xs rule: utf8_codes.induct)
  case 1
  then show ?case by simp
next
  case (2 b bs)
  consider "b < 128" | "194 \<le> b" "b \<le> 223" | "224 \<le> b" "b \<le> 239" | "240 \<le> b" "b \<le> 244"
    using "2.prems"(1) by (fastforce split: if_splits)
  then show ?case
  proof cases
    case 1
    with 2 show ?thesis by simp
  next
    case c: 2
    then obtain c r where "bs = c # r" using "2.prems"(1) by (auto split: list.splits)
    with c 2 show ?thesis by simp
  next
    case c: 3
    then obtain c d r where "bs = c # d # r" using "2.prems"(1) by (auto split: list.splits)
    with c 2 show ?thesis by simp
  next
    case c: 4
    then obtain c d e r where "bs = c # d # e # r"
      using "2.prems"(1) by (auto split: list.splits)
    with c 2 show ?thesis by simp
  qed
qed

section \<open>Blank texts\<close>

text \<open>
  \<open>s.trim().is_empty()\<close>: every character of the text is in the Unicode property
  \<open>White_Space\<close>, read from its UTF-8 bytes.
\<close>

fun white_codes :: "nat list \<Rightarrow> bool" where
  "white_codes [] = True"
| "white_codes (b # bs) =
     (if 9 \<le> b \<and> b \<le> 13 \<or> b = 32 then white_codes bs
      else (case bs of
          c # r \<Rightarrow>
            if b = 194 \<and> (c = 133 \<or> c = 160) then white_codes r
            else (case r of
                d # r' \<Rightarrow>
                  (b = 225 \<and> c = 154 \<and> d = 128
                   \<or> b = 226 \<and> c = 128 \<and> (128 \<le> d \<and> d \<le> 138 \<or> d = 168 \<or> d = 169 \<or> d = 175)
                   \<or> b = 226 \<and> c = 129 \<and> d = 159
                   \<or> b = 227 \<and> c = 128 \<and> d = 128)
                  \<and> white_codes r'
              | [] \<Rightarrow> False)
        | [] \<Rightarrow> False))"

definition blank :: "str \<Rightarrow> bool" where
  "blank s = white_codes (map of_char s)"

lemma blank_Nil [simp]: "blank []"
  by (simp add: blank_def)

section \<open>ASCII classes of bytes\<close>

definition is_ascii_digit :: "char \<Rightarrow> bool" where
  "is_ascii_digit c \<longleftrightarrow> (48::nat) \<le> of_char c \<and> of_char c \<le> (57::nat)"

definition is_ascii_uppercase :: "char \<Rightarrow> bool" where
  "is_ascii_uppercase c \<longleftrightarrow> (65::nat) \<le> of_char c \<and> of_char c \<le> (90::nat)"

definition is_ascii_alphanumeric :: "char \<Rightarrow> bool" where
  "is_ascii_alphanumeric c \<longleftrightarrow>
     (48::nat) \<le> of_char c \<and> of_char c \<le> (57::nat)
     \<or> (65::nat) \<le> of_char c \<and> of_char c \<le> (90::nat)
     \<or> (97::nat) \<le> of_char c \<and> of_char c \<le> (122::nat)"

section \<open>Decimal display\<close>

definition digit_char :: "nat \<Rightarrow> char" where
  "digit_char d = char_of (48 + d)"

fun decimal :: "nat \<Rightarrow> str" where
  "decimal n = (if n < 10 then [digit_char n] else decimal (n div 10) @ [digit_char (n mod 10)])"

declare decimal.simps [simp del]

lemma of_char_digit_char: "d < 10 \<Longrightarrow> of_char (digit_char d) = (48 + d :: nat)"
  by (simp add: digit_char_def of_char_of)

lemma digit_char_inject: "d < 10 \<Longrightarrow> e < 10 \<Longrightarrow> digit_char d = digit_char e \<longleftrightarrow> d = e"
  by (metis of_char_digit_char add_left_cancel)

fun undecimal :: "nat \<Rightarrow> str \<Rightarrow> nat" where
  "undecimal a [] = a"
| "undecimal a (c # s) = undecimal (10 * a + (of_char c - 48)) s"

lemma undecimal_append: "undecimal a (s @ [c]) = 10 * undecimal a s + (of_char c - 48)"
  by (induction s arbitrary: a) simp_all

lemma undecimal_decimal: "undecimal 0 (decimal n) = n"
proof (induction n rule: decimal.induct)
  case (1 n)
  then show ?case
    by (subst decimal.simps) (auto simp: undecimal_append of_char_digit_char)
qed

lemma decimal_inject: "decimal m = decimal n \<longleftrightarrow> m = n"
  by (metis undecimal_decimal)

lemma decimal_digits: "c \<in> set (decimal n) \<Longrightarrow> 48 \<le> (of_char c :: nat) \<and> of_char c \<le> (57 :: nat)"
proof (induction n rule: decimal.induct)
  case (1 n)
  then show ?case
    by (cases "n < 10")
      (auto simp: decimal.simps [of n] of_char_digit_char)
qed

end
