(* ===== verification/Minicbor.thy ===== *)
theory Minicbor
  imports Utf8
begin

text \<open>
  The CBOR library the codec calls, the crate \<open>minicbor\<close>, as an interface: its operations
  are the fields of the record \<open>minicbor\<close>, an argument of every definition that reads or
  writes CBOR, and the behaviour its documentation and RFC 8949 promise is the assumptions of
  two locales.
\<close>

section \<open>Vocabulary\<close>

text \<open>\<open>minicbor::data::Type\<close>, what a look at the next initial byte says.\<close>

datatype cbor_type =
    T_Bool | T_Null | T_Undefined
  | T_U8 | T_U16 | T_U32 | T_U64
  | T_I8 | T_I16 | T_I32 | T_I64 | T_Int
  | T_F16 | T_F32 | T_F64 | T_Simple
  | T_Bytes | T_BytesIndef | T_String | T_StringIndef
  | T_Array | T_ArrayIndef | T_Map | T_MapIndef
  | T_Tag | T_Break | T_Unknown u8

text \<open>A \<open>Decoder\<close>: the bytes it reads (\<open>input()\<close>) and the next index (\<open>position()\<close>).\<close>

record decoder =
  d_input :: bytes
  d_pos :: nat

definition decoder_new :: "bytes \<Rightarrow> decoder" where
  "decoder_new bs = \<lparr>d_input = bs, d_pos = 0\<rparr>"

definition remaining :: "decoder \<Rightarrow> bytes" where
  "remaining d = drop (d_pos d) (d_input d)"

definition advance :: "nat \<Rightarrow> decoder \<Rightarrow> decoder" where
  "advance n d = d\<lparr>d_pos := d_pos d + n\<rparr>"

text \<open>
  Reading operations return the value and the decoder behind it; an \<open>Err\<close> is its
  \<open>to_string()\<close>.  \<open>array\<close> and \<open>map\<close> return \<open>None\<close> for an indefinite length.  Writing
  operations return the bytes they append.
\<close>

record minicbor =
  mc_datatype :: "decoder \<Rightarrow> str + cbor_type"
  mc_bool :: "decoder \<Rightarrow> str + bool \<times> decoder"
  mc_u64 :: "decoder \<Rightarrow> str + u64 \<times> decoder"
  mc_i64 :: "decoder \<Rightarrow> str + i64 \<times> decoder"
  mc_str :: "decoder \<Rightarrow> str + str \<times> decoder"
  mc_bytes :: "decoder \<Rightarrow> str + bytes \<times> decoder"
  mc_array :: "decoder \<Rightarrow> str + u64 option \<times> decoder"
  mc_map :: "decoder \<Rightarrow> str + u64 option \<times> decoder"
  me_bool :: "bool \<Rightarrow> str + bytes"
  me_u8 :: "u8 \<Rightarrow> str + bytes"
  me_u64 :: "u64 \<Rightarrow> str + bytes"
  me_i64 :: "i64 \<Rightarrow> str + bytes"
  me_str :: "str \<Rightarrow> str + bytes"
  me_bytes :: "bytes \<Rightarrow> str + bytes"
  me_array :: "u64 \<Rightarrow> str + bytes"
  me_map :: "u64 \<Rightarrow> str + bytes"
  mc_type_debug :: "cbor_type \<Rightarrow> str"

definition unsigned_types :: "cbor_type set" where
  "unsigned_types = {T_U8, T_U16, T_U32, T_U64}"

definition negative_types :: "cbor_type set" where
  "negative_types = {T_I8, T_I16, T_I32, T_I64}"

section \<open>Positions\<close>

lemma remaining_new [simp]: "remaining (decoder_new bs) = bs"
  by (simp add: remaining_def decoder_new_def)

lemma input_new [simp]: "d_input (decoder_new bs) = bs"
  by (simp add: decoder_new_def)

lemma pos_new [simp]: "d_pos (decoder_new bs) = 0"
  by (simp add: decoder_new_def)

lemma advance_simps [simp]:
  "d_input (advance n d) = d_input d"
  "d_pos (advance n d) = d_pos d + n"
  "advance m (advance n d) = advance (n + m) d"
  by (simp_all add: advance_def)

lemma advance_0 [simp]: "advance 0 d = d"
  by (simp add: advance_def)

lemma remaining_advance [simp]: "remaining (advance n d) = drop n (remaining d)"
  by (simp add: remaining_def advance_def add.commute)

lemma remaining_slice:
  "remaining d = bs @ r \<Longrightarrow> take (length bs) (drop (d_pos d) (d_input d)) = bs"
  by (simp add: remaining_def)

section \<open>The laws of the manifest items\<close>

text \<open>
  Booleans, integers, texts, arrays and maps.  Writing into a vector succeeds; reading an item
  where it was written gives the value back, whatever follows, and moves behind it; the type
  seen there is the type of the item; a text that was read is valid UTF-8; nothing can be read
  behind the end of the input.
\<close>

locale cbor_data_items =
  fixes mc :: minicbor
  assumes write_bool: "is_ok (me_bool mc b)"
    and write_u64: "is_ok (me_u64 mc u)"
    and write_i64: "is_ok (me_i64 mc i)"
    and write_str: "is_ok (me_str mc s)"
    and write_array: "is_ok (me_array mc u)"
    and write_map: "is_ok (me_map mc u)"
    and read_bool: "me_bool mc b = Inr bs \<Longrightarrow> remaining d = bs @ r \<Longrightarrow>
      mc_datatype mc d = Inr T_Bool \<and> mc_bool mc d = Inr (b, advance (length bs) d)"
    and read_u64: "me_u64 mc u = Inr bs \<Longrightarrow> remaining d = bs @ r \<Longrightarrow>
      (\<exists>t \<in> unsigned_types. mc_datatype mc d = Inr t) \<and>
      mc_u64 mc d = Inr (u, advance (length bs) d)"
    and read_negative: "me_i64 mc i = Inr bs \<Longrightarrow> sint i < 0 \<Longrightarrow> remaining d = bs @ r \<Longrightarrow>
      (\<exists>t \<in> negative_types. mc_datatype mc d = Inr t) \<and>
      mc_i64 mc d = Inr (i, advance (length bs) d)"
    and read_str: "me_str mc s = Inr bs \<Longrightarrow> valid_utf8 s \<Longrightarrow> length s < 2 ^ 64 \<Longrightarrow>
      remaining d = bs @ r \<Longrightarrow>
      mc_datatype mc d = Inr T_String \<and> mc_str mc d = Inr (s, advance (length bs) d)"
    and read_array: "me_array mc u = Inr bs \<Longrightarrow> remaining d = bs @ r \<Longrightarrow>
      mc_datatype mc d = Inr T_Array \<and> mc_array mc d = Inr (Some u, advance (length bs) d)"
    and read_map: "me_map mc u = Inr bs \<Longrightarrow> remaining d = bs @ r \<Longrightarrow>
      mc_datatype mc d = Inr T_Map \<and> mc_map mc d = Inr (Some u, advance (length bs) d)"
    and str_is_utf8: "mc_str mc d = Inr (s, d') \<Longrightarrow> valid_utf8 s"
    and end_of_input: "remaining d = [] \<Longrightarrow> \<not> is_ok (mc_datatype mc d)"
begin

text \<open>Every item takes at least one byte.\<close>

lemma datatype_not_empty:
  "mc_datatype mc (decoder_new bs) = Inr t \<Longrightarrow> bs \<noteq> []"
  using end_of_input [of "decoder_new bs"] by (auto simp: is_ok_iff)

text \<open>The bytes of a text determine the text, so distinct keys have distinct encodings.\<close>

lemma me_str_inject:
  assumes "me_str mc s = Inr bs" and "me_str mc t = Inr bs"
    and "valid_utf8 s" "length s < 2 ^ 64" and "valid_utf8 t" "length t < 2 ^ 64"
  shows "s = t"
  using read_str [OF assms(1,3,4), of "decoder_new bs" "[]"]
    read_str [OF assms(2,5,6), of "decoder_new bs" "[]"] by simp

end

section \<open>The laws of the COSE items\<close>

text \<open>
  In addition byte strings, whose encoding contains their bytes, and integers of either sign
  read as header labels.
\<close>

locale cbor_cose_items = cbor_data_items mc for mc :: minicbor +
  assumes write_u8: "is_ok (me_u8 mc v)"
    and write_bytes: "is_ok (me_bytes mc w)"
    and read_u8: "me_u8 mc v = Inr bs \<Longrightarrow> remaining d = bs @ r \<Longrightarrow>
      mc_i64 mc d = Inr (ucast v, advance (length bs) d)"
    and read_i64: "me_i64 mc i = Inr bs \<Longrightarrow> remaining d = bs @ r \<Longrightarrow>
      mc_i64 mc d = Inr (i, advance (length bs) d)"
    and read_bytes_item: "me_bytes mc w = Inr bs \<Longrightarrow> length w < 2 ^ 64 \<Longrightarrow>
      remaining d = bs @ r \<Longrightarrow>
      mc_datatype mc d = Inr T_Bytes \<and> mc_bytes mc d = Inr (w, advance (length bs) d)"
    and bytes_contained: "me_bytes mc w = Inr bs \<Longrightarrow> length w \<le> length bs"
begin

text \<open>
  A byte string in front of a rest determines both: the framing that keeps the parts of a
  signed structure apart.
\<close>

lemma me_bytes_append_inject:
  assumes v: "me_bytes mc v = Inr bs" and w: "me_bytes mc w = Inr cs"
    and eq: "bs @ r = cs @ q" and small: "length (bs @ r) < 2 ^ 64"
  shows "v = w \<and> bs = cs \<and> r = q"
proof -
  have "length (cs @ q) < 2 ^ 64" using small unfolding eq .
  with small have "length v < 2 ^ 64" "length w < 2 ^ 64"
    using bytes_contained [OF v] bytes_contained [OF w] by simp_all
  then have "v = w"
    using read_bytes_item [OF v, of "decoder_new (bs @ r)" r]
      read_bytes_item [OF w, of "decoder_new (bs @ r)" q] eq
    by simp
  with v w eq show ?thesis by simp
qed

end

end
