(* ===== verification/Ordered_Map.thy ===== *)
theory Ordered_Map
  imports Prelude
begin

text \<open>
  \<open>BTreeMap\<close>, and with it \<open>serde_json::Map\<close>, which is a \<open>BTreeMap\<close> in the build of this
  repository (the feature \<open>preserve_order\<close> is not enabled): an association list with
  strictly ascending keys.  Iteration order is the list order.
\<close>

section \<open>Operations\<close>

type_synonym ('k, 'v) btree_map = "('k \<times> 'v) list"

definition sorted_map :: "('k::linorder, 'v) btree_map \<Rightarrow> bool" where
  "sorted_map m \<longleftrightarrow> sorted_wrt (<) (map fst m)"

fun map_insert :: "'k::linorder \<Rightarrow> 'v \<Rightarrow> ('k, 'v) btree_map \<Rightarrow> ('k, 'v) btree_map" where
  "map_insert k v [] = [(k, v)]"
| "map_insert k v ((k', v') # m) =
     (if k < k' then (k, v) # (k', v') # m
      else if k = k' then (k, v) # m
      else (k', v') # map_insert k v m)"

definition map_remove :: "'k \<Rightarrow> ('k, 'v) btree_map \<Rightarrow> ('k, 'v) btree_map" where
  "map_remove k m = filter (\<lambda>e. fst e \<noteq> k) m"

definition map_get :: "'k \<Rightarrow> ('k, 'v) btree_map \<Rightarrow> 'v option" where
  "map_get k m = map_of m k"

definition insert_all :: "('k::linorder \<times> 'v) list \<Rightarrow> ('k, 'v) btree_map \<Rightarrow> ('k, 'v) btree_map" where
  "insert_all es m = fold (\<lambda>(k, v). map_insert k v) es m"

lemma insert_all_simps [simp]:
  "insert_all [] m = m"
  "insert_all ((k, v) # es) m = insert_all es (map_insert k v m)"
  by (simp_all add: insert_all_def)

definition map_keys :: "('k, 'v) btree_map \<Rightarrow> 'k set" where
  "map_keys m = fst ` set m"

lemma map_keys_simps [simp]:
  "map_keys [] = {}"
  "map_keys ((k, v) # m) = insert k (map_keys m)"
  by (simp_all add: map_keys_def)

lemma map_keys_mem: "(k, v) \<in> set m \<Longrightarrow> k \<in> map_keys m"
  by (force simp: map_keys_def)

lemma sorted_map_simps [simp]:
  "sorted_map []"
  "sorted_map ((k, v) # m) \<longleftrightarrow> (\<forall>k' \<in> map_keys m. k < k') \<and> sorted_map m"
  by (auto simp: sorted_map_def map_keys_def)

section \<open>The ordered-map interface\<close>

text \<open>What the clients of a map rely on: the laws of lookup, and the invariant.\<close>

locale ordered_map =
  fixes invar :: "'m \<Rightarrow> bool"
    and empty_map :: "'m"
    and insert_map :: "'k \<Rightarrow> 'v \<Rightarrow> 'm \<Rightarrow> 'm"
    and remove_map :: "'k \<Rightarrow> 'm \<Rightarrow> 'm"
    and get_map :: "'k \<Rightarrow> 'm \<Rightarrow> 'v option"
  assumes invar_empty: "invar empty_map"
    and invar_insert: "invar m \<Longrightarrow> invar (insert_map k v m)"
    and invar_remove: "invar m \<Longrightarrow> invar (remove_map k m)"
    and get_empty: "get_map k empty_map = None"
    and get_insert: "get_map k (insert_map k' v m) = (if k = k' then Some v else get_map k m)"
    and get_remove: "get_map k (remove_map k' m) = (if k = k' then None else get_map k m)"
    and map_eqI: "invar m \<Longrightarrow> invar n \<Longrightarrow> (\<And>k. get_map k m = get_map k n) \<Longrightarrow> m = n"
begin

lemma insert_get: "invar m \<Longrightarrow> get_map k m = Some v \<Longrightarrow> insert_map k v m = m"
  by (rule map_eqI) (auto simp: invar_insert get_insert)

lemma insert_commute:
  "invar m \<Longrightarrow> k \<noteq> k' \<Longrightarrow>
   insert_map k v (insert_map k' v' m) = insert_map k' v' (insert_map k v m)"
  by (rule map_eqI) (auto simp: invar_insert get_insert)

lemma remove_absent: "invar m \<Longrightarrow> get_map k m = None \<Longrightarrow> remove_map k m = m"
  by (rule map_eqI) (auto simp: invar_remove get_remove)

lemma remove_insert:
  "invar m \<Longrightarrow> get_map k m = None \<Longrightarrow> remove_map k (insert_map k v m) = m"
  by (rule map_eqI) (auto simp: invar_remove invar_insert get_remove get_insert)

end

section \<open>The sorted list provides it\<close>

lemma map_keys_insert [simp]: "map_keys (map_insert k v m) = insert k (map_keys m)"
  by (induction m) (auto split: if_splits)

lemma map_keys_remove [simp]: "map_keys (map_remove k m) = map_keys m - {k}"
  by (auto simp: map_keys_def map_remove_def)

lemma sorted_map_insert: "sorted_map m \<Longrightarrow> sorted_map (map_insert k v m)"
proof (induction m)
  case Nil
  then show ?case by simp
next
  case (Cons e m)
  obtain k' v' where "e = (k', v')" by (cases e)
  with Cons show ?case
    by (cases k k' rule: linorder_cases) (auto intro: less_trans)
qed

lemma sorted_map_remove: "sorted_map m \<Longrightarrow> sorted_map (map_remove k m)"
  by (auto simp: map_remove_def sorted_map_def sorted_wrt_map sorted_wrt_filter)

lemma map_get_insert:
  "map_get k (map_insert k' v m) = (if k = k' then Some v else map_get k m)"
  unfolding map_get_def by (induction m) auto

lemma map_get_remove: "map_get k (map_remove k' m) = (if k = k' then None else map_get k m)"
  unfolding map_get_def map_remove_def by (induction m) auto

lemma map_get_None: "map_get k m = None \<longleftrightarrow> k \<notin> map_keys m"
  by (simp add: map_get_def map_of_eq_None_iff map_keys_def)

lemma sorted_map_distinct: "sorted_map m \<Longrightarrow> distinct (map fst m)"
  by (simp add: sorted_map_def strict_sorted_iff)

lemma map_get_eq_Some:
  "sorted_map m \<Longrightarrow> map_get k m = Some v \<longleftrightarrow> (k, v) \<in> set m"
  by (simp add: map_get_def sorted_map_distinct)

lemma sorted_map_eqI:
  assumes "sorted_map m" and "sorted_map n" and eq: "\<And>k. map_get k m = map_get k n"
  shows "m = n"
proof -
  have "map_of m = map_of n" using eq by (simp add: map_get_def fun_eq_iff)
  then have "set m = set n"
    using assms(1,2) by (simp add: map_of_inject_set sorted_map_distinct)
  moreover have "map fst m = map fst n"
    using assms(1,2) \<open>set m = set n\<close>
    by (intro sorted_distinct_set_unique)
      (simp_all add: sorted_map_def strict_sorted_iff)
  moreover have "inj_on fst (set m \<union> set n)"
    using assms(1) \<open>set m = set n\<close> sorted_map_distinct [of m] by (simp add: distinct_map)
  ultimately show ?thesis using inj_on_map_eq_map by blast
qed

interpretation bmap: ordered_map "sorted_map :: ('k::linorder, 'v) btree_map \<Rightarrow> bool" "[]"
  map_insert map_remove map_get
  by unfold_locales
    (simp_all add: sorted_map_insert sorted_map_remove map_get_insert map_get_remove
      sorted_map_eqI, simp add: map_get_def)

section \<open>Building a map entry by entry\<close>

lemma sorted_insert_all: "sorted_map m \<Longrightarrow> sorted_map (insert_all es m)"
  by (induction es arbitrary: m) (auto simp: sorted_map_insert)

lemma map_get_insert_all:
  "distinct (map fst es) \<Longrightarrow>
   map_get k (insert_all es m) = (case map_of es k of Some v \<Rightarrow> Some v | None \<Rightarrow> map_get k m)"
proof (induction es arbitrary: m)
  case Nil
  then show ?case by simp
next
  case (Cons e es)
  obtain k' v' where e: "e = (k', v')" by (cases e)
  with Cons.prems have "map_of es k' = None" by (simp add: map_of_eq_None_iff)
  with Cons e show ?case by (auto simp: map_get_insert split: option.splits)
qed

text \<open>
  A map built from its own entries in any order is the map: what makes the order of the
  keys on the wire irrelevant for the decoded value.
\<close>

lemma insert_all_permuted:
  assumes "sorted_map m" and "mset es = mset m"
  shows "insert_all es [] = m"
proof (rule sorted_map_eqI)
  show "sorted_map (insert_all es [])" by (simp add: sorted_insert_all)
  show "sorted_map m" by fact
  have dist: "distinct (map fst es)"
    using assms by (metis mset_eq_imp_distinct_iff mset_map sorted_map_distinct)
  have "map_of es = map_of m"
    using assms dist sorted_map_distinct [OF assms(1)]
    by (metis map_of_inject_set mset_eq_setD)
  with dist show "map_get k (insert_all es []) = map_get k m" for k
    using map_get_insert_all [OF dist, of k "[]"]
    by (simp add: map_get_def split: option.splits)
qed

lemma insert_all_fresh_length:
  "distinct (map fst es) \<Longrightarrow> map_keys es \<inter> map_keys m = {} \<Longrightarrow>
   length (insert_all es m) = length es + length m"
proof (induction es arbitrary: m)
  case Nil
  then show ?case by simp
next
  case (Cons e es)
  obtain k v where e: "e = (k, v)" by (cases e)
  have "k \<notin> map_keys m \<Longrightarrow> length (map_insert k v m) = Suc (length m)"
    by (induction m) auto
  moreover have "map_keys es \<inter> map_keys (map_insert k v m) = {}"
    using Cons.prems by (auto simp: e dest: map_keys_mem) (simp add: map_keys_def)
  ultimately show ?case using Cons by (auto simp: e)
qed

end
