(* ===== verification/Json.thy ===== *)
theory Json
  imports Utf8 Ordered_Map
begin

text \<open>
  The vocabulary of \<open>serde_json\<close> the sources build and match on: \<open>Value\<close> with its six
  constructors, \<open>Number\<close> through its documented accessors \<open>as_u64\<close> and \<open>as_i64\<close>, and \<open>Map\<close>.
  A number is an integer or the bits of an \<open>f64\<close>.
\<close>

section \<open>Numbers\<close>

datatype number = IntNum int | FloatNum u64

fun as_u64 :: "number \<Rightarrow> u64 option" where
  "as_u64 (IntNum i) = (if 0 \<le> i \<and> i < 2 ^ 64 then Some (word_of_int i) else None)"
| "as_u64 (FloatNum _) = None"

fun as_i64 :: "number \<Rightarrow> i64 option" where
  "as_i64 (IntNum i) = (if - (2 ^ 63) \<le> i \<and> i < 2 ^ 63 then Some (word_of_int i) else None)"
| "as_i64 (FloatNum _) = None"

definition number_from_u64 :: "u64 \<Rightarrow> number" where
  "number_from_u64 v = IntNum (uint v)"

definition number_from_i64 :: "i64 \<Rightarrow> number" where
  "number_from_i64 v = IntNum (sint v)"

lemma as_u64_from_u64 [simp]: "as_u64 (number_from_u64 v) = Some v"
  using uint_u64_bounds [of v] by (simp add: number_from_u64_def)

lemma as_i64_from_i64 [simp]: "as_i64 (number_from_i64 v) = Some v"
  using sint_i64_bounds [of v] by (simp add: number_from_i64_def)

lemma as_u64_Some: "as_u64 n = Some v \<longleftrightarrow> n = number_from_u64 v"
proof
  assume "as_u64 n = Some v"
  then show "n = number_from_u64 v"
    by (cases n) (auto simp: number_from_u64_def uint_word_of_int_eq take_bit_int_eq_self split: if_splits)
qed simp

lemma as_i64_Some: "as_i64 n = Some v \<longleftrightarrow> n = number_from_i64 v"
proof
  assume "as_i64 n = Some v"
  then show "n = number_from_i64 v"
    by (cases n)
      (auto simp: number_from_i64_def sint_sbintrunc' signed_take_bit_int_eq_self split: if_splits)
qed simp

lemma as_u64_from_i64: "as_u64 (number_from_i64 v) = (if sint v < 0 then None else Some v)"
proof (cases "sint v < 0")
  case False
  with sint_i64_bounds (2) [of v] have "uint v = sint v"
    by (simp add: uint_sint take_bit_int_eq_self)
  with False show ?thesis
    using as_u64_from_u64 [of v] by (simp add: number_from_i64_def number_from_u64_def)
qed (simp add: number_from_i64_def)

section \<open>Values\<close>

datatype json =
    JNull
  | JBool bool
  | JNumber number
  | JString str
  | JArray "json list"
  | JObject "(str \<times> json) list"

lemma json_induct [case_names JNull JBool JNumber JString JArray JObject, induct type: json]:
  assumes "P JNull" and "\<And>b. P (JBool b)" and "\<And>n. P (JNumber n)" and "\<And>s. P (JString s)"
    and array: "\<And>vs. (\<And>v. v \<in> set vs \<Longrightarrow> P v) \<Longrightarrow> P (JArray vs)"
    and object: "\<And>es. (\<And>k v. (k, v) \<in> set es \<Longrightarrow> P v) \<Longrightarrow> P (JObject es)"
  shows "P j"
proof (induction j rule: json.induct)
  case (JObject es)
  then have "P v" if "(k, v) \<in> set es" for k v
    using that by (force simp: snds.simps)
  then show ?case by (rule object)
qed (simp_all add: assms)

text \<open>
  The type invariant Rust guarantees: every text is valid UTF-8 and every object is an
  ordered map.  The predicate on texts is a parameter, so that what does not depend on
  UTF-8 can be stated without it.
\<close>

fun wf_with :: "(str \<Rightarrow> bool) \<Rightarrow> json \<Rightarrow> bool" where
  "wf_with q (JString s) = q s"
| "wf_with q (JArray vs) = (\<forall>v \<in> set vs. wf_with q v)"
| "wf_with q (JObject es) =
     (sorted_map es \<and> (\<forall>e \<in> set es. q (fst e) \<and> wf_with q (snd e)))"
| "wf_with q _ = True"

definition wf_json :: "json \<Rightarrow> bool" where
  "wf_json v \<longleftrightarrow> wf_with valid_utf8 v"

lemma wf_json_simps [simp]:
  "wf_json JNull" "wf_json (JBool b)" "wf_json (JNumber n)"
  "wf_json (JString s) \<longleftrightarrow> valid_utf8 s"
  "wf_json (JArray vs) \<longleftrightarrow> (\<forall>v \<in> set vs. wf_json v)"
  "wf_json (JObject es) \<longleftrightarrow>
     sorted_map es \<and> (\<forall>e \<in> set es. valid_utf8 (fst e) \<and> wf_json (snd e))"
  by (simp_all add: wf_json_def)

definition is_object :: "json \<Rightarrow> bool" where
  "is_object v = (case v of JObject _ \<Rightarrow> True | _ \<Rightarrow> False)"

definition as_object :: "json \<Rightarrow> (str \<times> json) list option" where
  "as_object v = (case v of JObject es \<Rightarrow> Some es | _ \<Rightarrow> None)"

text \<open>No float and no null anywhere: what the TFWS data model excludes.\<close>

fun all_numbers :: "(number \<Rightarrow> bool) \<Rightarrow> json \<Rightarrow> bool" where
  "all_numbers p (JNumber n) = p n"
| "all_numbers p (JArray vs) = (\<forall>v \<in> set vs. all_numbers p v)"
| "all_numbers p (JObject es) = (\<forall>e \<in> set es. all_numbers p (snd e))"
| "all_numbers p _ = True"

fun json_depth :: "json \<Rightarrow> nat" where
  "json_depth (JArray vs) = Max (insert 0 (Suc ` json_depth ` set vs))"
| "json_depth (JObject es) = Max (insert 0 ((\<lambda>e. Suc (json_depth (snd e))) ` set es))"
| "json_depth _ = 0"

end
