(* ===== verification/Manifest.thy ===== *)
theory Manifest
  imports Json
begin

text \<open>
  \<open>crates/tfws-core/src/lib.rs\<close>: the manifest and its parts, the policy check
  \<open>Manifest::validate\<close>, the canonical payload and the text that the JSON signatures cover.
  Library code the sources call (\<open>url\<close>, \<open>serde\<close>, \<open>serde_jcs\<close>, \<open>sha2\<close>) is the record
  \<open>crates\<close>, an argument of the definitions that use it.
\<close>

section \<open>Data\<close>

record operator =
  name :: str
  jurisdiction :: "str option"

record signature_policy =
  policy_id :: str
  required_algorithms :: "str list"

record capabilities =
  required :: "str list"
  optional :: "str list"

record artifact =
  uri :: str
  media_type :: str
  sha512 :: str

record key_descriptor =
  algorithm :: str
  key_id :: str
  public_key_uri :: str
  public_key_sha256 :: str
  status :: str
  usage :: "str list"

record manifest =
  tfws_version :: str
  subject :: str
  environment :: str
  operator_of :: operator
  key_epoch :: u64
  keys :: "key_descriptor list"
  policy_of :: signature_policy
  capabilities_of :: capabilities
  identity :: "json option"
  artifacts :: "artifact list"
  updated_at :: str
  expires_at :: "str option"

datatype error =
    InvalidManifest str
  | UnsupportedCapability str
  | Canonicalization str

definition error_to_string :: "error \<Rightarrow> str" where
  "error_to_string e = (case e of
      InvalidManifest s \<Rightarrow> ''invalid manifest: '' @ s
    | UnsupportedCapability s \<Rightarrow> ''unsupported mandatory capability: '' @ s
    | Canonicalization s \<Rightarrow> ''canonicalization failed: '' @ s)"

definition BASELINE_POLICY :: str where
  "BASELINE_POLICY = ''tfws.hybrid.baseline.v1''"

definition BASELINE_ALGORITHMS :: "str list" where
  "BASELINE_ALGORITHMS = [''ed25519'', ''ml-dsa-65'']"

definition MAX_SAFE_INTEGER :: u64 where
  "MAX_SAFE_INTEGER = 9007199254740991"

section \<open>The library code\<close>

text \<open>
  What \<open>Url::parse\<close> returns, through the accessors the code reads; the derived
  serialisation of a manifest (\<open>serde_json::to_value\<close>, \<open>from_value\<close>); the JCS text of
  \<open>serde_jcs::to_vec\<close>; the lowercase hex SHA-512 digest.  Errors are their \<open>to_string()\<close>.
\<close>

record url =
  url_scheme :: str
  url_cannot_be_a_base :: bool
  url_path :: str
  url_query :: "str option"
  url_fragment :: "str option"
  url_username :: str
  url_password :: "str option"

record crates =
  url_parse :: "str \<Rightarrow> str + url"
  to_value :: "manifest \<Rightarrow> str + json"
  from_value :: "json \<Rightarrow> str + manifest"
  jcs_to_vec :: "manifest \<Rightarrow> str + bytes"
  sha512_hex :: "bytes \<Rightarrow> str"

section \<open>Checks on parts\<close>

definition is_lower_hex :: "str \<Rightarrow> nat \<Rightarrow> bool" where
  "is_lower_hex value n \<longleftrightarrow>
     length value = n
     \<and> list_all (\<lambda>b. is_ascii_digit b \<or> (97::nat) \<le> of_char b \<and> of_char b \<le> (102::nat)) value"

definition json_number_valid :: "number \<Rightarrow> bool" where
  "json_number_valid n = (case as_i64 n of
      Some i \<Rightarrow> unsigned_abs i \<le> MAX_SAFE_INTEGER
    | None \<Rightarrow> (case as_u64 n of Some u \<Rightarrow> u \<le> MAX_SAFE_INTEGER | None \<Rightarrow> False))"

fun validate_json_number_profile :: "json \<Rightarrow> error + unit"
and validate_json_items :: "json list \<Rightarrow> error + unit"
and validate_json_entries :: "(str \<times> json) list \<Rightarrow> error + unit" where
  "validate_json_number_profile (JNumber n) =
     (if \<not> json_number_valid n
      then Inl (InvalidManifest ''floating-point or out-of-range JSON number'')
      else Inr ())"
| "validate_json_number_profile (JArray items) = validate_json_items items"
| "validate_json_number_profile (JObject entries) = validate_json_entries entries"
| "validate_json_number_profile _ = Inr ()"
| "validate_json_items [] = Inr ()"
| "validate_json_items (v # vs) =
     and_then (validate_json_number_profile v) (\<lambda>_. validate_json_items vs)"
| "validate_json_entries [] = Inr ()"
| "validate_json_entries ((_, v) # es) =
     and_then (validate_json_number_profile v) (\<lambda>_. validate_json_entries es)"

section \<open>Manifest::validate\<close>

definition validate_subject :: "crates \<Rightarrow> manifest \<Rightarrow> error + unit" where
  "validate_subject cr m =
     and_then (map_err InvalidManifest (url_parse cr (subject m))) (\<lambda>u.
       if url_scheme u \<noteq> ''https''
          \<or> url_cannot_be_a_base u
          \<or> url_path u \<noteq> ''/''
          \<or> url_query u \<noteq> None
          \<or> url_fragment u \<noteq> None
          \<or> url_username u \<noteq> []
          \<or> url_password u \<noteq> None
       then Inl (InvalidManifest ''subject must be an HTTPS origin'')
       else Inr ())"

definition validate_operator :: "manifest \<Rightarrow> error + unit" where
  "validate_operator m =
     (if blank (name (operator_of m)) then Inl (InvalidManifest ''operator name is required'')
      else case jurisdiction (operator_of m) of
          None \<Rightarrow> Inr ()
        | Some j \<Rightarrow>
            if length j \<noteq> 2 \<or> \<not> list_all is_ascii_uppercase j
            then Inl (InvalidManifest ''invalid jurisdiction'') else Inr ())"

definition key_uri :: "str \<Rightarrow> str" where
  "key_uri alg = ''/.well-known/keys/'' @ alg @ ''.pem''"

fun check_key_descriptors :: "str set \<Rightarrow> key_descriptor list \<Rightarrow> error + unit" where
  "check_key_descriptors seen [] = Inr ()"
| "check_key_descriptors seen (key # rest) =
     (if algorithm key \<notin> set BASELINE_ALGORITHMS
         \<or> algorithm key \<in> seen
         \<or> blank (key_id key)
         \<or> status key \<noteq> ''active''
         \<or> usage key \<noteq> [''release'']
         \<or> \<not> is_lower_hex (public_key_sha256 key) 64
         \<or> public_key_uri key \<noteq> key_uri (algorithm key)
      then Inl (InvalidManifest ''invalid baseline key descriptor'')
      else check_key_descriptors (insert (algorithm key) seen) rest)"

definition validate_keys :: "manifest \<Rightarrow> error + unit" where
  "validate_keys m =
     (if keys m = [] \<and> environment m \<noteq> ''development''
      then Inl (InvalidManifest ''staging and production manifests require bound keys'')
      else if keys m \<noteq> [] then
        (if length (keys m) \<noteq> length BASELINE_ALGORITHMS
         then Inl (InvalidManifest ''hybrid baseline requires two key descriptors'')
         else check_key_descriptors {} (keys m))
      else Inr ())"

definition validate_policy :: "manifest \<Rightarrow> error + unit" where
  "validate_policy m =
     (if policy_id (policy_of m) \<noteq> BASELINE_POLICY
         \<or> required_algorithms (policy_of m) \<noteq> BASELINE_ALGORITHMS
      then Inl (InvalidManifest ''hybrid baseline downgrade'') else Inr ())"

definition known_capabilities :: "str set" where
  "known_capabilities =
     {''core.v1'', ''identity.v1'', ''recovery.v1'', ''transparency.v1''}"

fun check_known :: "str list \<Rightarrow> error + unit" where
  "check_known [] = Inr ()"
| "check_known (c # cs) =
     (if c \<notin> known_capabilities then Inl (UnsupportedCapability c) else check_known cs)"

definition validate_capabilities :: "manifest \<Rightarrow> error + unit" where
  "validate_capabilities m =
     (let req = required (capabilities_of m); opt = optional (capabilities_of m) in
      if card (set req) \<noteq> length req
      then Inl (InvalidManifest ''duplicate mandatory capability'')
      else if card (set opt) \<noteq> length opt \<or> set req \<inter> set opt \<noteq> {}
      then Inl (InvalidManifest ''duplicate or conflicting optional capability'')
      else check_known req)"

fun validate_artifacts :: "crates \<Rightarrow> artifact list \<Rightarrow> error + unit" where
  "validate_artifacts cr [] = Inr ()"
| "validate_artifacts cr (a # rest) =
     and_then (map_err (\<lambda>e. InvalidManifest (''artifact URI: '' @ e)) (url_parse cr (uri a))) (\<lambda>_.
       if blank (media_type a) \<or> \<not> is_lower_hex (sha512 a) 128
       then Inl (InvalidManifest ''invalid artifact'')
       else validate_artifacts cr rest)"

definition validate :: "crates \<Rightarrow> manifest \<Rightarrow> error + unit" where
  "validate cr m =
     (if tfws_version m \<noteq> ''3.0'' then Inl (InvalidManifest ''unsupported version'')
      else
        and_then (validate_subject cr m) (\<lambda>_.
        if environment m \<notin> {''development'', ''staging'', ''production''}
        then Inl (InvalidManifest ''invalid environment'')
        else if key_epoch m = 0 \<or> key_epoch m > MAX_SAFE_INTEGER
        then Inl (InvalidManifest ''invalid key epoch'')
        else
        and_then (validate_operator m) (\<lambda>_.
        and_then (validate_keys m) (\<lambda>_.
        and_then (validate_policy m) (\<lambda>_.
        and_then (validate_capabilities m) (\<lambda>_.
        and_then (validate_artifacts cr (artifacts m)) (\<lambda>_.
        and_then (map_err Canonicalization (to_value cr m)) (\<lambda>v.
        validate_json_number_profile v))))))))"

section \<open>Canonical payload and signature text\<close>

definition canonical_bytes :: "crates \<Rightarrow> manifest \<Rightarrow> error + bytes" where
  "canonical_bytes cr m =
     and_then (validate cr m) (\<lambda>_. map_err Canonicalization (jcs_to_vec cr m))"

definition payload_sha512 :: "crates \<Rightarrow> manifest \<Rightarrow> error + str" where
  "payload_sha512 cr m = and_then (canonical_bytes cr m) (\<lambda>bs. Inr (sha512_hex cr bs))"

definition LF :: char where
  "LF = CHR 0x0A"

definition CR :: char where
  "CR = CHR 0x0D"

definition signature_text :: "str \<Rightarrow> str \<Rightarrow> str \<Rightarrow> u64 \<Rightarrow> str" where
  "signature_text subj digest created epoch =
     ''TFWS3-SIGNATURE-V1'' @ [LF]
     @ ''subject='' @ subj @ [LF]
     @ ''media_type=application/tfws+json'' @ [LF]
     @ ''payload_sha512='' @ digest @ [LF]
     @ ''created='' @ created @ [LF]
     @ ''key_epoch='' @ decimal (unat epoch) @ [LF]
     @ ''policy='' @ BASELINE_POLICY @ [LF]"

definition signature_message :: "str \<Rightarrow> str \<Rightarrow> str \<Rightarrow> u64 \<Rightarrow> error + bytes" where
  "signature_message subj digest created epoch =
     (if list_ex (\<lambda>value. LF \<in> set value \<or> CR \<in> set value) [subj, created, digest]
      then Inl (InvalidManifest ''newline in signature metadata'')
      else if \<not> is_lower_hex digest 128 \<or> epoch = 0 \<or> epoch > MAX_SAFE_INTEGER
      then Inl (InvalidManifest ''invalid signature metadata'')
      else Inr (as_bytes (signature_text subj digest created epoch)))"

section \<open>What the checks on parts decide\<close>

text \<open>The safe integers of the profile: \<open>[-(2^53 - 1), 2^53 - 1]\<close>.\<close>

definition safe_number :: "number \<Rightarrow> bool" where
  "safe_number n = (case n of IntNum i \<Rightarrow> \<bar>i\<bar> < 2 ^ 53 | FloatNum _ \<Rightarrow> False)"

lemma unsigned_abs_sint: "uint (unsigned_abs x) = \<bar>sint x\<bar>"
proof (cases "sint x < 0")
  case True
  have "- x = word_of_int (- sint x)" by simp
  then have "uint (- x) = take_bit 64 (- sint x)"
    by (metis uint_word_of_int_eq len_num0 len_bit0 len_num1 mult_2 numeral_Bit0 one_add_one)
  also have "\<dots> = - sint x"
    using True sint_i64_bounds (1) [of x] by (simp add: take_bit_int_eq_self)
  finally show ?thesis using True by (simp add: unsigned_abs_def)
next
  case False
  with sint_i64_bounds (2) [of x] have "uint x = sint x"
    by (simp add: uint_sint take_bit_int_eq_self)
  with False show ?thesis by (simp add: unsigned_abs_def)
qed

lemma unsigned_abs_le: "unsigned_abs x \<le> MAX_SAFE_INTEGER \<longleftrightarrow> \<bar>sint x\<bar> < 2 ^ 53"
  by (simp add: word_le_def unsigned_abs_sint MAX_SAFE_INTEGER_def) linarith

lemma le_max_safe: "u \<le> MAX_SAFE_INTEGER \<longleftrightarrow> uint u < 2 ^ 53"
  by (simp add: word_le_def MAX_SAFE_INTEGER_def) linarith

lemma json_number_valid_iff: "json_number_valid n \<longleftrightarrow> safe_number n"
proof (cases n)
  case (IntNum i)
  show ?thesis
  proof (cases "- (2 ^ 63) \<le> i \<and> i < 2 ^ 63")
    case True
    then have "as_i64 n = Some (word_of_int i)" and "sint (word_of_int i :: i64) = i"
      using IntNum by (simp_all add: sint_sbintrunc' signed_take_bit_int_eq_self)
    with IntNum show ?thesis
      by (simp add: json_number_valid_def unsigned_abs_le safe_number_def)
  next
    case False
    then have "as_i64 n = None" using IntNum by simp
    moreover have "\<not> word_of_int i \<le> MAX_SAFE_INTEGER" if "0 \<le> i" "i < 2 ^ 64"
      using that False by (simp add: le_max_safe uint_word_of_int take_bit_int_eq_self)
    ultimately show ?thesis
      using IntNum False by (auto simp: json_number_valid_def safe_number_def)
  qed
qed (simp add: json_number_valid_def safe_number_def)

lemma validate_json_number_profile_ok:
  "validate_json_number_profile v = Inr u \<longleftrightarrow> all_numbers safe_number v"
  "validate_json_items vs = Inr u \<longleftrightarrow> (\<forall>v \<in> set vs. all_numbers safe_number v)"
  "validate_json_entries es = Inr u \<longleftrightarrow> (\<forall>e \<in> set es. all_numbers safe_number (snd e))"
  by (induction v and vs and es rule: validate_json_number_profile_validate_json_items_validate_json_entries.induct)
    (auto simp: result_iff json_number_valid_iff)

definition good_descriptor :: "key_descriptor \<Rightarrow> bool" where
  "good_descriptor k \<longleftrightarrow>
     algorithm k \<in> set BASELINE_ALGORITHMS
     \<and> \<not> blank (key_id k)
     \<and> status k = ''active''
     \<and> usage k = [''release'']
     \<and> is_lower_hex (public_key_sha256 k) 64
     \<and> public_key_uri k = key_uri (algorithm k)"

lemma check_key_descriptors_ok:
  "check_key_descriptors seen ks = Inr u \<longleftrightarrow>
     (\<forall>k \<in> set ks. good_descriptor k \<and> algorithm k \<notin> seen) \<and> distinct (map algorithm ks)"
  by (induction seen ks rule: check_key_descriptors.induct) (auto simp: good_descriptor_def image_iff dest: sym)

lemma check_known_ok: "check_known cs = Inr u \<longleftrightarrow> set cs \<subseteq> known_capabilities"
  by (induction cs) auto

lemma validate_artifacts_ok:
  "validate_artifacts cr as = Inr u \<longleftrightarrow>
     (\<forall>a \<in> set as. is_ok (url_parse cr (uri a)) \<and> \<not> blank (media_type a)
        \<and> is_lower_hex (sha512 a) 128)"
  by (induction as) (auto simp: result_iff is_ok_iff)

lemma card_set_eq_length: "card (set xs) = length xs \<longleftrightarrow> distinct xs"
  by (metis card_distinct distinct_card)

text \<open>
  Two descriptors with distinct baseline algorithms are one descriptor per baseline
  algorithm, in either order.
\<close>

lemma hybrid_pair:
  "length as = length BASELINE_ALGORITHMS \<and> distinct as \<and> set as \<subseteq> set BASELINE_ALGORITHMS \<longleftrightarrow>
   mset as = mset BASELINE_ALGORITHMS"
proof
  assume asm: "length as = length BASELINE_ALGORITHMS \<and> distinct as
    \<and> set as \<subseteq> set BASELINE_ALGORITHMS"
  have d: "distinct BASELINE_ALGORITHMS" by (simp add: BASELINE_ALGORITHMS_def)
  with asm have "card (set as) = card (set BASELINE_ALGORITHMS)" by (simp add: distinct_card)
  with asm have "set as = set BASELINE_ALGORITHMS" by (simp add: card_subset_eq)
  with asm d show "mset as = mset BASELINE_ALGORITHMS" by (simp add: set_eq_iff_mset_eq_distinct)
next
  assume eq: "mset as = mset BASELINE_ALGORITHMS"
  have "distinct BASELINE_ALGORITHMS" by (simp add: BASELINE_ALGORITHMS_def)
  with eq show "length as = length BASELINE_ALGORITHMS \<and> distinct as
    \<and> set as \<subseteq> set BASELINE_ALGORITHMS"
    by (metis mset_eq_imp_distinct_iff mset_eq_length mset_eq_setD order_refl)
qed

definition hybrid_keys :: "key_descriptor list \<Rightarrow> bool" where
  "hybrid_keys ks \<longleftrightarrow>
     mset (map algorithm ks) = mset BASELINE_ALGORITHMS \<and> (\<forall>k \<in> set ks. good_descriptor k)"

lemma validate_keys_ok:
  "validate_keys m = Inr u \<longleftrightarrow>
     keys m = [] \<and> environment m = ''development'' \<or> hybrid_keys (keys m)"
proof (cases "keys m = []")
  case True
  then show ?thesis
    by (auto simp: validate_keys_def hybrid_keys_def BASELINE_ALGORITHMS_def)
next
  case False
  have "set (map algorithm (keys m)) \<subseteq> set BASELINE_ALGORITHMS"
    if "\<forall>k \<in> set (keys m). good_descriptor k"
    using that by (auto simp: good_descriptor_def)
  with False show ?thesis
    using hybrid_pair [of "map algorithm (keys m)"]
    by (auto simp: validate_keys_def hybrid_keys_def check_key_descriptors_ok)
qed

end
