(* ===== verification/Serde.thy ===== *)
theory Serde
  imports Manifest
begin

text \<open>
  The derived (de)serialisation of the manifest structs (the \<open>#[derive(Serialize,
  Deserialize)]\<close>, \<open>#[serde(deny_unknown_fields)]\<close> and \<open>#[serde(default)]\<close> attributes of
  \<open>crates/tfws-core/src/lib.rs\<close>), as an interface with the laws the codec relies on, and a
  concrete model of what serde documents for these attributes, which satisfies the laws.
\<close>

section \<open>Serialisation\<close>

text \<open>Fields in declaration order, collected into the ordered map of \<open>serde_json\<close>.\<close>

definition object_of :: "(str \<times> json) list \<Rightarrow> json" where
  "object_of fs = JObject (insert_all fs [])"

definition strings_value :: "str list \<Rightarrow> json" where
  "strings_value ss = JArray (map JString ss)"

definition option_value :: "('a \<Rightarrow> json) \<Rightarrow> 'a option \<Rightarrow> json" where
  "option_value f v = (case v of None \<Rightarrow> JNull | Some x \<Rightarrow> f x)"

definition operator_value :: "operator \<Rightarrow> json" where
  "operator_value o' = object_of
     [(''name'', JString (name o')),
      (''jurisdiction'', option_value JString (jurisdiction o'))]"

definition policy_value :: "signature_policy \<Rightarrow> json" where
  "policy_value p = object_of
     [(''policy_id'', JString (policy_id p)),
      (''required_algorithms'', strings_value (required_algorithms p))]"

definition capabilities_value :: "capabilities \<Rightarrow> json" where
  "capabilities_value c = object_of
     [(''required'', strings_value (required c)), (''optional'', strings_value (optional c))]"

definition artifact_value :: "artifact \<Rightarrow> json" where
  "artifact_value a = object_of
     [(''uri'', JString (uri a)), (''media_type'', JString (media_type a)),
      (''sha512'', JString (sha512 a))]"

definition key_value :: "key_descriptor \<Rightarrow> json" where
  "key_value k = object_of
     [(''algorithm'', JString (algorithm k)), (''key_id'', JString (key_id k)),
      (''public_key_uri'', JString (public_key_uri k)),
      (''public_key_sha256'', JString (public_key_sha256 k)),
      (''status'', JString (status k)), (''usage'', strings_value (usage k))]"

definition manifest_fields :: "json \<Rightarrow> manifest \<Rightarrow> (str \<times> json) list" where
  "manifest_fields operator_json m =
     [(''tfws_version'', JString (tfws_version m)),
      (''subject'', JString (subject m)),
      (''environment'', JString (environment m)),
      (''operator'', operator_json),
      (''key_epoch'', JNumber (number_from_u64 (key_epoch m))),
      (''keys'', JArray (map key_value (keys m))),
      (''signature_policy'', policy_value (policy_of m)),
      (''capabilities'', capabilities_value (capabilities_of m)),
      (''identity'', option_value id (identity m)),
      (''artifacts'', JArray (map artifact_value (artifacts m))),
      (''updated_at'', JString (updated_at m)),
      (''expires_at'', option_value JString (expires_at m))]"

definition manifest_value :: "manifest \<Rightarrow> json" where
  "manifest_value m = object_of (manifest_fields (operator_value (operator_of m)) m)"

text \<open>
  The value without its absent options, the one the CBOR profile carries: a field whose
  value is null is left out.
\<close>

definition present :: "(str \<times> json) list \<Rightarrow> (str \<times> json) list" where
  "present fs = filter (\<lambda>e. snd e \<noteq> JNull) fs"

definition compact_operator_value :: "operator \<Rightarrow> json" where
  "compact_operator_value o' = object_of (present
     [(''name'', JString (name o')),
      (''jurisdiction'', option_value JString (jurisdiction o'))])"

definition compact_manifest_value :: "manifest \<Rightarrow> json" where
  "compact_manifest_value m =
     object_of (present (manifest_fields (compact_operator_value (operator_of m)) m))"

section \<open>The interface\<close>

text \<open>
  What the codec relies on.  \<open>to_value_derived\<close>: a derived \<open>Serialize\<close> writes every field
  under its name, a \<open>None\<close> as null.  \<open>from_value_compact\<close>: a derived \<open>Deserialize\<close> reads
  that object back, and takes a missing field of an \<open>Option\<close> type as \<open>None\<close>.
\<close>

locale serde_manifest =
  fixes tv :: "manifest \<Rightarrow> str + json"
    and fv :: "json \<Rightarrow> str + manifest"
  assumes to_value_derived: "tv m = Inr (manifest_value m)"
    and from_value_compact: "identity m \<noteq> Some JNull \<Longrightarrow> fv (compact_manifest_value m) = Inr m"
begin

text \<open>Two manifests with the same wire value are the same manifest.\<close>

lemma compact_manifest_value_inject:
  assumes "identity m \<noteq> Some JNull" and "identity n \<noteq> Some JNull"
    and "compact_manifest_value m = compact_manifest_value n"
  shows "m = n"
  using from_value_compact [OF assms(1)] from_value_compact [OF assms(2)] assms(3)
  by (metis sum.inject(2))

lemma to_value_ok: "is_ok (tv m)"
  by (simp add: to_value_derived)

end

section \<open>Deserialisation\<close>

text \<open>
  A derived \<open>Deserialize\<close> of a struct takes an object (unknown fields refused) or, through
  its \<open>visit_seq\<close>, an array with one element per field in declaration order.
\<close>

definition struct_entries :: "str list \<Rightarrow> json \<Rightarrow> str + (str \<times> json) list" where
  "struct_entries names v = (case v of
      JObject es \<Rightarrow>
        if list_all (\<lambda>e. fst e \<in> set names) es then Inr es else Inl ''unknown field''
    | JArray vs \<Rightarrow>
        if length vs = length names then Inr (zip names vs) else Inl ''invalid length''
    | _ \<Rightarrow> Inl ''invalid type'')"

definition de_string :: "json \<Rightarrow> str + str" where
  "de_string v = (case v of JString s \<Rightarrow> Inr s | _ \<Rightarrow> Inl ''invalid type'')"

definition de_u64 :: "json \<Rightarrow> str + u64" where
  "de_u64 v = (case v of
      JNumber n \<Rightarrow> ok_or ''invalid value'' (as_u64 n)
    | _ \<Rightarrow> Inl ''invalid type'')"

fun traverse :: "('a \<Rightarrow> 'e + 'b) \<Rightarrow> 'a list \<Rightarrow> 'e + 'b list" where
  "traverse f [] = Inr []"
| "traverse f (x # xs) =
     and_then (f x) (\<lambda>y. and_then (traverse f xs) (\<lambda>ys. Inr (y # ys)))"

definition de_vec :: "(json \<Rightarrow> str + 'a) \<Rightarrow> json \<Rightarrow> str + 'a list" where
  "de_vec f v = (case v of JArray vs \<Rightarrow> traverse f vs | _ \<Rightarrow> Inl ''invalid type'')"

definition field :: "(json \<Rightarrow> str + 'a) \<Rightarrow> (str \<times> json) list \<Rightarrow> str \<Rightarrow> str + 'a" where
  "field f es k = and_then (ok_or ''missing field'' (map_get k es)) f"

definition option_field ::
  "(json \<Rightarrow> str + 'a) \<Rightarrow> (str \<times> json) list \<Rightarrow> str \<Rightarrow> str + 'a option" where
  "option_field f es k = (case map_get k es of
      None \<Rightarrow> Inr None
    | Some v \<Rightarrow> if v = JNull then Inr None else and_then (f v) (\<lambda>x. Inr (Some x)))"

definition de_operator :: "json \<Rightarrow> str + operator" where
  "de_operator v =
     and_then (struct_entries [''name'', ''jurisdiction''] v) (\<lambda>es.
     and_then (field de_string es ''name'') (\<lambda>n.
     and_then (option_field de_string es ''jurisdiction'') (\<lambda>j.
     Inr \<lparr>name = n, jurisdiction = j\<rparr>)))"

definition de_policy :: "json \<Rightarrow> str + signature_policy" where
  "de_policy v =
     and_then (struct_entries [''policy_id'', ''required_algorithms''] v) (\<lambda>es.
     and_then (field de_string es ''policy_id'') (\<lambda>p.
     and_then (field (de_vec de_string) es ''required_algorithms'') (\<lambda>r.
     Inr \<lparr>policy_id = p, required_algorithms = r\<rparr>)))"

definition de_capabilities :: "json \<Rightarrow> str + capabilities" where
  "de_capabilities v =
     and_then (struct_entries [''required'', ''optional''] v) (\<lambda>es.
     and_then (field (de_vec de_string) es ''required'') (\<lambda>r.
     and_then (field (de_vec de_string) es ''optional'') (\<lambda>p.
     Inr \<lparr>required = r, optional = p\<rparr>)))"

definition de_artifact :: "json \<Rightarrow> str + artifact" where
  "de_artifact v =
     and_then (struct_entries [''uri'', ''media_type'', ''sha512''] v) (\<lambda>es.
     and_then (field de_string es ''uri'') (\<lambda>u.
     and_then (field de_string es ''media_type'') (\<lambda>t.
     and_then (field de_string es ''sha512'') (\<lambda>h.
     Inr \<lparr>uri = u, media_type = t, sha512 = h\<rparr>))))"

definition de_key :: "json \<Rightarrow> str + key_descriptor" where
  "de_key v =
     and_then (struct_entries [''algorithm'', ''key_id'', ''public_key_uri'',
       ''public_key_sha256'', ''status'', ''usage''] v) (\<lambda>es.
     and_then (field de_string es ''algorithm'') (\<lambda>a.
     and_then (field de_string es ''key_id'') (\<lambda>i.
     and_then (field de_string es ''public_key_uri'') (\<lambda>u.
     and_then (field de_string es ''public_key_sha256'') (\<lambda>h.
     and_then (field de_string es ''status'') (\<lambda>s.
     and_then (field (de_vec de_string) es ''usage'') (\<lambda>g.
     Inr \<lparr>algorithm = a, key_id = i, public_key_uri = u, public_key_sha256 = h,
          status = s, usage = g\<rparr>)))))))"

definition manifest_field_names :: "str list" where
  "manifest_field_names =
     [''tfws_version'', ''subject'', ''environment'', ''operator'', ''key_epoch'', ''keys'',
      ''signature_policy'', ''capabilities'', ''identity'', ''artifacts'', ''updated_at'',
      ''expires_at'']"

definition derived_from_value :: "json \<Rightarrow> str + manifest" where
  "derived_from_value v =
     and_then (struct_entries manifest_field_names v) (\<lambda>es.
     and_then (field de_string es ''tfws_version'') (\<lambda>ver.
     and_then (field de_string es ''subject'') (\<lambda>sub.
     and_then (field de_string es ''environment'') (\<lambda>env.
     and_then (field de_operator es ''operator'') (\<lambda>op.
     and_then (field de_u64 es ''key_epoch'') (\<lambda>ep.
     and_then (field (de_vec de_key) es ''keys'') (\<lambda>ks.
     and_then (field de_policy es ''signature_policy'') (\<lambda>pol.
     and_then (field de_capabilities es ''capabilities'') (\<lambda>cap.
     and_then (option_field Inr es ''identity'') (\<lambda>idn.
     and_then (field (de_vec de_artifact) es ''artifacts'') (\<lambda>arts.
     and_then (field de_string es ''updated_at'') (\<lambda>upd.
     and_then (option_field de_string es ''expires_at'') (\<lambda>ex.
     Inr \<lparr>tfws_version = ver, subject = sub, environment = env, operator_of = op,
          key_epoch = ep, keys = ks, policy_of = pol, capabilities_of = cap,
          identity = idn, artifacts = arts, updated_at = upd, expires_at = ex\<rparr>)))))))))))))"

definition derived_to_value :: "manifest \<Rightarrow> str + json" where
  "derived_to_value m = Inr (manifest_value m)"

section \<open>The derived code satisfies the interface\<close>

lemma traverse_map: "(\<And>x. f (g x) = Inr x) \<Longrightarrow> traverse f (map g xs) = Inr xs"
  by (induction xs) simp_all

lemma de_vec_map: "(\<And>x. f (g x) = Inr x) \<Longrightarrow> de_vec f (JArray (map g xs)) = Inr xs"
  by (simp add: de_vec_def traverse_map)

lemma de_string_value [simp]: "de_string (JString s) = Inr s"
  by (simp add: de_string_def)

lemma de_strings_value [simp]: "de_vec de_string (strings_value ss) = Inr ss"
  by (simp add: strings_value_def de_vec_map)

lemma de_u64_value [simp]: "de_u64 (JNumber (number_from_u64 v)) = Inr v"
  by (simp add: de_u64_def)

text \<open>Reading a struct's object back: every field is found under its name.\<close>

lemma struct_entries_object:
  assumes "set (map fst es) \<subseteq> set names"
  shows "struct_entries names (object_of es) = Inr (insert_all es [])"
proof -
  have "map_keys (insert_all fs m) = map_keys fs \<union> map_keys m" for fs m :: "(str \<times> json) list"
    by (induction fs arbitrary: m) auto
  then have "map_keys (insert_all es []) \<subseteq> set names"
    using assms by (simp add: map_keys_def)
  then show ?thesis
    by (auto simp: struct_entries_def object_of_def list_all_iff map_keys_def)
qed

lemma map_get_insert_all_Nil:
  "distinct (map fst es) \<Longrightarrow> map_get k (insert_all es []) = map_of es k"
  using map_get_insert_all [of es k "[]"] by (simp add: map_get_def split: option.splits)

lemma map_of_present:
  "distinct (map fst es) \<Longrightarrow>
   map_of (present es) k = (case map_of es k of
      None \<Rightarrow> None | Some v \<Rightarrow> if v = JNull then None else Some v)"
proof (induction es)
  case (Cons e es)
  then have "map_of es (fst e) = None" by (simp add: map_of_eq_None_iff)
  with Cons show ?case
    by (cases e) (auto simp: present_def split: option.splits if_splits)
qed (simp add: present_def)

lemma present_names: "set (map fst (present es)) \<subseteq> set (map fst es)"
  by (auto simp: present_def)

lemma distinct_present: "distinct (map fst es) \<Longrightarrow> distinct (map fst (present es))"
  by (simp add: present_def distinct_map_filter)

lemma map_get_object_present:
  "distinct (map fst es) \<Longrightarrow>
   map_get k (insert_all (present es) []) = (case map_of es k of
      None \<Rightarrow> None | Some v \<Rightarrow> if v = JNull then None else Some v)"
  by (simp add: map_get_insert_all_Nil distinct_present map_of_present)

lemma de_policy_value [simp]: "de_policy (policy_value p) = Inr p"
  by (simp add: de_policy_def policy_value_def struct_entries_object field_def
      map_get_def)

lemma de_capabilities_value [simp]: "de_capabilities (capabilities_value c) = Inr c"
  by (simp add: de_capabilities_def capabilities_value_def struct_entries_object field_def
      map_get_def)

lemma de_artifact_value [simp]: "de_artifact (artifact_value a) = Inr a"
  by (simp add: de_artifact_def artifact_value_def struct_entries_object field_def
      map_get_def)

lemma de_key_value [simp]: "de_key (key_value k) = Inr k"
  by (simp add: de_key_def key_value_def struct_entries_object field_def
      map_get_def)

lemma de_operator_value [simp]: "de_operator (compact_operator_value o') = Inr o'"
  by (simp add: de_operator_def compact_operator_value_def present_def struct_entries_object
      field_def option_field_def option_value_def map_get_def split: option.splits)

lemma compact_operator_not_null [simp]: "compact_operator_value o' \<noteq> JNull"
  by (simp add: compact_operator_value_def object_of_def)

lemma values_not_null [simp]:
  "policy_value p \<noteq> JNull" "capabilities_value c \<noteq> JNull" "strings_value ss \<noteq> JNull"
  by (simp_all add: policy_value_def capabilities_value_def strings_value_def object_of_def)

lemma manifest_fields_names: "map fst (manifest_fields j m) = manifest_field_names"
  by (simp add: manifest_fields_def manifest_field_names_def)

lemma distinct_manifest_field_names: "distinct manifest_field_names"
  by (simp add: manifest_field_names_def)

text \<open>What reading the compact object finds under each name.\<close>

lemma compact_manifest_get:
  "map_get k (insert_all (present (manifest_fields j m)) []) =
     (case map_of (manifest_fields j m) k of
        None \<Rightarrow> None | Some v \<Rightarrow> if v = JNull then None else Some v)"
  by (simp add: map_get_object_present manifest_fields_names distinct_manifest_field_names)

lemma manifest_fields_lookup:
  "map_of (manifest_fields j m) ''tfws_version'' = Some (JString (tfws_version m))"
  "map_of (manifest_fields j m) ''subject'' = Some (JString (subject m))"
  "map_of (manifest_fields j m) ''environment'' = Some (JString (environment m))"
  "map_of (manifest_fields j m) ''operator'' = Some j"
  "map_of (manifest_fields j m) ''key_epoch'' = Some (JNumber (number_from_u64 (key_epoch m)))"
  "map_of (manifest_fields j m) ''keys'' = Some (JArray (map key_value (keys m)))"
  "map_of (manifest_fields j m) ''signature_policy'' = Some (policy_value (policy_of m))"
  "map_of (manifest_fields j m) ''capabilities'' = Some (capabilities_value (capabilities_of m))"
  "map_of (manifest_fields j m) ''identity'' = Some (option_value id (identity m))"
  "map_of (manifest_fields j m) ''artifacts'' = Some (JArray (map artifact_value (artifacts m)))"
  "map_of (manifest_fields j m) ''updated_at'' = Some (JString (updated_at m))"
  "map_of (manifest_fields j m) ''expires_at'' = Some (option_value JString (expires_at m))"
  by (simp_all add: manifest_fields_def)

lemmas compact_lookup = compact_manifest_get manifest_fields_lookup

lemma derived_from_value_compact:
  assumes "identity m \<noteq> Some JNull"
  shows "derived_from_value (compact_manifest_value m) = Inr m"
proof -
  let ?fs = "manifest_fields (compact_operator_value (operator_of m)) m"
  have "set (map fst (present ?fs)) \<subseteq> set manifest_field_names"
    using present_names [of ?fs] by (simp only: manifest_fields_names)
  then have entries: "struct_entries manifest_field_names (compact_manifest_value m)
      = Inr (insert_all (present ?fs) [])"
    by (simp only: compact_manifest_value_def struct_entries_object)
  have idn: "option_field Inr (insert_all (present ?fs) []) ''identity'' = Inr (identity m)"
    using assms
    by (cases "identity m")
      (simp_all add: option_field_def compact_lookup option_value_def)
  have ex: "option_field de_string (insert_all (present ?fs) []) ''expires_at''
      = Inr (expires_at m)"
    by (cases "expires_at m")
      (simp_all add: option_field_def compact_lookup option_value_def)
  show ?thesis
    unfolding derived_from_value_def entries and_then_simps idn ex
    by (simp add: field_def compact_lookup de_vec_map)
qed

interpretation derived: serde_manifest derived_to_value derived_from_value
  by unfold_locales (simp_all add: derived_to_value_def derived_from_value_compact)

end
