(* ===== verification/Cbor.thy ===== *)
theory Cbor
  imports Minicbor Serde "HOL-Library.Product_Lexorder"
begin

text \<open>
  \<open>crates/tfws-core/src/cbor.rs\<close>: the strict deterministic CBOR codec of the manifest.  The
  CBOR library is the argument \<open>mc\<close>, the other libraries are the argument \<open>cr\<close>.
\<close>

section \<open>Limits and errors\<close>

record cbor_limits =
  max_manifest_bytes :: usize
  max_depth :: usize
  max_map_pairs :: usize
  max_array_items :: usize
  max_string_bytes :: usize

definition default_limits :: cbor_limits where
  "default_limits = \<lparr>
     max_manifest_bytes = 4 * 1024 * 1024,
     max_depth = 32,
     max_map_pairs = 1024,
     max_array_items = 4096,
     max_string_bytes = 4 * 1024 * 1024\<rparr>"

text \<open>The products evaluated once.\<close>

lemma default_limits_code [code]:
  "default_limits = \<lparr>max_manifest_bytes = 4194304, max_depth = 32, max_map_pairs = 1024,
     max_array_items = 4096, max_string_bytes = 4194304\<rparr>"
  by (simp add: default_limits_def)

datatype cbor_error =
    MalformedCbor str
  | TrailingData
  | NonDeterministicCbor
  | IndefiniteLength str
  | UnsupportedCborType str
  | IntegerOutOfRange
  | DuplicateKey str
  | MapKeyOrder
  | ResourceLimit str
  | SchemaViolation str
  | ManifestPolicy str
  | EncodeFailure str

definition cbor_category :: "cbor_error \<Rightarrow> str" where
  "cbor_category e = (case e of
      MalformedCbor _ \<Rightarrow> ''malformed_cbor''
    | TrailingData \<Rightarrow> ''malformed_cbor''
    | NonDeterministicCbor \<Rightarrow> ''non_deterministic_cbor''
    | IndefiniteLength _ \<Rightarrow> ''non_deterministic_cbor''
    | DuplicateKey _ \<Rightarrow> ''non_deterministic_cbor''
    | MapKeyOrder \<Rightarrow> ''non_deterministic_cbor''
    | UnsupportedCborType _ \<Rightarrow> ''unsupported_cbor_type''
    | IntegerOutOfRange \<Rightarrow> ''unsupported_cbor_type''
    | ResourceLimit _ \<Rightarrow> ''resource_limit''
    | SchemaViolation _ \<Rightarrow> ''manifest_policy_invalid''
    | ManifestPolicy _ \<Rightarrow> ''manifest_policy_invalid''
    | EncodeFailure _ \<Rightarrow> ''malformed_cbor'')"

section \<open>The value profile\<close>

text \<open>A length against a limit of type \<open>usize\<close>.\<close>

definition exceeds :: "nat \<Rightarrow> usize \<Rightarrow> bool" where
  "exceeds n limit \<longleftrightarrow> unat limit < n"

definition validate_number :: "number \<Rightarrow> cbor_error + unit" where
  "validate_number n = (case as_u64 n of
      Some u \<Rightarrow>
        if u \<le> MAX_SAFE_INTEGER then Inr () else Inl IntegerOutOfRange
    | None \<Rightarrow> (case as_i64 n of
          Some i \<Rightarrow>
            if unsigned_abs i \<le> MAX_SAFE_INTEGER then Inr () else Inl IntegerOutOfRange
        | None \<Rightarrow> Inl (UnsupportedCborType ''floating-point number'')))"

fun validate_value_profile :: "json \<Rightarrow> cbor_limits \<Rightarrow> nat \<Rightarrow> cbor_error + unit"
and validate_items :: "json list \<Rightarrow> cbor_limits \<Rightarrow> nat \<Rightarrow> cbor_error + unit"
and validate_entries :: "(str \<times> json) list \<Rightarrow> cbor_limits \<Rightarrow> nat \<Rightarrow> cbor_error + unit" where
  "validate_value_profile value lim depth =
     (if exceeds depth (max_depth lim) then Inl (ResourceLimit ''nesting depth'')
      else case value of
          JNull \<Rightarrow> Inl (UnsupportedCborType ''null'')
        | JBool _ \<Rightarrow> Inr ()
        | JNumber n \<Rightarrow> validate_number n
        | JString text \<Rightarrow>
            if exceeds (length text) (max_string_bytes lim)
            then Inl (ResourceLimit ''text string bytes'') else Inr ()
        | JArray items \<Rightarrow>
            if exceeds (length items) (max_array_items lim)
            then Inl (ResourceLimit ''array items'')
            else validate_items items lim (depth + 1)
        | JObject entries \<Rightarrow>
            if exceeds (length entries) (max_map_pairs lim)
            then Inl (ResourceLimit ''map pairs'')
            else validate_entries entries lim (depth + 1))"
| "validate_items [] lim depth = Inr ()"
| "validate_items (item # items) lim depth =
     and_then (validate_value_profile item lim depth) (\<lambda>_. validate_items items lim depth)"
| "validate_entries [] lim depth = Inr ()"
| "validate_entries ((key, item) # entries) lim depth =
     (if exceeds (length key) (max_string_bytes lim)
      then Inl (ResourceLimit ''map key bytes'')
      else and_then (validate_value_profile item lim depth)
        (\<lambda>_. validate_entries entries lim depth))"

section \<open>Encoding\<close>

definition compare_encoded_keys :: "bytes \<Rightarrow> bytes \<Rightarrow> ordering" where
  "compare_encoded_keys left right =
     then_with (cmp (length left) (length right)) (cmp left right)"

definition encoded_text_key :: "minicbor \<Rightarrow> str \<Rightarrow> cbor_error + bytes" where
  "encoded_text_key mc key = map_err EncodeFailure (me_str mc key)"

text \<open>The loop that pairs every entry with its encoded key.\<close>

fun order_entries ::
  "minicbor \<Rightarrow> cbor_limits \<Rightarrow> (str \<times> json) list \<Rightarrow> cbor_error + (bytes \<times> str \<times> json) list" where
  "order_entries mc lim [] = Inr []"
| "order_entries mc lim ((key, item) # entries) =
     (if exceeds (length key) (max_string_bytes lim)
      then Inl (ResourceLimit ''map key bytes'')
      else and_then (encoded_text_key mc key) (\<lambda>encoded.
           and_then (order_entries mc lim entries) (\<lambda>ordered.
           Inr ((encoded, key, item) # ordered))))"

lemma order_entries_map:
  "order_entries mc lim es = Inr os \<Longrightarrow> map snd os = es"
  by (induction es arbitrary: os) (auto simp: result_iff)

definition entry_sizes :: "(bytes \<times> str \<times> json) list \<Rightarrow> nat" where
  "entry_sizes os = sum_list (map (\<lambda>e. Suc (size (snd (snd e)))) os)"

lemma entry_sizes_sorted [simp]: "entry_sizes (sort_by c os) = entry_sizes os"
proof -
  have "mset (map (\<lambda>e. Suc (size (snd (snd e)))) (sort_by c os))
      = mset (map (\<lambda>e. Suc (size (snd (snd e)))) os)" by simp
  then show ?thesis unfolding entry_sizes_def by (metis sum_mset_sum_list)
qed

lemma entry_sizes_ordered:
  assumes "order_entries mc lim es = Inr os"
  shows "entry_sizes os < size (JObject es)"
proof -
  have "entry_sizes os = sum_list (map (\<lambda>e. Suc (size (snd e))) (map snd os))"
    by (simp add: entry_sizes_def o_def)
  also have "\<dots> = sum_list (map (\<lambda>e. Suc (size (snd e))) es)"
    by (simp only: order_entries_map [OF assms])
  also have "\<dots> < size (JObject es)"
    by (induction es) auto
  finally show ?thesis .
qed

text \<open>
  \<open>encode_value\<close> with its two loops.  The bytes an encoder has appended are the result; on
  an error the caller drops them, as \<open>encode_value_to_vec\<close> does.
\<close>

function encode_value :: "minicbor \<Rightarrow> cbor_limits \<Rightarrow> nat \<Rightarrow> json \<Rightarrow> cbor_error + bytes"
and encode_items :: "minicbor \<Rightarrow> cbor_limits \<Rightarrow> nat \<Rightarrow> json list \<Rightarrow> cbor_error + bytes"
and encode_entries ::
  "minicbor \<Rightarrow> cbor_limits \<Rightarrow> nat \<Rightarrow> (bytes \<times> str \<times> json) list \<Rightarrow> cbor_error + bytes" where
  "encode_value mc lim depth value =
     (if exceeds depth (max_depth lim) then Inl (ResourceLimit ''nesting depth'')
      else case value of
          JNull \<Rightarrow> Inl (UnsupportedCborType ''null'')
        | JBool b \<Rightarrow> map_err EncodeFailure (me_bool mc b)
        | JNumber n \<Rightarrow>
            and_then (validate_number n) (\<lambda>_.
            case as_u64 n of
                Some u \<Rightarrow> map_err EncodeFailure (me_u64 mc u)
              | None \<Rightarrow> (case as_i64 n of
                    Some i \<Rightarrow> map_err EncodeFailure (me_i64 mc i)
                  | None \<Rightarrow> Inl (UnsupportedCborType ''floating-point number'')))
        | JString text \<Rightarrow>
            if exceeds (length text) (max_string_bytes lim)
            then Inl (ResourceLimit ''text string bytes'')
            else map_err EncodeFailure (me_str mc text)
        | JArray items \<Rightarrow>
            if exceeds (length items) (max_array_items lim)
            then Inl (ResourceLimit ''array items'')
            else and_then (map_err EncodeFailure (me_array mc (of_nat (length items)))) (\<lambda>h.
                 and_then (encode_items mc lim (depth + 1) items) (\<lambda>body.
                 Inr (h @ body)))
        | JObject entries \<Rightarrow>
            if exceeds (length entries) (max_map_pairs lim)
            then Inl (ResourceLimit ''map pairs'')
            else and_then (order_entries mc lim entries) (\<lambda>unordered.
                 let ordered = sort_by (\<lambda>l r. compare_encoded_keys (fst l) (fst r)) unordered in
                 and_then (map_err EncodeFailure (me_map mc (of_nat (length ordered)))) (\<lambda>h.
                 and_then (encode_entries mc lim (depth + 1) ordered) (\<lambda>body.
                 Inr (h @ body)))))"
| "encode_items mc lim depth [] = Inr []"
| "encode_items mc lim depth (item # items) =
     and_then (encode_value mc lim depth item) (\<lambda>b.
     and_then (encode_items mc lim depth items) (\<lambda>bs. Inr (b @ bs)))"
| "encode_entries mc lim depth [] = Inr []"
| "encode_entries mc lim depth ((_, key, item) # ordered) =
     and_then (map_err EncodeFailure (me_str mc key)) (\<lambda>k.
     and_then (encode_value mc lim depth item) (\<lambda>b.
     and_then (encode_entries mc lim depth ordered) (\<lambda>bs. Inr (k @ b @ bs))))"
  by pat_completeness auto

text \<open>The loops run over parts of the value: sorting the entries keeps their total size.\<close>

termination
proof (relation "measure (case_sum (\<lambda>(mc, lim, depth, v). 2 * size v)
    (case_sum (\<lambda>(mc, lim, depth, vs). Suc (2 * size_list size vs))
      (\<lambda>(mc, lim, depth, os). Suc (2 * entry_sizes os))))", goal_cases)
  case (3 mc lim depth v x6 xa x)
  then show ?case using entry_sizes_ordered [of mc lim x6 xa] by simp
qed (auto simp: entry_sizes_def)

definition encode_value_to_vec :: "minicbor \<Rightarrow> json \<Rightarrow> cbor_limits \<Rightarrow> cbor_error + bytes" where
  "encode_value_to_vec mc v lim =
     and_then (validate_value_profile v lim 0) (\<lambda>_. encode_value mc lim 0 v)"

section \<open>Decoding\<close>

text \<open>
  \<open>decode_value\<close>, \<open>decode_array\<close> and \<open>decode_map\<close>; the bodies of the two \<open>for\<close> loops are
  \<open>decode_items\<close> and \<open>decode_entries\<close>, with the number of rounds left and the variables the
  loop updates (\<open>items\<close>; \<open>entries\<close>, \<open>seen\<close>, \<open>previous_key_bytes\<close>) as arguments.
\<close>

definition key_slice :: "decoder \<Rightarrow> nat \<Rightarrow> nat \<Rightarrow> bytes" where
  "key_slice d key_start key_end = take (key_end - key_start) (drop key_start (d_input d))"

definition key_order_violated :: "bytes option \<Rightarrow> bytes \<Rightarrow> bool" where
  "key_order_violated previous key_bytes = (case previous of
      None \<Rightarrow> False
    | Some p \<Rightarrow> compare_encoded_keys p key_bytes \<noteq> Less)"

text \<open>
  Every nested value is one level deeper and a value below the limit is read no further, so
  the recursion ends without fuel: levels left first, then rounds left in the loop.
\<close>

definition levels_left :: "cbor_limits \<Rightarrow> nat \<Rightarrow> nat" where
  "levels_left lim depth = Suc (unat (max_depth lim)) - depth"

lemma levels_left_Suc:
  "levels_left lim (Suc depth) = levels_left lim depth - 1"
  "exceeds depth (max_depth lim) \<longleftrightarrow> levels_left lim depth = 0"
  by (auto simp: levels_left_def exceeds_def)

function decode_value ::
  "minicbor \<Rightarrow> cbor_limits \<Rightarrow> nat \<Rightarrow> decoder \<Rightarrow> cbor_error + json \<times> decoder"
and decode_array ::
  "minicbor \<Rightarrow> cbor_limits \<Rightarrow> nat \<Rightarrow> decoder \<Rightarrow> cbor_error + json \<times> decoder"
and decode_items ::
  "minicbor \<Rightarrow> cbor_limits \<Rightarrow> nat \<Rightarrow> nat \<Rightarrow> json list \<Rightarrow> decoder \<Rightarrow> cbor_error + json list \<times> decoder"
and decode_map ::
  "minicbor \<Rightarrow> cbor_limits \<Rightarrow> nat \<Rightarrow> decoder \<Rightarrow> cbor_error + json \<times> decoder"
and decode_entries ::
  "minicbor \<Rightarrow> cbor_limits \<Rightarrow> nat \<Rightarrow> nat \<Rightarrow> (str \<times> json) list \<Rightarrow> str set \<Rightarrow> bytes option \<Rightarrow> decoder
     \<Rightarrow> cbor_error + (str \<times> json) list \<times> decoder" where
  "decode_value mc lim depth d =
     (if exceeds depth (max_depth lim) then Inl (ResourceLimit ''nesting depth'')
      else and_then (map_err MalformedCbor (mc_datatype mc d)) (\<lambda>data_type.
        if data_type = T_Bool then
          and_then (map_err MalformedCbor (mc_bool mc d)) (\<lambda>(b, d'). Inr (JBool b, d'))
        else if data_type \<in> {T_U8, T_U16, T_U32, T_U64} then
          and_then (map_err MalformedCbor (mc_u64 mc d)) (\<lambda>(u, d').
            if u > MAX_SAFE_INTEGER then Inl IntegerOutOfRange
            else Inr (JNumber (number_from_u64 u), d'))
        else if data_type \<in> {T_I8, T_I16, T_I32, T_I64} then
          and_then (map_err MalformedCbor (mc_i64 mc d)) (\<lambda>(i, d').
            if unsigned_abs i > MAX_SAFE_INTEGER then Inl IntegerOutOfRange
            else Inr (JNumber (number_from_i64 i), d'))
        else if data_type = T_Int then Inl IntegerOutOfRange
        else if data_type = T_String then
          and_then (map_err MalformedCbor (mc_str mc d)) (\<lambda>(text, d').
            if exceeds (length text) (max_string_bytes lim)
            then Inl (ResourceLimit ''text string bytes'')
            else Inr (JString text, d'))
        else if data_type = T_Array then decode_array mc lim depth d
        else if data_type = T_Map then decode_map mc lim depth d
        else if data_type = T_StringIndef then Inl (IndefiniteLength ''text string'')
        else if data_type = T_BytesIndef then Inl (IndefiniteLength ''byte string'')
        else if data_type = T_ArrayIndef then Inl (IndefiniteLength ''array'')
        else if data_type = T_MapIndef then Inl (IndefiniteLength ''map'')
        else Inl (UnsupportedCborType (mc_type_debug mc data_type))))"
| "decode_array mc lim depth d =
     and_then (map_err MalformedCbor (mc_array mc d)) (\<lambda>(len, d').
     and_then (ok_or (IndefiniteLength ''array'') len) (\<lambda>n.
       if exceeds (unat n) (max_array_items lim) then Inl (ResourceLimit ''array items'')
       else and_then (decode_items mc lim depth (unat n) [] d') (\<lambda>(items, d'').
            Inr (JArray items, d''))))"
| "decode_items mc lim depth 0 items d = Inr (items, d)"
| "decode_items mc lim depth (Suc n) items d =
     and_then (decode_value mc lim (depth + 1) d) (\<lambda>(item, d').
       decode_items mc lim depth n (items @ [item]) d')"
| "decode_map mc lim depth d =
     and_then (map_err MalformedCbor (mc_map mc d)) (\<lambda>(len, d').
     and_then (ok_or (IndefiniteLength ''map'') len) (\<lambda>n.
       if exceeds (unat n) (max_map_pairs lim) then Inl (ResourceLimit ''map pairs'')
       else and_then (decode_entries mc lim depth (unat n) [] {} None d') (\<lambda>(entries, d'').
            Inr (JObject entries, d''))))"
| "decode_entries mc lim depth 0 entries seen previous d = Inr (entries, d)"
| "decode_entries mc lim depth (Suc n) entries seen previous d =
     and_then (map_err MalformedCbor (mc_datatype mc d)) (\<lambda>key_type.
       if key_type = T_StringIndef then Inl (IndefiniteLength ''map key'')
       else if key_type \<noteq> T_String
       then Inl (UnsupportedCborType ''map key must be a text string'')
       else and_then (map_err MalformedCbor (mc_str mc d)) (\<lambda>(key, d').
         if exceeds (length key) (max_string_bytes lim)
         then Inl (ResourceLimit ''map key bytes'')
         else if key \<in> seen then Inl (DuplicateKey key)
         else let key_bytes = key_slice d' (d_pos d) (d_pos d') in
           if key_order_violated previous key_bytes then Inl MapKeyOrder
           else and_then (decode_value mc lim (depth + 1) d') (\<lambda>(v, d'').
                decode_entries mc lim depth n (map_insert key v entries) (insert key seen)
                  (Some key_bytes) d'')))"
  by pat_completeness auto

termination
  by (relation "measures
      [case_sum
         (case_sum
           (\<lambda>(mc, lim, depth, d).
              if levels_left lim depth = 0 then 0 else 4 * levels_left lim depth + 3)
           (\<lambda>(mc, lim, depth, d). 4 * levels_left lim depth + 2))
         (case_sum
           (\<lambda>(mc, lim, depth, n, items, d). 4 * levels_left lim depth + 1)
           (case_sum
             (\<lambda>(mc, lim, depth, d). 4 * levels_left lim depth + 2)
             (\<lambda>(mc, lim, depth, n, entries, seen, prev, d). 4 * levels_left lim depth + 1))),
       case_sum (\<lambda>_. 0)
         (case_sum (\<lambda>(mc, lim, depth, n, items, d). n)
           (case_sum (\<lambda>_. 0) (\<lambda>(mc, lim, depth, n, entries, seen, prev, d). n)))]")
    (auto simp: levels_left_Suc)

declare decode_value.simps [simp del] decode_array.simps [simp del] decode_map.simps [simp del]
  decode_items.simps [simp del] decode_entries.simps [simp del]
  encode_value.simps [simp del] validate_value_profile.simps [simp del]

section \<open>Manifests\<close>

definition check_identity :: "manifest \<Rightarrow> cbor_error + unit" where
  "check_identity m = (case identity m of
      None \<Rightarrow> Inr ()
    | Some v \<Rightarrow>
        if \<not> is_object v then Inl (SchemaViolation ''identity must be an object'') else Inr ())"

definition check_policy :: "crates \<Rightarrow> manifest \<Rightarrow> cbor_error + unit" where
  "check_policy cr m = map_err (\<lambda>e. ManifestPolicy (error_to_string e)) (validate cr m)"

text \<open>The in-place removals on the root object: absent options are not carried.\<close>

definition remove_if_none :: "'a option \<Rightarrow> str \<Rightarrow> (str \<times> json) list \<Rightarrow> (str \<times> json) list" where
  "remove_if_none v k root = (if v = None then map_remove k root else root)"

definition remove_jurisdiction ::
  "manifest \<Rightarrow> (str \<times> json) list \<Rightarrow> cbor_error + (str \<times> json) list" where
  "remove_jurisdiction m root =
     (if jurisdiction (operator_of m) = None then
        and_then (ok_or (SchemaViolation ''operator must be an object'')
            (Option.bind (map_get ''operator'' root) as_object)) (\<lambda>op.
        Inr (map_insert ''operator'' (JObject (map_remove ''jurisdiction'' op)) root))
      else Inr root)"

definition manifest_to_value :: "crates \<Rightarrow> manifest \<Rightarrow> cbor_limits \<Rightarrow> cbor_error + json" where
  "manifest_to_value cr m lim =
     and_then (check_policy cr m) (\<lambda>_.
     and_then (check_identity m) (\<lambda>_.
     and_then (map_err SchemaViolation (to_value cr m)) (\<lambda>v.
     and_then (ok_or (SchemaViolation ''manifest must be an object'') (as_object v)) (\<lambda>root.
     and_then (remove_jurisdiction m
         (remove_if_none (expires_at m) ''expires_at''
           (remove_if_none (identity m) ''identity'' root))) (\<lambda>root'.
     and_then (validate_value_profile (JObject root') lim 0) (\<lambda>_.
     Inr (JObject root')))))))"

definition encode_manifest_cbor_with_limits ::
  "minicbor \<Rightarrow> crates \<Rightarrow> manifest \<Rightarrow> cbor_limits \<Rightarrow> cbor_error + bytes" where
  "encode_manifest_cbor_with_limits mc cr m lim =
     and_then (manifest_to_value cr m lim) (\<lambda>v.
     and_then (encode_value_to_vec mc v lim) (\<lambda>encoded.
       if exceeds (length encoded) (max_manifest_bytes lim)
       then Inl (ResourceLimit ''manifest bytes'')
       else Inr encoded))"

definition encode_manifest_cbor :: "minicbor \<Rightarrow> crates \<Rightarrow> manifest \<Rightarrow> cbor_error + bytes" where
  "encode_manifest_cbor mc cr m = encode_manifest_cbor_with_limits mc cr m default_limits"

definition decode_manifest_cbor ::
  "minicbor \<Rightarrow> crates \<Rightarrow> bytes \<Rightarrow> cbor_limits \<Rightarrow> cbor_error + manifest" where
  "decode_manifest_cbor mc cr inp lim =
     (if exceeds (length inp) (max_manifest_bytes lim) then Inl (ResourceLimit ''manifest bytes'')
      else if inp = [] then Inl (MalformedCbor ''empty input'')
      else
        and_then (decode_value mc lim 0 (decoder_new inp)) (\<lambda>(v, d).
          if d_pos d \<noteq> length inp then Inl TrailingData
          else
            and_then (encode_value_to_vec mc v lim) (\<lambda>deterministic.
              if deterministic \<noteq> inp then Inl NonDeterministicCbor
              else
                and_then (map_err SchemaViolation (from_value cr v)) (\<lambda>m.
                and_then (check_identity m) (\<lambda>_.
                and_then (check_policy cr m) (\<lambda>_. Inr m))))))"

end
