(* ===== verification/Cbor_Laws.thy ===== *)
theory Cbor_Laws
  imports Cbor
begin

text \<open>
  The facts about the CBOR codec its properties rest on: the profile every decoded value
  satisfies, success of the encoder exactly on the profile, and decoding as the inverse of
  encoding, the last two for any CBOR library that keeps the laws of \<open>cbor_data_items\<close>.
\<close>

section \<open>The profile, constructor by constructor\<close>

lemma validate_items_ok:
  "validate_items vs lim depth = Inr u \<longleftrightarrow>
     (\<forall>v \<in> set vs. validate_value_profile v lim depth = Inr ())"
  by (induction vs) (auto simp: result_iff)

lemma validate_entries_ok:
  "validate_entries es lim depth = Inr u \<longleftrightarrow>
     (\<forall>e \<in> set es. \<not> exceeds (length (fst e)) (max_string_bytes lim)
        \<and> validate_value_profile (snd e) lim depth = Inr ())"
  by (induction es) (auto simp: result_iff)

lemma profile_ok:
  "validate_value_profile JNull lim depth \<noteq> Inr u"
  "validate_value_profile (JBool b) lim depth = Inr u \<longleftrightarrow> \<not> exceeds depth (max_depth lim)"
  "validate_value_profile (JNumber n) lim depth = Inr u \<longleftrightarrow>
     \<not> exceeds depth (max_depth lim) \<and> validate_number n = Inr ()"
  "validate_value_profile (JString s) lim depth = Inr u \<longleftrightarrow>
     \<not> exceeds depth (max_depth lim) \<and> \<not> exceeds (length s) (max_string_bytes lim)"
  "validate_value_profile (JArray vs) lim depth = Inr u \<longleftrightarrow>
     \<not> exceeds depth (max_depth lim) \<and> \<not> exceeds (length vs) (max_array_items lim)
     \<and> (\<forall>v \<in> set vs. validate_value_profile v lim (Suc depth) = Inr ())"
  "validate_value_profile (JObject es) lim depth = Inr u \<longleftrightarrow>
     \<not> exceeds depth (max_depth lim) \<and> \<not> exceeds (length es) (max_map_pairs lim)
     \<and> (\<forall>e \<in> set es. \<not> exceeds (length (fst e)) (max_string_bytes lim)
          \<and> validate_value_profile (snd e) lim (Suc depth) = Inr ())"
  by (auto simp: validate_value_profile.simps validate_items_ok validate_entries_ok)

lemma validate_number_from:
  "validate_number (number_from_u64 u) = Inr () \<longleftrightarrow> u \<le> MAX_SAFE_INTEGER"
  "validate_number (number_from_i64 i) = Inr () \<longleftrightarrow> unsigned_abs i \<le> MAX_SAFE_INTEGER"
proof -
  show "validate_number (number_from_u64 u) = Inr () \<longleftrightarrow> u \<le> MAX_SAFE_INTEGER"
    by (simp add: validate_number_def)
  show "validate_number (number_from_i64 i) = Inr () \<longleftrightarrow> unsigned_abs i \<le> MAX_SAFE_INTEGER"
    by (auto simp: validate_number_def as_u64_from_i64 unsigned_abs_def)
qed

lemma validate_number_ok: "validate_number n = Inr u \<longleftrightarrow> safe_number n"
proof (cases "as_u64 n")
  case (Some u)
  then have n: "n = number_from_u64 u" by (simp add: as_u64_Some)
  show ?thesis
    unfolding n unit_result_eq [of "validate_number _"]
    by (simp add: is_ok_iff validate_number_from le_max_safe safe_number_def
        number_from_u64_def validate_number_def)
next
  case None
  show ?thesis
  proof (cases "as_i64 n")
    case (Some i)
    then have "n = number_from_i64 i" by (simp add: as_i64_Some)
    with None show ?thesis
      using sint_i64_bounds [of i]
      by (simp add: validate_number_def unsigned_abs_le safe_number_def number_from_i64_def)
  next
    case c: None
    with None show ?thesis
      by (cases n) (auto simp: validate_number_def safe_number_def split: if_splits)
  qed
qed

section \<open>What the decoder returns\<close>

text \<open>One successful step of each of the mutually recursive parts.\<close>

lemma decode_value_ok:
  "decode_value mc lim depth d = Inr (v, d') \<longleftrightarrow>
     \<not> exceeds depth (max_depth lim) \<and>
     (\<exists>t. mc_datatype mc d = Inr t \<and>
       (t = T_Bool \<and> (\<exists>b. mc_bool mc d = Inr (b, d') \<and> v = JBool b)
        \<or> t \<in> unsigned_types \<and>
            (\<exists>u. mc_u64 mc d = Inr (u, d') \<and> u \<le> MAX_SAFE_INTEGER
               \<and> v = JNumber (number_from_u64 u))
        \<or> t \<in> negative_types \<and>
            (\<exists>i. mc_i64 mc d = Inr (i, d') \<and> unsigned_abs i \<le> MAX_SAFE_INTEGER
               \<and> v = JNumber (number_from_i64 i))
        \<or> t = T_String \<and>
            (\<exists>s. mc_str mc d = Inr (s, d') \<and> \<not> exceeds (length s) (max_string_bytes lim)
               \<and> v = JString s)
        \<or> t = T_Array \<and> decode_array mc lim depth d = Inr (v, d')
        \<or> t = T_Map \<and> decode_map mc lim depth d = Inr (v, d')))"
  by (cases "mc_datatype mc d")
    (auto simp: decode_value.simps [of mc lim depth d] unsigned_types_def negative_types_def
      result_iff not_less split: if_splits)

lemma decode_array_ok:
  "decode_array mc lim depth d = Inr (v, d') \<longleftrightarrow>
     (\<exists>n d1 items. mc_array mc d = Inr (Some n, d1) \<and> \<not> exceeds (unat n) (max_array_items lim)
        \<and> decode_items mc lim depth (unat n) [] d1 = Inr (items, d') \<and> v = JArray items)"
  by (auto simp: decode_array.simps [of mc lim depth d] result_iff)

lemma decode_map_ok:
  "decode_map mc lim depth d = Inr (v, d') \<longleftrightarrow>
     (\<exists>n d1 es. mc_map mc d = Inr (Some n, d1) \<and> \<not> exceeds (unat n) (max_map_pairs lim)
        \<and> decode_entries mc lim depth (unat n) [] {} None d1 = Inr (es, d') \<and> v = JObject es)"
  by (auto simp: decode_map.simps [of mc lim depth d] result_iff)

lemma decode_items_ok:
  "decode_items mc lim depth 0 items d = Inr (vs, d') \<longleftrightarrow> vs = items \<and> d' = d"
  "decode_items mc lim depth (Suc n) items d = Inr (vs, d') \<longleftrightarrow>
     (\<exists>v d1. decode_value mc lim (Suc depth) d = Inr (v, d1)
        \<and> decode_items mc lim depth n (items @ [v]) d1 = Inr (vs, d'))"
  by (auto simp: decode_items.simps result_iff)

lemma decode_entries_ok:
  "decode_entries mc lim depth 0 entries seen prev d = Inr (es, d') \<longleftrightarrow> es = entries \<and> d' = d"
  "decode_entries mc lim depth (Suc n) entries seen prev d = Inr (es, d') \<longleftrightarrow>
     (\<exists>k d1 v d2. mc_datatype mc d = Inr T_String \<and> mc_str mc d = Inr (k, d1)
        \<and> \<not> exceeds (length k) (max_string_bytes lim) \<and> k \<notin> seen
        \<and> \<not> key_order_violated prev (key_slice d1 (d_pos d) (d_pos d1))
        \<and> decode_value mc lim (Suc depth) d1 = Inr (v, d2)
        \<and> decode_entries mc lim depth n (map_insert k v entries) (insert k seen)
            (Some (key_slice d1 (d_pos d) (d_pos d1))) d2 = Inr (es, d'))"
  by (cases "mc_datatype mc d";
      auto simp: decode_entries.simps result_iff Let_def split: if_splits)+

text \<open>
  Whatever the CBOR library answers, a returned value satisfies the profile at its depth,
  its objects are ordered maps, and its texts satisfy whatever the library's texts satisfy.
\<close>

definition entries_fit :: "(str \<Rightarrow> bool) \<Rightarrow> cbor_limits \<Rightarrow> nat \<Rightarrow> (str \<times> json) list \<Rightarrow> bool" where
  "entries_fit q lim depth es \<longleftrightarrow> sorted_map es \<and>
     (\<forall>e \<in> set es. \<not> exceeds (length (fst e)) (max_string_bytes lim) \<and> q (fst e)
        \<and> validate_value_profile (snd e) lim depth = Inr () \<and> wf_with q (snd e))"

lemma set_map_insert: "set (map_insert k v m) \<subseteq> insert (k, v) (set m)"
  by (induction m) (auto split: if_splits)

lemma length_map_insert: "k \<notin> map_keys m \<Longrightarrow> length (map_insert k v m) = Suc (length m)"
  using insert_all_fresh_length [of "[(k, v)]" m] by simp

lemma entries_fit_insert:
  assumes "entries_fit q lim depth es" and "\<not> exceeds (length k) (max_string_bytes lim)"
    and "q k" and "validate_value_profile v lim depth = Inr ()" and "wf_with q v"
  shows "entries_fit q lim depth (map_insert k v es)"
  using assms set_map_insert [of k v es]
  by (fastforce simp: entries_fit_def sorted_map_insert)

lemma decode_sound:
  assumes q: "\<And>d s d'. mc_str mc d = Inr (s, d') \<Longrightarrow> q s"
  shows "decode_value mc lim depth d = Inr (v, d') \<Longrightarrow>
      validate_value_profile v lim depth = Inr () \<and> wf_with q v"
    and "decode_array mc lim depth d = Inr (v, d') \<Longrightarrow> \<not> exceeds depth (max_depth lim) \<Longrightarrow>
      validate_value_profile v lim depth = Inr () \<and> wf_with q v"
    and "decode_items mc lim depth n items d = Inr (vs, d') \<Longrightarrow>
      (\<exists>ws. vs = items @ ws \<and> length ws = n
         \<and> (\<forall>w \<in> set ws. validate_value_profile w lim (Suc depth) = Inr () \<and> wf_with q w))"
    and "decode_map mc lim depth d = Inr (v, d') \<Longrightarrow> \<not> exceeds depth (max_depth lim) \<Longrightarrow>
      validate_value_profile v lim depth = Inr () \<and> wf_with q v"
    and "decode_entries mc lim depth n entries seen prev d = Inr (es, d') \<Longrightarrow>
      map_keys entries = seen \<Longrightarrow> entries_fit q lim (Suc depth) entries \<Longrightarrow>
      entries_fit q lim (Suc depth) es \<and> length es = length entries + n"
  using q
proof (induction mc lim depth d and mc lim depth d and mc lim depth n items d
    and mc lim depth d and mc lim depth n entries seen prev d
    arbitrary: v d' and v d' and vs d' and v d' and es d'
    rule: decode_value_decode_array_decode_items_decode_map_decode_entries.induct)
  case (1 mc lim depth d)
  note q = "1.prems"(2)
  from "1.prems"(1) obtain t where lv: "\<not> exceeds depth (max_depth lim)"
    and t: "mc_datatype mc d = Inr t"
    and alt: "t = T_Bool \<and> (\<exists>b. mc_bool mc d = Inr (b, d') \<and> v = JBool b)
        \<or> t \<in> unsigned_types \<and>
            (\<exists>u. mc_u64 mc d = Inr (u, d') \<and> u \<le> MAX_SAFE_INTEGER
               \<and> v = JNumber (number_from_u64 u))
        \<or> t \<in> negative_types \<and>
            (\<exists>i. mc_i64 mc d = Inr (i, d') \<and> unsigned_abs i \<le> MAX_SAFE_INTEGER
               \<and> v = JNumber (number_from_i64 i))
        \<or> t = T_String \<and>
            (\<exists>s. mc_str mc d = Inr (s, d') \<and> \<not> exceeds (length s) (max_string_bytes lim)
               \<and> v = JString s)
        \<or> t = T_Array \<and> decode_array mc lim depth d = Inr (v, d')
        \<or> t = T_Map \<and> decode_map mc lim depth d = Inr (v, d')"
    unfolding decode_value_ok by blast
  from alt show ?case
  proof (elim disjE conjE exE)
    fix s assume "mc_str mc d = Inr (s, d')" "\<not> exceeds (length s) (max_string_bytes lim)"
      "v = JString s"
    with lv q [of d s d'] show ?thesis by (simp add: profile_ok)
  next
    assume "t = T_Array" "decode_array mc lim depth d = Inr (v, d')"
    with lv t show ?thesis by (intro "1.IH"(1)) (simp_all add: q)
  next
    assume "t = T_Map" "decode_map mc lim depth d = Inr (v, d')"
    with lv t show ?thesis by (intro "1.IH"(2)) (simp_all add: q)
  qed (simp_all add: profile_ok validate_number_from lv)
next
  case (2 mc lim depth d)
  then show ?case
    by (fastforce simp: decode_array_ok profile_ok result_iff)
next
  case (3 mc lim depth items d)
  then show ?case by (simp add: decode_items_ok)
next
  case (4 mc lim depth n items d)
  note q = "4.prems"(2)
  from "4.prems"(1) obtain w d1 where w: "decode_value mc lim (Suc depth) d = Inr (w, d1)"
    and rest: "decode_items mc lim depth n (items @ [w]) d1 = Inr (vs, d')"
    by (auto simp: decode_items_ok)
  have "validate_value_profile w lim (Suc depth) = Inr () \<and> wf_with q w"
    using "4.IH"(1) w q by simp
  moreover obtain ws where "vs = (items @ [w]) @ ws" "length ws = n"
    "\<forall>x \<in> set ws. validate_value_profile x lim (Suc depth) = Inr () \<and> wf_with q x"
    using "4.IH"(2) [of "(w, d1)" w d1 vs d'] w rest q by auto
  ultimately show ?case by (intro exI [of _ "w # ws"]) simp
next
  case (5 mc lim depth d)
  note q = "5.prems"(3)
  from "5.prems"(1) obtain n d1 es where n: "mc_map mc d = Inr (Some n, d1)"
    "\<not> exceeds (unat n) (max_map_pairs lim)"
    and es: "decode_entries mc lim depth (unat n) [] {} None d1 = Inr (es, d')" "v = JObject es"
    by (auto simp: decode_map_ok)
  then have "entries_fit q lim (Suc depth) es \<and> length es = 0 + unat n"
    using "5.IH" [of "(Some n, d1)" "Some n" d1 n es d'] q by (simp add: entries_fit_def)
  with n es "5.prems"(2) show ?case by (simp add: profile_ok entries_fit_def)
next
  case (6 mc lim depth entries seen prev d)
  then show ?case by (simp add: decode_entries_ok)
next
  case (7 mc lim depth n entries seen prev d)
  note q = "7.prems"(4)
  from "7.prems"(1) obtain k d1 w d2 where step: "mc_datatype mc d = Inr T_String"
    "mc_str mc d = Inr (k, d1)" "\<not> exceeds (length k) (max_string_bytes lim)" "k \<notin> seen"
    "\<not> key_order_violated prev (key_slice d1 (d_pos d) (d_pos d1))"
    and w: "decode_value mc lim (Suc depth) d1 = Inr (w, d2)"
    and rest: "decode_entries mc lim depth n (map_insert k w entries) (insert k seen)
      (Some (key_slice d1 (d_pos d) (d_pos d1))) d2 = Inr (es, d')"
    unfolding decode_entries_ok by blast
  have "validate_value_profile w lim (Suc depth) = Inr () \<and> wf_with q w"
    using "7.IH"(1) step w q by simp
  then have "entries_fit q lim (Suc depth) (map_insert k w entries)"
    using "7.prems"(3) step q by (simp add: entries_fit_insert)
  then have "entries_fit q lim (Suc depth) es \<and> length es = length (map_insert k w entries) + n"
    using "7.IH"(2) step w rest q "7.prems"(2) by simp
  then show ?case using step "7.prems"(2) by (simp add: length_map_insert)
qed

section \<open>The order of the keys\<close>

definition key_rank :: "bytes \<Rightarrow> nat \<times> bytes" where
  "key_rank b = (length b, b)"

lemma compare_encoded_keys_Less:
  "compare_encoded_keys a b = Less \<longleftrightarrow> key_rank a < key_rank b"
  by (auto simp: compare_encoded_keys_def key_rank_def)

lemma key_rank_inject: "key_rank a = key_rank b \<longleftrightarrow> a = b"
  by (auto simp: key_rank_def)

text \<open>The encoded keys strictly ascend, from the previous one on.\<close>

fun ascending :: "bytes option \<Rightarrow> bytes list \<Rightarrow> bool" where
  "ascending prev [] = True"
| "ascending prev (b # bs) = (\<not> key_order_violated prev b \<and> ascending (Some b) bs)"

lemma ascending_sorted:
  "sorted_wrt (<) (map key_rank (p # bs)) \<Longrightarrow> ascending (Some p) bs"
proof (induction bs arbitrary: p)
  case (Cons b bs)
  then show ?case by (simp add: key_order_violated_def compare_encoded_keys_Less)
qed simp

lemma ascending_sort:
  assumes "distinct (map fst os)"
  shows "ascending None (map fst (sort_by (\<lambda>l r. compare_encoded_keys (fst l) (fst r)) os))"
proof -
  let ?ss = "sort_by (\<lambda>l r. compare_encoded_keys (fst l) (fst r)) os"
  have "distinct (map (\<lambda>e. key_rank (fst e)) os)"
    using assms by (simp add: distinct_map inj_on_def key_rank_inject)
  then have "sorted_wrt (<) (map (\<lambda>e. key_rank (fst e)) ?ss)"
    by (intro strictly_sorted_sort_by) (simp_all add: compare_encoded_keys_Less)
  then have "sorted_wrt (<) (map key_rank (map fst ?ss))" by (simp add: o_def)
  then show ?thesis
    by (cases "map fst ?ss") (auto simp: key_order_violated_def intro: ascending_sorted)
qed

section \<open>One successful step of the encoder\<close>

lemma encode_value_cases:
  "encode_value mc lim depth (JBool b) = Inr bs \<longleftrightarrow>
     \<not> exceeds depth (max_depth lim) \<and> me_bool mc b = Inr bs"
  "encode_value mc lim depth (JNumber n) = Inr bs \<longleftrightarrow>
     \<not> exceeds depth (max_depth lim) \<and> validate_number n = Inr () \<and>
     ((\<exists>u. as_u64 n = Some u \<and> me_u64 mc u = Inr bs)
      \<or> as_u64 n = None \<and> (\<exists>i. as_i64 n = Some i \<and> me_i64 mc i = Inr bs))"
  "encode_value mc lim depth (JString s) = Inr bs \<longleftrightarrow>
     \<not> exceeds depth (max_depth lim) \<and> \<not> exceeds (length s) (max_string_bytes lim)
     \<and> me_str mc s = Inr bs"
  "encode_value mc lim depth (JArray vs) = Inr bs \<longleftrightarrow>
     \<not> exceeds depth (max_depth lim) \<and> \<not> exceeds (length vs) (max_array_items lim)
     \<and> (\<exists>h body. me_array mc (of_nat (length vs)) = Inr h
          \<and> encode_items mc lim (Suc depth) vs = Inr body \<and> bs = h @ body)"
  "encode_value mc lim depth (JObject es) = Inr bs \<longleftrightarrow>
     \<not> exceeds depth (max_depth lim) \<and> \<not> exceeds (length es) (max_map_pairs lim)
     \<and> (\<exists>os h body. order_entries mc lim es = Inr os
          \<and> me_map mc (of_nat (length os)) = Inr h
          \<and> encode_entries mc lim (Suc depth)
               (sort_by (\<lambda>l r. compare_encoded_keys (fst l) (fst r)) os) = Inr body
          \<and> bs = h @ body)"
  "encode_value mc lim depth JNull \<noteq> Inr bs"
  by (auto simp: encode_value.simps result_iff Let_def split: option.splits)

lemma order_entries_ok:
  "order_entries mc lim es = Inr os \<longleftrightarrow>
     map snd os = es \<and>
     (\<forall>e \<in> set os. \<not> exceeds (length (fst (snd e))) (max_string_bytes lim)
        \<and> me_str mc (fst (snd e)) = Inr (fst e))"
proof (induction es arbitrary: os)
  case (Cons e es)
  obtain k v where "e = (k, v)" by (cases e)
  with Cons show ?case
    by (cases os) (auto simp: result_iff encoded_text_key_def)
qed auto

lemma encode_items_each:
  "encode_items mc lim depth vs = Inr bs \<Longrightarrow> v \<in> set vs \<Longrightarrow>
   \<exists>b. encode_value mc lim depth v = Inr b"
  by (induction vs arbitrary: bs) (auto simp: result_iff)

lemma encode_entries_each:
  "encode_entries mc lim depth os = Inr bs \<Longrightarrow> e \<in> set os \<Longrightarrow>
   \<exists>b. encode_value mc lim depth (snd (snd e)) = Inr b"
proof (induction os arbitrary: bs)
  case (Cons f os)
  obtain c k v where "f = (c, k, v)" by (cases f)
  with Cons show ?case by (auto simp: result_iff)
qed simp

lemma encode_value_profile:
  "encode_value mc lim depth v = Inr bs \<Longrightarrow> validate_value_profile v lim depth = Inr ()"
proof (induction v arbitrary: depth bs)
  case (JArray vs)
  then show ?case by (auto simp: encode_value_cases profile_ok dest: encode_items_each)
next
  case (JObject es)
  then obtain os body where os: "order_entries mc lim es = Inr os"
    and body: "encode_entries mc lim (Suc depth)
      (sort_by (\<lambda>l r. compare_encoded_keys (fst l) (fst r)) os) = Inr body"
    by (auto simp: encode_value_cases)
  have es: "map snd os = es" using os by (simp add: order_entries_ok)
  have "\<not> exceeds (length (fst e)) (max_string_bytes lim)
      \<and> validate_value_profile (snd e) lim (Suc depth) = Inr ()" if e: "e \<in> set es" for e
  proof -
    obtain f where f: "f \<in> set os" "e = snd f" using e unfolding es [symmetric] by auto
    then obtain b where "encode_value mc lim (Suc depth) (snd e) = Inr b"
      using encode_entries_each [OF body, of f] by auto
    moreover have "(fst e, snd e) \<in> set es" using e by simp
    ultimately show ?thesis
      using JObject.IH [of "fst e" "snd e" "Suc depth" b] f os by (simp add: order_entries_ok)
  qed
  with JObject.prems show ?case by (simp add: encode_value_cases profile_ok)
qed (auto simp: encode_value_cases profile_ok)

section \<open>Decoding inverts encoding\<close>

lemma fits_word: "\<not> exceeds n (limit :: usize) \<Longrightarrow> unat (of_nat n :: u64) = n \<and> n < 2 ^ 64"
  using unat_u64_less [of limit]
  by (simp add: exceeds_def unat_of_nat)

lemma key_slice_written:
  "remaining d = k @ r \<Longrightarrow> key_slice (advance (length k) d) (d_pos d) (d_pos (advance (length k) d)) = k"
  by (simp add: key_slice_def remaining_slice)

text \<open>The entries the encoder writes, in the order it writes them.\<close>

definition entries_written :: "minicbor \<Rightarrow> cbor_limits \<Rightarrow> (bytes \<times> str \<times> json) list \<Rightarrow> bool" where
  "entries_written mc lim os \<longleftrightarrow>
     (\<forall>e \<in> set os. me_str mc (fst (snd e)) = Inr (fst e) \<and> valid_utf8 (fst (snd e))
        \<and> \<not> exceeds (length (fst (snd e))) (max_string_bytes lim) \<and> wf_json (snd (snd e)))"

context cbor_data_items
begin

text \<open>Distinct keys have distinct encodings; sorting keeps what is known of the entries.\<close>

lemma entries_written_distinct:
  assumes "entries_written mc lim os" and "distinct (map (\<lambda>e. fst (snd e)) os)"
  shows "distinct (map fst os)"
  using assms
proof (induction os)
  case (Cons e os)
  have "fst e \<noteq> fst f" if f: "f \<in> set os" for f
  proof
    assume eq: "fst e = fst f"
    have "fst (snd e) = fst (snd f)"
      using Cons.prems(1) f eq
        fits_word [of "length (fst (snd e))" "max_string_bytes lim"]
        fits_word [of "length (fst (snd f))" "max_string_bytes lim"]
      by (intro me_str_inject [of _ "fst f"]) (auto simp: entries_written_def)
    with Cons.prems(2) f show False by force
  qed
  with Cons show ?case by (auto simp: entries_written_def)
qed simp

lemma entries_written_sorted: "entries_written mc lim (sort_by c os) = entries_written mc lim os"
  by (simp add: entries_written_def)

lemma distinct_sorted_keys: "distinct (map f (sort_by c os)) = distinct (map f os)"
  by (metis mset_eq_imp_distinct_iff mset_map mset_sort_by)

lemma decode_encode_aux:
  shows "encode_value mc' lim depth v = Inr bs \<Longrightarrow> mc' = mc \<Longrightarrow> wf_json v \<Longrightarrow>
      remaining d = bs @ r \<Longrightarrow>
      decode_value mc lim depth d = Inr (v, advance (length bs) d)"
    and "encode_items mc' lim depth vs = Inr bs \<Longrightarrow> mc' = mc \<Longrightarrow> \<forall>v \<in> set vs. wf_json v \<Longrightarrow>
      remaining d = bs @ r \<Longrightarrow> depth = Suc depth' \<Longrightarrow>
      decode_items mc lim depth' (length vs) items d = Inr (items @ vs, advance (length bs) d)"
    and "encode_entries mc' lim depth os = Inr bs \<Longrightarrow> mc' = mc \<Longrightarrow> entries_written mc lim os \<Longrightarrow>
      ascending prev (map fst os) \<Longrightarrow> distinct (map (\<lambda>e. fst (snd e)) os) \<Longrightarrow>
      seen \<inter> (\<lambda>e. fst (snd e)) ` set os = {} \<Longrightarrow> remaining d = bs @ r \<Longrightarrow> depth = Suc depth' \<Longrightarrow>
      decode_entries mc lim depth' (length os) entries seen prev d
        = Inr (insert_all (map snd os) entries, advance (length bs) d)"
proof (induction mc' lim depth v and mc' lim depth vs and mc' lim depth os
    arbitrary: bs d r and bs d r depth' items and bs d r depth' prev seen entries
    rule: encode_value_encode_items_encode_entries.induct)
  case (1 mc' lim depth v)
  show ?case
  proof (cases v)
    case JNull
    with "1.prems" show ?thesis by (simp add: encode_value_cases)
  next
    case (JBool b)
    with "1.prems" show ?thesis
      by (auto simp: encode_value_cases decode_value_ok dest: read_bool)
  next
    case (JNumber n)
    with "1.prems" consider u where "me_u64 mc u = Inr bs" "n = number_from_u64 u"
      | i where "me_i64 mc i = Inr bs" "n = number_from_i64 i" "sint i < 0"
      by (auto simp: encode_value_cases as_u64_Some as_i64_Some as_u64_from_i64 split: if_splits)
    then show ?thesis
    proof cases
      case 1
      with JNumber "1.prems" show ?thesis
        using read_u64 [OF 1(1) "1.prems"(4)]
        by (auto simp: encode_value_cases decode_value_ok validate_number_from)
    next
      case 2
      with JNumber "1.prems" show ?thesis
        using read_negative [OF 2(1,3) "1.prems"(4)]
        by (auto simp: encode_value_cases decode_value_ok validate_number_from)
    qed
  next
    case (JString s)
    with "1.prems" show ?thesis
      using read_str [of s bs d r] fits_word [of "length s" "max_string_bytes lim"]
      by (auto simp: encode_value_cases decode_value_ok)
  next
    case (JArray vs)
    with "1.prems" obtain h body where lv: "\<not> exceeds depth (max_depth lim)"
      and len: "\<not> exceeds (length vs) (max_array_items lim)"
      and h: "me_array mc (of_nat (length vs)) = Inr h"
      and body: "encode_items mc lim (Suc depth) vs = Inr body" and bs: "bs = h @ body"
      by (auto simp: encode_value_cases)
    have head: "mc_datatype mc d = Inr T_Array"
      "mc_array mc d = Inr (Some (of_nat (length vs)), advance (length h) d)"
      using read_array [OF h, of d "body @ r"] "1.prems"(4) bs by simp_all
    have "decode_items mc lim depth (length vs) [] (advance (length h) d)
        = Inr ([] @ vs, advance (length body) (advance (length h) d))"
      using "1.IH"(1) [of vs, OF lv JArray len, of h body "advance (length h) d" r depth "[]"]
        JArray "1.prems" h body bs by simp
    then show ?thesis
      unfolding decode_value_ok decode_array_ok using lv head len fits_word [OF len] JArray bs
      by simp
  next
    case (JObject es)
    let ?sort = "sort_by (\<lambda>l r. compare_encoded_keys (fst l) (fst r))"
    from JObject "1.prems" obtain os h body where lv: "\<not> exceeds depth (max_depth lim)"
      and len: "\<not> exceeds (length es) (max_map_pairs lim)"
      and os: "order_entries mc lim es = Inr os"
      and h: "me_map mc (of_nat (length os)) = Inr h"
      and body: "encode_entries mc lim (Suc depth) (?sort os) = Inr body" and bs: "bs = h @ body"
      by (auto simp: encode_value_cases)
    have es: "map snd os = es" using os by (simp add: order_entries_ok)
    then have n: "length os = length es" by auto
    have wf: "sorted_map es" "\<forall>e \<in> set es. valid_utf8 (fst e) \<and> wf_json (snd e)"
      using JObject "1.prems"(3) by simp_all
    have written: "entries_written mc lim os"
      using os wf(2) unfolding es [symmetric] by (auto simp: order_entries_ok entries_written_def)
    have keys: "distinct (map (\<lambda>e. fst (snd e)) os)"
      using sorted_map_distinct [OF wf(1)] unfolding es [symmetric] by (simp add: comp_def)
    then have enc: "distinct (map fst os)"
      by (rule entries_written_distinct [OF written])
    have "decode_entries mc lim depth (length (?sort os)) [] {} None (advance (length h) d)
        = Inr (insert_all (map snd (?sort os)) [],
               advance (length body) (advance (length h) d))"
      using "1.IH"(2) [of es, OF lv JObject len, of os "?sort os" h body
          None "{}" "advance (length h) d" r depth "[]"]
        "1.prems" os h body bs written keys ascending_sort [OF enc]
      by (simp add: entries_written_sorted distinct_sorted_keys)
    moreover have "insert_all (map snd (?sort os)) [] = es"
      using wf(1) by (intro insert_all_permuted) (simp_all add: es [symmetric])
    moreover have "mc_datatype mc d = Inr T_Map"
      "mc_map mc d = Inr (Some (of_nat (length es)), advance (length h) d)"
      using read_map [OF h, of d "body @ r"] "1.prems"(4) bs n by simp_all
    ultimately show ?thesis
      unfolding decode_value_ok decode_map_ok using lv len fits_word [OF len] JObject bs n
      by simp
  qed
next
  case (2 mc' lim depth)
  then show ?case by (simp add: decode_items_ok)
next
  case (3 mc' lim depth item vs)
  then obtain b bs' where b: "encode_value mc lim depth item = Inr b"
    and bs': "encode_items mc lim depth vs = Inr bs'" and bs: "bs = b @ bs'"
    by (auto simp: result_iff)
  have "decode_value mc lim (Suc depth') d = Inr (item, advance (length b) d)"
    using "3.IH"(1) [of b d "bs' @ r"] 3 b bs by simp
  moreover have "decode_items mc lim depth' (length vs) (items @ [item]) (advance (length b) d)
      = Inr ((items @ [item]) @ vs, advance (length bs') (advance (length b) d))"
    using "3.IH"(2) [OF _ _ "3.prems"(2), of b bs' "advance (length b) d" r depth'] 3 b bs' bs
    by simp
  ultimately show ?case by (simp add: decode_items_ok bs)
next
  case (4 mc' lim depth)
  then show ?case by (simp add: decode_entries_ok)
next
  case (5 mc' lim depth e key item os)
  then obtain k b bs' where k: "me_str mc key = Inr k"
    and b: "encode_value mc lim depth item = Inr b"
    and bs': "encode_entries mc lim depth os = Inr bs'" and bs: "bs = k @ b @ bs'"
    by (auto simp: result_iff)
  have e: "e = k" "valid_utf8 key" "\<not> exceeds (length key) (max_string_bytes lim)" "wf_json item"
    and w: "entries_written mc lim os"
    using "5.prems"(3) k by (auto simp: entries_written_def)
  have str: "mc_datatype mc d = Inr T_String" "mc_str mc d = Inr (key, advance (length k) d)"
    using read_str [OF k e(2), of d "b @ bs' @ r"] fits_word [OF e(3)] "5.prems"(7) bs by simp_all
  have slice: "key_slice (advance (length k) d) (d_pos d) (d_pos (advance (length k) d)) = k"
    using "5.prems"(7) bs by (intro key_slice_written) simp
  have "decode_value mc lim (Suc depth') (advance (length k) d)
      = Inr (item, advance (length b) (advance (length k) d))"
    using "5.IH"(1) [of k b "advance (length k) d" "bs' @ r"] 5 k b bs e by simp
  moreover have "decode_entries mc lim depth' (length os) (map_insert key item entries)
      (insert key seen) (Some k) (advance (length b) (advance (length k) d))
      = Inr (insert_all (map snd os) (map_insert key item entries),
             advance (length bs') (advance (length b) (advance (length k) d)))"
    using "5.IH"(2) [of k b bs' "Some k" "insert key seen"
        "advance (length b) (advance (length k) d)" r depth' "map_insert key item entries"] 5 k b bs' bs e w
    by (simp add: image_iff)
  ultimately show ?case
    using e str slice "5.prems"(4,6) bs
    by (simp add: decode_entries_ok add.assoc)
qed

lemmas decode_encode_value = decode_encode_aux(1) [OF _ refl]

lemma encode_not_empty: "encode_value mc lim depth v = Inr bs \<Longrightarrow> wf_json v \<Longrightarrow> bs \<noteq> []"
  using decode_encode_value [of lim depth v bs "decoder_new bs" "[]"]
  by (auto simp: decode_value_ok dest: datatype_not_empty)

text \<open>
  On the wire a value is self-delimiting, and different values have different bytes, none of
  them a proper prefix of another's.
\<close>

lemma encode_prefix_free:
  assumes "encode_value mc lim depth v = Inr bs" and "encode_value mc lim depth w = Inr cs"
    and "wf_json v" and "wf_json w" and "bs @ r = cs @ q"
  shows "v = w \<and> r = q"
proof -
  have "v = w"
    using decode_encode_value [OF assms(1,3), of "decoder_new (bs @ r)" r]
      decode_encode_value [OF assms(2,4), of "decoder_new (bs @ r)" q] assms(5) by simp
  with assms show ?thesis by simp
qed

section \<open>The encoder succeeds exactly on the profile\<close>

lemma encode_items_total:
  "\<forall>v \<in> set vs. is_ok (encode_value mc lim depth v) \<Longrightarrow> is_ok (encode_items mc lim depth vs)"
  by (induction vs) (auto simp: is_ok_iff)

lemma encode_entries_total:
  "\<forall>e \<in> set os. is_ok (encode_value mc lim depth (snd (snd e))) \<Longrightarrow>
   is_ok (encode_entries mc lim depth os)"
proof (induction os)
  case (Cons e os)
  obtain b k v where e: "e = (b, k, v)" by (cases e)
  obtain kb where "me_str mc k = Inr kb" using write_str [of k] by (auto simp: is_ok_iff)
  with Cons e show ?case by (auto simp: is_ok_iff)
qed simp

lemma order_entries_total:
  assumes "\<forall>e \<in> set es. \<not> exceeds (length (fst e)) (max_string_bytes lim)"
  shows "is_ok (order_entries mc lim es)"
  using assms
proof (induction es)
  case (Cons e es)
  obtain k v where e: "e = (k, v)" by (cases e)
  obtain kb where "me_str mc k = Inr kb" using write_str [of k] by (auto simp: is_ok_iff)
  with Cons e show ?case by (auto simp: is_ok_iff encoded_text_key_def)
qed simp

lemma encode_value_total:
  "validate_value_profile v lim depth = Inr () \<Longrightarrow> is_ok (encode_value mc lim depth v)"
proof (induction v arbitrary: depth)
  case (JNumber n)
  then have "safe_number n" by (simp add: profile_ok validate_number_ok)
  then have "as_u64 n = None \<Longrightarrow> \<exists>i. as_i64 n = Some i"
    by (cases n) (auto simp: safe_number_def split: if_splits)
  with JNumber show ?case
    using write_u64 write_i64 by (cases "as_u64 n") (auto simp: is_ok_iff encode_value_cases profile_ok)
next
  case (JArray vs)
  then have "is_ok (encode_items mc lim (Suc depth) vs)"
    by (intro encode_items_total) (simp add: profile_ok)
  with JArray.prems show ?case
    using write_array by (auto simp: is_ok_iff encode_value_cases profile_ok)
next
  case (JObject es)
  then obtain os where os: "order_entries mc lim es = Inr os"
    using order_entries_total [of es lim] by (auto simp: profile_ok is_ok_iff)
  then have "map snd os = es" by (simp add: order_entries_ok)
  then have "is_ok (encode_value mc lim (Suc depth) (snd (snd e)))" if "e \<in> set os" for e
    using JObject that by (cases e) (force simp: profile_ok)
  then have "is_ok (encode_entries mc lim (Suc depth)
      (sort_by (\<lambda>l r. compare_encoded_keys (fst l) (fst r)) os))"
    by (intro encode_entries_total) simp
  with JObject.prems os show ?case
    using write_map by (auto simp: is_ok_iff encode_value_cases profile_ok)
qed (use write_bool write_str in \<open>auto simp: is_ok_iff encode_value_cases profile_ok\<close>)

end

end
