(* ===== verification/Manifest_Value.thy ===== *)
theory Manifest_Value
  imports Cbor_Laws
begin

text \<open>
  The value the codec writes for a manifest: what \<open>manifest_to_value\<close> makes of the derived
  serialisation is the object without its absent options.  The interface \<open>manifest_codec\<close>
  joins the laws of the CBOR library and of the derived code.
\<close>

section \<open>Manifests as Rust values\<close>

text \<open>The type invariant of a manifest: its texts are UTF-8, its identity is a JSON value.\<close>

definition option_ok :: "('a \<Rightarrow> bool) \<Rightarrow> 'a option \<Rightarrow> bool" where
  "option_ok p v = (case v of None \<Rightarrow> True | Some x \<Rightarrow> p x)"

definition wf_key :: "key_descriptor \<Rightarrow> bool" where
  "wf_key k \<longleftrightarrow> list_all valid_utf8
     ([algorithm k, key_id k, public_key_uri k, public_key_sha256 k, status k] @ usage k)"

definition wf_artifact :: "artifact \<Rightarrow> bool" where
  "wf_artifact a \<longleftrightarrow> list_all valid_utf8 [uri a, media_type a, sha512 a]"

definition wf_manifest :: "manifest \<Rightarrow> bool" where
  "wf_manifest m \<longleftrightarrow>
     list_all valid_utf8 [tfws_version m, subject m, environment m, updated_at m,
       name (operator_of m), policy_id (policy_of m)]
     \<and> list_all valid_utf8 (required_algorithms (policy_of m))
     \<and> list_all valid_utf8 (required (capabilities_of m))
     \<and> list_all valid_utf8 (optional (capabilities_of m))
     \<and> list_all wf_key (keys m) \<and> list_all wf_artifact (artifacts m)
     \<and> option_ok valid_utf8 (jurisdiction (operator_of m))
     \<and> option_ok valid_utf8 (expires_at m)
     \<and> option_ok wf_json (identity m)"

definition field_ok :: "str \<times> json \<Rightarrow> bool" where
  "field_ok e \<longleftrightarrow> valid_utf8 (fst e) \<and> wf_json (snd e)"

lemma set_insert_all: "set (insert_all es m) \<subseteq> set es \<union> set m"
proof (induction es arbitrary: m)
  case (Cons e es)
  obtain k v where "e = (k, v)" by (cases e)
  with Cons [of "map_insert k v m"] set_map_insert [of k v m] show ?case by auto
qed simp

lemma wf_object_of: "list_all field_ok fs \<Longrightarrow> wf_json (object_of fs)"
  using set_insert_all [of fs "[]"]
  by (auto simp: object_of_def sorted_insert_all list_all_iff field_ok_def)

lemma list_all_present: "list_all p fs \<Longrightarrow> list_all p (present fs)"
  by (auto simp: present_def list_all_iff)

lemma wf_strings_value: "list_all valid_utf8 ss \<Longrightarrow> wf_json (strings_value ss)"
  by (auto simp: strings_value_def list_all_iff)

lemma wf_option_value:
  "option_ok p v \<Longrightarrow> (\<And>x. p x \<Longrightarrow> wf_json (f x)) \<Longrightarrow> wf_json (option_value f v)"
  by (cases v) (simp_all add: option_value_def option_ok_def)

lemma wf_key_value: "wf_key k \<Longrightarrow> wf_json (key_value k)"
  unfolding key_value_def
  by (rule wf_object_of) (simp add: wf_key_def field_ok_def ascii_def wf_strings_value)

lemma wf_artifact_value: "wf_artifact a \<Longrightarrow> wf_json (artifact_value a)"
  unfolding artifact_value_def
  by (rule wf_object_of) (simp add: wf_artifact_def field_ok_def ascii_def)

lemma wf_policy_value:
  "valid_utf8 (policy_id p) \<Longrightarrow> list_all valid_utf8 (required_algorithms p) \<Longrightarrow>
   wf_json (policy_value p)"
  unfolding policy_value_def
  by (rule wf_object_of) (simp add: field_ok_def ascii_def wf_strings_value)

lemma wf_capabilities_value:
  "list_all valid_utf8 (required c) \<Longrightarrow> list_all valid_utf8 (optional c) \<Longrightarrow>
   wf_json (capabilities_value c)"
  unfolding capabilities_value_def
  by (rule wf_object_of) (simp add: field_ok_def ascii_def wf_strings_value)

lemma wf_compact_operator_value:
  "valid_utf8 (name o') \<Longrightarrow> option_ok valid_utf8 (jurisdiction o') \<Longrightarrow>
   wf_json (compact_operator_value o')"
  unfolding compact_operator_value_def
  by (intro wf_object_of list_all_present)
    (auto simp: field_ok_def ascii_def intro: wf_option_value)

lemma wf_compact_manifest_value:
  assumes "wf_manifest m"
  shows "wf_json (compact_manifest_value m)"
  unfolding compact_manifest_value_def
proof (intro wf_object_of list_all_present)
  have "\<forall>k \<in> set (keys m). wf_json (key_value k)" "\<forall>a \<in> set (artifacts m). wf_json (artifact_value a)"
    using assms by (auto simp: wf_manifest_def list_all_iff wf_key_value wf_artifact_value)
  moreover have "wf_json (option_value id (identity m))"
      "wf_json (option_value JString (expires_at m))"
    using assms by (auto simp: wf_manifest_def intro: wf_option_value)
  ultimately show "list_all field_ok (manifest_fields (compact_operator_value (operator_of m)) m)"
    using assms
    by (simp add: wf_manifest_def manifest_fields_def field_ok_def ascii_def
        wf_policy_value wf_capabilities_value wf_compact_operator_value)
qed

section \<open>The value written\<close>

lemma operator_compacted:
  "JObject (map_remove ''jurisdiction'' (insert_all
     [(''name'', JString (name o')), (''jurisdiction'', option_value JString None)] []))
   = compact_operator_value \<lparr>name = name o', jurisdiction = None\<rparr>"
  by (simp add: compact_operator_value_def object_of_def present_def option_value_def map_remove_def)

lemma operator_value_present:
  "jurisdiction o' \<noteq> None \<Longrightarrow> operator_value o' = compact_operator_value o'"
  by (auto simp: operator_value_def compact_operator_value_def present_def option_value_def)

text \<open>Reading the root object under every name, before and after the removals.\<close>

lemma manifest_get:
  "map_get k (insert_all (manifest_fields j m) []) = map_of (manifest_fields j m) k"
  by (simp add: map_get_insert_all_Nil manifest_fields_names distinct_manifest_field_names)

lemma manifest_fields_other:
  "k \<noteq> ''operator'' \<Longrightarrow> map_of (manifest_fields j m) k = map_of (manifest_fields j' m) k"
  by (simp add: manifest_fields_def)

lemma manifest_fields_null:
  assumes "identity m \<noteq> Some JNull" and "j \<noteq> JNull"
  shows "map_of (manifest_fields j m) k = Some JNull \<longleftrightarrow>
     k = ''identity'' \<and> identity m = None \<or> k = ''expires_at'' \<and> expires_at m = None"
  using assms
  by (auto simp: manifest_fields_def option_value_def split: option.splits)

definition pruned_root :: "manifest \<Rightarrow> (str \<times> json) list" where
  "pruned_root m =
     remove_if_none (expires_at m) ''expires_at''
       (remove_if_none (identity m) ''identity''
         (insert_all (manifest_fields (operator_value (operator_of m)) m) []))"

lemma pruned_root_sorted: "sorted_map (pruned_root m)"
  by (simp add: pruned_root_def remove_if_none_def sorted_map_remove sorted_insert_all)

lemma pruned_root_get:
  "map_get k (pruned_root m) =
     (if k = ''identity'' \<and> identity m = None \<or> k = ''expires_at'' \<and> expires_at m = None
      then None else map_of (manifest_fields (operator_value (operator_of m)) m) k)"
  by (simp add: pruned_root_def remove_if_none_def map_get_remove manifest_get)

lemma operator_of_pruned:
  "map_get ''operator'' (pruned_root m) = Some (operator_value (operator_of m))"
  by (simp add: pruned_root_get manifest_fields_lookup)

definition compact_root :: "manifest \<Rightarrow> (str \<times> json) list" where
  "compact_root m =
     insert_all (present (manifest_fields (compact_operator_value (operator_of m)) m)) []"

lemma compact_root_value: "compact_manifest_value m = JObject (compact_root m)"
  by (simp add: compact_manifest_value_def compact_root_def object_of_def)

lemma pruned_with_operator:
  assumes "identity m \<noteq> Some JNull"
  shows "map_insert ''operator'' (compact_operator_value (operator_of m)) (pruned_root m)
    = compact_root m"
proof (rule sorted_map_eqI)
  show "sorted_map (map_insert ''operator'' (compact_operator_value (operator_of m)) (pruned_root m))"
    by (intro sorted_map_insert pruned_root_sorted)
  show "sorted_map (compact_root m)" by (simp add: compact_root_def sorted_insert_all)
next
  fix k
  let ?j = "compact_operator_value (operator_of m)"
  have other: "map_of (manifest_fields (operator_value (operator_of m)) m) k
      = map_of (manifest_fields ?j m) k" if "k \<noteq> ''operator''"
    using that by (rule manifest_fields_other)
  show "map_get k (map_insert ''operator'' ?j (pruned_root m)) = map_get k (compact_root m)"
  proof (cases "k = ''operator''")
    case True
    then show ?thesis
      by (simp add: map_get_insert compact_root_def compact_lookup)
  next
    case False
    let ?f = "map_of (manifest_fields ?j m) k"
    have null: "?f = Some JNull \<longleftrightarrow>
        k = ''identity'' \<and> identity m = None \<or> k = ''expires_at'' \<and> expires_at m = None"
      by (rule manifest_fields_null [OF assms compact_operator_not_null])
    have "map_get k (map_insert ''operator'' ?j (pruned_root m))
        = (if ?f = Some JNull then None else ?f)"
      unfolding map_get_insert pruned_root_get null other [OF False] using False by (simp only: if_False)
    also have "\<dots> = map_get k (compact_root m)"
      unfolding compact_root_def compact_manifest_get by (simp split: option.split)
    finally show ?thesis .
  qed
qed

lemma remove_jurisdiction_compact:
  assumes "identity m \<noteq> Some JNull"
  shows "remove_jurisdiction m (pruned_root m) = Inr (compact_root m)"
proof (cases "jurisdiction (operator_of m) = None")
  case True
  obtain es where es: "operator_value (operator_of m) = JObject es"
    by (simp add: operator_value_def object_of_def)
  have "compact_operator_value \<lparr>name = name (operator_of m), jurisdiction = None\<rparr>
      = compact_operator_value (operator_of m)"
    using True by (simp add: compact_operator_value_def)
  then have "JObject (map_remove ''jurisdiction'' es) = compact_operator_value (operator_of m)"
    using operator_compacted [of "operator_of m"] es True
    by (simp add: operator_value_def object_of_def option_value_def)
  then show ?thesis
    using True es assms
    by (simp add: remove_jurisdiction_def operator_of_pruned as_object_def pruned_with_operator)
next
  case False
  have "map_insert ''operator'' (operator_value (operator_of m)) (pruned_root m) = pruned_root m"
    by (rule bmap.insert_get) (simp_all add: pruned_root_sorted operator_of_pruned)
  then have "pruned_root m = compact_root m"
    using pruned_with_operator [OF assms] operator_value_present [OF False] by simp
  with False show ?thesis
    by (auto simp: remove_jurisdiction_def)
qed

section \<open>The interface of the manifest codec\<close>

lemma check_identity_ok: "check_identity m = Inr u \<longleftrightarrow> option_ok is_object (identity m)"
  by (auto simp: check_identity_def option_ok_def split: option.splits)

lemma object_identity: "option_ok is_object (identity m) \<Longrightarrow> identity m \<noteq> Some JNull"
  by (auto simp: option_ok_def is_object_def)

lemma check_policy_ok: "check_policy cr m = Inr u \<longleftrightarrow> validate cr m = Inr ()"
  by (auto simp: check_policy_def result_iff)

locale manifest_codec =
  cbor_data_items mc + serde_manifest "to_value cr" "from_value cr"
  for mc :: minicbor and cr :: crates
begin

lemma manifest_to_value_ok:
  "manifest_to_value cr m lim = Inr v \<longleftrightarrow>
     validate cr m = Inr () \<and> option_ok is_object (identity m)
     \<and> v = compact_manifest_value m
     \<and> validate_value_profile (compact_manifest_value m) lim 0 = Inr ()"
proof (cases "option_ok is_object (identity m)")
  case True
  have "as_object (manifest_value m)
      = Some (insert_all (manifest_fields (operator_value (operator_of m)) m) [])"
    by (simp add: manifest_value_def object_of_def as_object_def)
  then show ?thesis
    using True remove_jurisdiction_compact [OF object_identity [OF True]]
    unfolding pruned_root_def
    by (auto simp: manifest_to_value_def result_iff check_policy_ok check_identity_ok
        to_value_derived compact_root_value)
next
  case False
  then show ?thesis by (simp add: manifest_to_value_def result_iff check_identity_ok)
qed

text \<open>
  Acceptance, completely: the bytes are the deterministic encoding of a value in the
  profile, short enough, which the derived code reads as a manifest that meets the policy.
\<close>

lemma decode_manifest_ok:
  "decode_manifest_cbor mc cr inp lim = Inr m \<longleftrightarrow>
     (\<exists>v. wf_json v \<and> encode_value mc lim 0 v = Inr inp
        \<and> \<not> exceeds (length inp) (max_manifest_bytes lim)
        \<and> from_value cr v = Inr m \<and> option_ok is_object (identity m) \<and> validate cr m = Inr ())"
  (is "?l \<longleftrightarrow> ?r")
proof
  assume ?l
  then obtain v d where v: "decode_value mc lim 0 (decoder_new inp) = Inr (v, d)"
    and rest: "encode_value_to_vec mc v lim = Inr inp"
      "\<not> exceeds (length inp) (max_manifest_bytes lim)" "from_value cr v = Inr m"
      "option_ok is_object (identity m)" "validate cr m = Inr ()"
    by (auto simp: decode_manifest_cbor_def result_iff check_identity_ok check_policy_ok)
  have "wf_json v"
    using decode_sound(1) [OF str_is_utf8 v] by (simp add: wf_json_def)
  with rest show ?r by (auto simp: encode_value_to_vec_def result_iff)
next
  assume ?r
  then obtain v where v: "wf_json v" "encode_value mc lim 0 v = Inr inp"
    and rest: "\<not> exceeds (length inp) (max_manifest_bytes lim)" "from_value cr v = Inr m"
      "option_ok is_object (identity m)" "validate cr m = Inr ()"
    by blast
  have "decode_value mc lim 0 (decoder_new inp) = Inr (v, advance (length inp) (decoder_new inp))"
    using decode_encode_value [OF v(2,1), of _ "[]"] by simp
  with v rest encode_not_empty [OF v(2,1)] encode_value_profile [OF v(2)] show ?l
    by (simp add: decode_manifest_cbor_def encode_value_to_vec_def check_identity_ok
        check_policy_ok result_iff)
qed

lemma encode_manifest_ok:
  "encode_manifest_cbor_with_limits mc cr m lim = Inr bs \<longleftrightarrow>
     validate cr m = Inr () \<and> option_ok is_object (identity m)
     \<and> encode_value mc lim 0 (compact_manifest_value m) = Inr bs
     \<and> \<not> exceeds (length bs) (max_manifest_bytes lim)"
  by (auto simp: encode_manifest_cbor_with_limits_def result_iff manifest_to_value_ok
      encode_value_to_vec_def dest: encode_value_profile)

lemma manifest_round_trip:
  assumes "encode_manifest_cbor_with_limits mc cr m lim = Inr bs" and "wf_manifest m"
  shows "decode_manifest_cbor mc cr bs lim = Inr m"
  using assms from_value_compact [OF object_identity]
  unfolding decode_manifest_ok encode_manifest_ok
  by (auto intro!: exI [of _ "compact_manifest_value m"] wf_compact_manifest_value)

end

end
