(* ===== verification/Cose.thy ===== *)
theory Cose
  imports Cbor
begin

text \<open>
  \<open>crates/tfws-core/src/cose.rs\<close>: the hybrid \<open>COSE_Sign\<close> envelope around a manifest, its
  parser, its signing and its verification.  The CBOR library is the argument \<open>mc\<close>; the
  cryptographic provider behind the traits \<open>CoseSigner\<close> and \<open>CoseVerifier\<close> is a function.
\<close>

section \<open>Constants, algorithms and errors\<close>

definition COSE_SIGN_TAG :: u64 where
  "COSE_SIGN_TAG = 98"

definition COSE_CONTENT_TYPE :: str where
  "COSE_CONTENT_TYPE = ''application/tfws+cbor''"

definition COSE_TYPE :: str where
  \<open>COSE_TYPE = ''application/cose; cose-type="cose-sign"''\<close>

definition ED25519_COSE_ALGORITHM :: i64 where
  "ED25519_COSE_ALGORITHM = - 19"

definition ML_DSA_65_COSE_ALGORITHM :: i64 where
  "ML_DSA_65_COSE_ALGORITHM = - 49"

definition ED25519_SIGNATURE_BYTES :: nat where
  "ED25519_SIGNATURE_BYTES = 64"

definition ML_DSA_65_SIGNATURE_BYTES :: nat where
  "ML_DSA_65_SIGNATURE_BYTES = 3309"

record cose_limits =
  max_envelope_bytes :: usize
  cbor :: cbor_limits

definition default_cose_limits :: cose_limits where
  "default_cose_limits = \<lparr>max_envelope_bytes = 8 * 1024 * 1024, cbor = default_limits\<rparr>"

datatype cose_algorithm = Ed25519 | MlDsa65

fun cose_value :: "cose_algorithm \<Rightarrow> i64" where
  "cose_value Ed25519 = ED25519_COSE_ALGORITHM"
| "cose_value MlDsa65 = ML_DSA_65_COSE_ALGORITHM"

fun tfws_identifier :: "cose_algorithm \<Rightarrow> str" where
  "tfws_identifier Ed25519 = ''ed25519''"
| "tfws_identifier MlDsa65 = ''ml-dsa-65''"

fun expected_signature_len :: "cose_algorithm \<Rightarrow> nat" where
  "expected_signature_len Ed25519 = ED25519_SIGNATURE_BYTES"
| "expected_signature_len MlDsa65 = ML_DSA_65_SIGNATURE_BYTES"

definition REQUIRED_SIGNATURES :: "cose_algorithm list" where
  "REQUIRED_SIGNATURES = [Ed25519, MlDsa65]"

datatype cose_crypto_error =
    KeyBindingMismatch
  | SignatureInvalid
  | OperationFailed str

text \<open>
  Names the two error types share are qualified with their type, as in the source
  (\<open>CoseEnvelopeError::MalformedCbor\<close> beside \<open>CborCodecError::MalformedCbor\<close>).
\<close>

datatype cose_envelope_error =
    ManifestCbor cbor_error
  | MalformedCbor str
  | NonDeterministicCbor
  | ResourceLimit str
  | InvalidCoseStructure str
  | UnsupportedHeader
  | InvalidContentType
  | InvalidType
  | InvalidAlgorithm
  | InvalidKid
  | HybridBaselineIncomplete
  | KeyBindingMismatch
  | SignatureInvalid
  | ManifestPolicyInvalid str
  | EncodeFailure str
  | CryptoOperation str

fun cose_category :: "cose_envelope_error \<Rightarrow> str" where
  "cose_category (ManifestCbor e) = cbor_category e"
| "cose_category (MalformedCbor _) = ''malformed_cbor''"
| "cose_category (EncodeFailure _) = ''malformed_cbor''"
| "cose_category NonDeterministicCbor = ''non_deterministic_cbor''"
| "cose_category (ResourceLimit _) = ''resource_limit''"
| "cose_category (InvalidCoseStructure _) = ''invalid_cose_structure''"
| "cose_category UnsupportedHeader = ''unsupported_header''"
| "cose_category InvalidContentType = ''invalid_content_type''"
| "cose_category InvalidType = ''invalid_type''"
| "cose_category InvalidAlgorithm = ''invalid_algorithm''"
| "cose_category InvalidKid = ''invalid_kid''"
| "cose_category HybridBaselineIncomplete = ''hybrid_baseline_incomplete''"
| "cose_category KeyBindingMismatch = ''key_binding_mismatch''"
| "cose_category SignatureInvalid = ''signature_invalid''"
| "cose_category (CryptoOperation _) = ''signature_invalid''"
| "cose_category (ManifestPolicyInvalid _) = ''manifest_policy_invalid''"

fun map_crypto_error :: "cose_crypto_error \<Rightarrow> cose_envelope_error" where
  "map_crypto_error cose_crypto_error.KeyBindingMismatch = KeyBindingMismatch"
| "map_crypto_error cose_crypto_error.SignatureInvalid = SignatureInvalid"
| "map_crypto_error (OperationFailed message) = CryptoOperation message"

text \<open>The traits: one function each, from the arguments of the trait's method.\<close>

type_synonym cose_signer =
  "cose_algorithm \<Rightarrow> key_descriptor \<Rightarrow> bytes \<Rightarrow> cose_crypto_error + bytes"

type_synonym cose_verifier =
  "cose_algorithm \<Rightarrow> key_descriptor \<Rightarrow> bytes \<Rightarrow> bytes \<Rightarrow> cose_crypto_error + unit"

record encoded_signature =
  es_protected :: bytes
  es_signature :: bytes

record parsed_signature =
  ps_algorithm :: cose_algorithm
  ps_protected :: bytes
  ps_kid :: bytes
  ps_signature :: bytes

record parsed_envelope =
  body_protected :: bytes
  payload :: bytes
  signatures :: "parsed_signature list"

section \<open>Reading items\<close>

text \<open>\<open>decoder.\<dots>.map_err(malformed_decode_error)\<close>\<close>

definition malformed :: "str + 'a \<Rightarrow> cose_envelope_error + 'a" where
  "malformed = map_err MalformedCbor"

definition expect_array ::
  "minicbor \<Rightarrow> u64 \<Rightarrow> str \<Rightarrow> decoder \<Rightarrow> cose_envelope_error + decoder" where
  "expect_array mc expected nm d =
     and_then (malformed (mc_datatype mc d)) (\<lambda>t.
       if t = T_Array then
         and_then (malformed (mc_array mc d)) (\<lambda>(len, d').
         and_then (ok_or NonDeterministicCbor len) (\<lambda>n.
           if n \<noteq> expected then Inl (InvalidCoseStructure nm) else Inr d'))
       else if t = T_ArrayIndef then Inl NonDeterministicCbor
       else Inl (InvalidCoseStructure nm))"

definition read_map_length ::
  "minicbor \<Rightarrow> str \<Rightarrow> decoder \<Rightarrow> cose_envelope_error + u64 \<times> decoder" where
  "read_map_length mc nm d =
     and_then (malformed (mc_datatype mc d)) (\<lambda>t.
       if t = T_Map then
         and_then (malformed (mc_map mc d)) (\<lambda>(len, d').
         and_then (ok_or NonDeterministicCbor len) (\<lambda>n. Inr (n, d')))
       else if t = T_MapIndef then Inl NonDeterministicCbor
       else Inl (InvalidCoseStructure nm))"

definition expect_empty_map ::
  "minicbor \<Rightarrow> str \<Rightarrow> decoder \<Rightarrow> cose_envelope_error + decoder" where
  "expect_empty_map mc nm d =
     and_then (read_map_length mc nm d) (\<lambda>(n, d').
       if n \<noteq> 0 then Inl UnsupportedHeader else Inr d')"

definition read_bytes ::
  "minicbor \<Rightarrow> usize \<Rightarrow> str \<Rightarrow> decoder \<Rightarrow> cose_envelope_error + bytes \<times> decoder" where
  "read_bytes mc maximum nm d =
     and_then (malformed (mc_datatype mc d)) (\<lambda>t.
       if t = T_Bytes then
         and_then (malformed (mc_bytes mc d)) (\<lambda>(bs, d').
           if exceeds (length bs) maximum then Inl (ResourceLimit nm) else Inr (bs, d'))
       else if t = T_BytesIndef then Inl NonDeterministicCbor
       else Inl (InvalidCoseStructure nm))"

definition read_text ::
  "minicbor \<Rightarrow> usize \<Rightarrow> str \<Rightarrow> decoder \<Rightarrow> cose_envelope_error + str \<times> decoder" where
  "read_text mc maximum nm d =
     and_then (malformed (mc_datatype mc d)) (\<lambda>t.
       if t = T_String then
         and_then (malformed (mc_str mc d)) (\<lambda>(s, d').
           if exceeds (length s) maximum then Inl (ResourceLimit nm) else Inr (s, d'))
       else if t = T_StringIndef then Inl NonDeterministicCbor
       else Inl (InvalidCoseStructure nm))"

definition read_header_label ::
  "minicbor \<Rightarrow> decoder \<Rightarrow> cose_envelope_error + i64 \<times> decoder" where
  "read_header_label mc d = map_err (\<lambda>_. UnsupportedHeader) (mc_i64 mc d)"

section \<open>Writing\<close>

text \<open>A chain of encoder calls, each under \<open>map_err(encode_error)?\<close>, and what they append.\<close>

fun emit :: "(str + bytes) list \<Rightarrow> cose_envelope_error + bytes" where
  "emit [] = Inr []"
| "emit (r # rs) =
     and_then (map_err EncodeFailure r) (\<lambda>b. and_then (emit rs) (\<lambda>bs. Inr (b @ bs)))"

definition encode_body_protected :: "minicbor \<Rightarrow> cose_envelope_error + bytes" where
  "encode_body_protected mc =
     emit [me_map mc 2, me_u8 mc 3, me_str mc COSE_CONTENT_TYPE, me_u8 mc 16,
       me_str mc COSE_TYPE]"

definition encode_signature_protected ::
  "minicbor \<Rightarrow> cose_algorithm \<Rightarrow> bytes \<Rightarrow> cose_envelope_error + bytes" where
  "encode_signature_protected mc alg kid =
     emit [me_map mc 2, me_u8 mc 1, me_i64 mc (cose_value alg), me_u8 mc 4, me_bytes mc kid]"

definition encode_sig_structure ::
  "minicbor \<Rightarrow> bytes \<Rightarrow> bytes \<Rightarrow> bytes \<Rightarrow> cose_envelope_error + bytes" where
  "encode_sig_structure mc body_prot signature_prot payload_bytes =
     emit [me_array mc 5, me_str mc ''Signature'', me_bytes mc body_prot,
       me_bytes mc signature_prot, me_bytes mc [], me_bytes mc payload_bytes]"

fun encode_signatures ::
  "minicbor \<Rightarrow> encoded_signature list \<Rightarrow> cose_envelope_error + bytes" where
  "encode_signatures mc [] = Inr []"
| "encode_signatures mc (s # ss) =
     and_then (emit [me_array mc 3, me_bytes mc (es_protected s), me_map mc 0,
         me_bytes mc (es_signature s)]) (\<lambda>b.
     and_then (encode_signatures mc ss) (\<lambda>bs. Inr (b @ bs)))"

definition encode_envelope ::
  "minicbor \<Rightarrow> bytes \<Rightarrow> bytes \<Rightarrow> encoded_signature list \<Rightarrow> cose_envelope_error + bytes" where
  "encode_envelope mc body_prot payload_bytes sigs =
     (if length sigs \<noteq> length REQUIRED_SIGNATURES then Inl HybridBaselineIncomplete
      else
        and_then (emit [me_array mc 4, me_bytes mc body_prot, me_map mc 0,
            me_bytes mc payload_bytes, me_array mc 2]) (\<lambda>head.
        and_then (encode_signatures mc sigs) (\<lambda>tail.
        Inr ([0xd8, 0x62] @ head @ tail))))"

section \<open>Parsing\<close>

definition validate_fixed_shape_limits :: "cose_limits \<Rightarrow> cose_envelope_error + unit" where
  "validate_fixed_shape_limits limits =
     (if max_depth (cbor limits) < 4 then Inl (ResourceLimit ''nesting depth'')
      else if max_array_items (cbor limits) < 4 then Inl (ResourceLimit ''array items'')
      else if max_map_pairs (cbor limits) < 2 then Inl (ResourceLimit ''map pairs'')
      else Inr ())"

definition validate_signature_length ::
  "cose_algorithm \<Rightarrow> nat \<Rightarrow> cose_envelope_error + unit" where
  "validate_signature_length alg actual =
     (if actual \<noteq> expected_signature_len alg then Inl SignatureInvalid else Inr ())"

definition validate_body_protected ::
  "minicbor \<Rightarrow> bytes \<Rightarrow> cose_limits \<Rightarrow> cose_envelope_error + unit" where
  "validate_body_protected mc inp limits =
     and_then (read_map_length mc ''body protected map'' (decoder_new inp)) (\<lambda>(n, d1).
     if n \<noteq> 2 then Inl UnsupportedHeader else
     and_then (read_header_label mc d1) (\<lambda>(l1, d2).
     if l1 \<noteq> 3 then Inl UnsupportedHeader else
     and_then (read_text mc (max_string_bytes (cbor limits)) ''content type'' d2) (\<lambda>(ct, d3).
     if ct \<noteq> COSE_CONTENT_TYPE then Inl InvalidContentType else
     and_then (read_header_label mc d3) (\<lambda>(l2, d4).
     if l2 \<noteq> 16 then Inl UnsupportedHeader else
     and_then (read_text mc (max_string_bytes (cbor limits)) ''typ'' d4) (\<lambda>(ty, d5).
     if ty \<noteq> COSE_TYPE then Inl InvalidType
     else if d_pos d5 \<noteq> length inp
     then Inl (MalformedCbor ''trailing body protected data'')
     else and_then (encode_body_protected mc) (\<lambda>enc.
       if enc \<noteq> inp then Inl NonDeterministicCbor else Inr ()))))))"

definition validate_signature_protected ::
  "minicbor \<Rightarrow> bytes \<Rightarrow> cose_algorithm \<Rightarrow> cose_limits \<Rightarrow> cose_envelope_error + bytes" where
  "validate_signature_protected mc inp expected limits =
     and_then (read_map_length mc ''signature protected map'' (decoder_new inp)) (\<lambda>(n, d1).
     if n \<noteq> 2 then Inl UnsupportedHeader else
     and_then (read_header_label mc d1) (\<lambda>(l1, d2).
     if l1 \<noteq> 1 then Inl UnsupportedHeader else
     and_then (map_err (\<lambda>_. InvalidAlgorithm) (mc_i64 mc d2)) (\<lambda>(alg, d3).
     if alg \<noteq> cose_value expected then Inl InvalidAlgorithm else
     and_then (read_header_label mc d3) (\<lambda>(l2, d4).
     if l2 \<noteq> 4 then Inl UnsupportedHeader else
     and_then (read_bytes mc (max_string_bytes (cbor limits)) ''signature kid'' d4) (\<lambda>(kid, d5).
     if kid = [] \<or> from_utf8 kid = None then Inl InvalidKid
     else if d_pos d5 \<noteq> length inp
     then Inl (MalformedCbor ''trailing signature protected data'')
     else and_then (encode_signature_protected mc expected kid) (\<lambda>enc.
       if enc \<noteq> inp then Inl NonDeterministicCbor else Inr kid))))))"

definition parse_signature ::
  "minicbor \<Rightarrow> cose_algorithm \<Rightarrow> cose_limits \<Rightarrow> decoder
     \<Rightarrow> cose_envelope_error + parsed_signature \<times> decoder" where
  "parse_signature mc expected limits d =
     and_then (expect_array mc 3 ''COSE_Signature array'' d) (\<lambda>d1.
     and_then (read_bytes mc (max_string_bytes (cbor limits)) ''signature protected'' d1)
       (\<lambda>(prot, d2).
     and_then (validate_signature_protected mc prot expected limits) (\<lambda>kid.
     and_then (expect_empty_map mc ''signature unprotected'' d2) (\<lambda>d3.
     and_then (read_bytes mc (max_string_bytes (cbor limits)) ''signature'' d3) (\<lambda>(sig, d4).
     and_then (validate_signature_length expected (length sig)) (\<lambda>_.
     Inr (\<lparr>ps_algorithm = expected, ps_protected = prot, ps_kid = kid, ps_signature = sig\<rparr>,
          d4)))))))"

fun parse_signatures ::
  "minicbor \<Rightarrow> cose_limits \<Rightarrow> cose_algorithm list \<Rightarrow> decoder
     \<Rightarrow> cose_envelope_error + parsed_signature list \<times> decoder" where
  "parse_signatures mc limits [] d = Inr ([], d)"
| "parse_signatures mc limits (expected # rest) d =
     and_then (parse_signature mc expected limits d) (\<lambda>(s, d').
     and_then (parse_signatures mc limits rest d') (\<lambda>(ss, d'').
     Inr (s # ss, d'')))"

definition to_encoded :: "parsed_signature \<Rightarrow> encoded_signature" where
  "to_encoded s = \<lparr>es_protected = ps_protected s, es_signature = ps_signature s\<rparr>"

definition parse_envelope ::
  "minicbor \<Rightarrow> bytes \<Rightarrow> cose_limits \<Rightarrow> cose_envelope_error + parsed_envelope" where
  "parse_envelope mc inp limits =
     and_then (validate_fixed_shape_limits limits) (\<lambda>_.
     if exceeds (length inp) (max_envelope_bytes limits)
     then Inl (ResourceLimit ''complete envelope bytes'')
     else if length inp < 3 then Inl (MalformedCbor ''input is too short'')
     else if take 2 inp \<noteq> [0xd8, 0x62]
     then Inl (InvalidCoseStructure ''preferred CBOR tag 98 is required'')
     else
     and_then (expect_array mc 4 ''COSE_Sign outer array'' (decoder_new (drop 2 inp))) (\<lambda>d1.
     and_then (read_bytes mc (max_string_bytes (cbor limits)) ''body protected'' d1)
       (\<lambda>(body, d2).
     and_then (validate_body_protected mc body limits) (\<lambda>_.
     and_then (expect_empty_map mc ''body unprotected'' d2) (\<lambda>d3.
     and_then (read_bytes mc (max_manifest_bytes (cbor limits)) ''embedded manifest'' d3)
       (\<lambda>(pl, d4).
     and_then (expect_array mc 2 ''signatures array'' d4) (\<lambda>d5.
     and_then (parse_signatures mc limits REQUIRED_SIGNATURES d5) (\<lambda>(sigs, d6).
     if d_pos d6 \<noteq> length inp - 2
     then Inl (MalformedCbor ''trailing data after COSE_Sign'')
     else
     and_then (encode_envelope mc body pl (map to_encoded sigs)) (\<lambda>deterministic.
     if deterministic \<noteq> inp then Inl NonDeterministicCbor
     else Inr \<lparr>body_protected = body, payload = pl, signatures = sigs\<rparr>)))))))))"

section \<open>Signing and verifying\<close>

definition descriptor_for ::
  "manifest \<Rightarrow> cose_algorithm \<Rightarrow> cose_envelope_error + key_descriptor" where
  "descriptor_for m alg =
     (case filter (\<lambda>k. algorithm k = tfws_identifier alg) (keys m) of
        [] \<Rightarrow> Inl HybridBaselineIncomplete
      | k # rest \<Rightarrow>
          if rest \<noteq> [] then Inl HybridBaselineIncomplete
          else if key_id k = [] then Inl KeyBindingMismatch
          else Inr k)"

fun sign_each ::
  "minicbor \<Rightarrow> cose_signer \<Rightarrow> cose_limits \<Rightarrow> manifest \<Rightarrow> bytes \<Rightarrow> bytes \<Rightarrow> cose_algorithm list
     \<Rightarrow> cose_envelope_error + encoded_signature list" where
  "sign_each mc signer limits m body pl [] = Inr []"
| "sign_each mc signer limits m body pl (alg # rest) =
     and_then (descriptor_for m alg) (\<lambda>descriptor.
     and_then (encode_signature_protected mc alg (as_bytes (key_id descriptor))) (\<lambda>prot.
     and_then (encode_sig_structure mc body prot pl) (\<lambda>message.
     and_then (map_err map_crypto_error (signer alg descriptor message)) (\<lambda>sig.
     and_then (validate_signature_length alg (length sig)) (\<lambda>_.
     if exceeds (length sig) (max_string_bytes (cbor limits))
     then Inl (ResourceLimit ''signature bytes'')
     else
     and_then (sign_each mc signer limits m body pl rest) (\<lambda>ss.
     Inr (\<lparr>es_protected = prot, es_signature = sig\<rparr> # ss)))))))"

definition sign_manifest_cose_with_limits ::
  "minicbor \<Rightarrow> crates \<Rightarrow> manifest \<Rightarrow> cose_signer \<Rightarrow> cose_limits
     \<Rightarrow> cose_envelope_error + bytes" where
  "sign_manifest_cose_with_limits mc cr m signer limits =
     and_then (validate_fixed_shape_limits limits) (\<lambda>_.
     and_then (map_err ManifestCbor
         (encode_manifest_cbor_with_limits mc cr m (cbor limits))) (\<lambda>pl.
     and_then (encode_body_protected mc) (\<lambda>body.
     and_then (sign_each mc signer limits m body pl REQUIRED_SIGNATURES) (\<lambda>sigs.
     and_then (encode_envelope mc body pl sigs) (\<lambda>encoded.
     if exceeds (length encoded) (max_envelope_bytes limits)
     then Inl (ResourceLimit ''complete envelope bytes'')
     else and_then (parse_envelope mc encoded limits) (\<lambda>_. Inr encoded))))))"

definition sign_manifest_cose ::
  "minicbor \<Rightarrow> crates \<Rightarrow> manifest \<Rightarrow> cose_signer \<Rightarrow> cose_envelope_error + bytes" where
  "sign_manifest_cose mc cr m signer =
     sign_manifest_cose_with_limits mc cr m signer default_cose_limits"

fun verify_each ::
  "minicbor \<Rightarrow> cose_verifier \<Rightarrow> manifest \<Rightarrow> parsed_envelope
     \<Rightarrow> (parsed_signature \<times> cose_algorithm) list \<Rightarrow> cose_envelope_error + unit" where
  "verify_each mc verifier m p [] = Inr ()"
| "verify_each mc verifier m p ((s, expected) # rest) =
     (if ps_algorithm s \<noteq> expected then Inl InvalidAlgorithm
      else
        and_then (descriptor_for m expected) (\<lambda>descriptor.
        if ps_kid s \<noteq> as_bytes (key_id descriptor) then Inl InvalidKid
        else
        and_then (encode_sig_structure mc (body_protected p) (ps_protected s) (payload p))
          (\<lambda>message.
        and_then (map_err map_crypto_error
            (verifier expected descriptor message (ps_signature s))) (\<lambda>_.
        verify_each mc verifier m p rest))))"

definition verify_manifest_cose_with_limits ::
  "minicbor \<Rightarrow> crates \<Rightarrow> bytes \<Rightarrow> cose_verifier \<Rightarrow> cose_limits
     \<Rightarrow> cose_envelope_error + manifest" where
  "verify_manifest_cose_with_limits mc cr envelope verifier limits =
     and_then (parse_envelope mc envelope limits) (\<lambda>parsed.
     and_then (map_err ManifestCbor
         (decode_manifest_cbor mc cr (payload parsed) (cbor limits))) (\<lambda>m.
     if length (signatures parsed) \<noteq> length REQUIRED_SIGNATURES
     then Inl HybridBaselineIncomplete
     else
     and_then (verify_each mc verifier m parsed (zip (signatures parsed) REQUIRED_SIGNATURES))
       (\<lambda>_. Inr m)))"

definition verify_manifest_cose ::
  "minicbor \<Rightarrow> crates \<Rightarrow> bytes \<Rightarrow> cose_verifier \<Rightarrow> cose_envelope_error + manifest" where
  "verify_manifest_cose mc cr envelope verifier =
     verify_manifest_cose_with_limits mc cr envelope verifier default_cose_limits"

end
