(* ===== verification/Cose_Laws.thy ===== *)
theory Cose_Laws
  imports Cose Cbor_Laws
begin

text \<open>
  The facts about the envelope its properties rest on, for any CBOR library that keeps the
  laws of \<open>cbor_cose_items\<close>: the parser accepts exactly the encodings of canonical
  envelopes, and the signed bytes determine the headers and the payload they cover.
\<close>

section \<open>Writing\<close>

lemma emit_parts:
  "emit [] = Inr bs \<longleftrightarrow> bs = []"
  "emit (r # rs) = Inr bs \<longleftrightarrow> (\<exists>b cs. r = Inr b \<and> emit rs = Inr cs \<and> bs = b @ cs)"
  by (auto simp: result_iff)

lemma emit_total: "list_all is_ok rs \<Longrightarrow> is_ok (emit rs)"
  by (induction rs) (auto simp: is_ok_iff)

lemma encode_signatures_parts:
  "encode_signatures mc [] = Inr bs \<longleftrightarrow> bs = []"
  "encode_signatures mc (s # ss) = Inr bs \<longleftrightarrow>
     (\<exists>b cs. emit [me_array mc 3, me_bytes mc (es_protected s), me_map mc 0,
         me_bytes mc (es_signature s)] = Inr b \<and> encode_signatures mc ss = Inr cs \<and> bs = b @ cs)"
  by (auto simp: result_iff)

lemma encode_envelope_parts:
  "encode_envelope mc body pl ss = Inr bs \<longleftrightarrow>
     length ss = length REQUIRED_SIGNATURES \<and>
     (\<exists>h b m p a t. me_array mc 4 = Inr h \<and> me_bytes mc body = Inr b \<and> me_map mc 0 = Inr m
        \<and> me_bytes mc pl = Inr p \<and> me_array mc 2 = Inr a \<and> encode_signatures mc ss = Inr t
        \<and> bs = [0xd8, 0x62] @ h @ b @ m @ p @ a @ t)"
  by (auto simp: encode_envelope_def result_iff)

section \<open>Canonical envelopes\<close>

definition canonical_signature ::
  "minicbor \<Rightarrow> cose_limits \<Rightarrow> cose_algorithm \<Rightarrow> parsed_signature \<Rightarrow> bool" where
  "canonical_signature mc limits alg s \<longleftrightarrow>
     ps_algorithm s = alg
     \<and> encode_signature_protected mc alg (ps_kid s) = Inr (ps_protected s)
     \<and> ps_kid s \<noteq> [] \<and> from_utf8 (ps_kid s) \<noteq> None
     \<and> length (ps_signature s) = expected_signature_len alg
     \<and> list_all (\<lambda>bs. \<not> exceeds (length bs) (max_string_bytes (cbor limits)))
         [ps_kid s, ps_protected s, ps_signature s]"

definition canonical_envelope :: "minicbor \<Rightarrow> cose_limits \<Rightarrow> parsed_envelope \<Rightarrow> bool" where
  "canonical_envelope mc limits p \<longleftrightarrow>
     validate_fixed_shape_limits limits = Inr ()
     \<and> encode_body_protected mc = Inr (body_protected p)
     \<and> list_all (\<lambda>n. \<not> exceeds n (max_string_bytes (cbor limits)))
         [length (body_protected p), length COSE_CONTENT_TYPE, length COSE_TYPE]
     \<and> \<not> exceeds (length (payload p)) (max_manifest_bytes (cbor limits))
     \<and> list_all2 (canonical_signature mc limits) REQUIRED_SIGNATURES (signatures p)"

definition envelope_bytes :: "minicbor \<Rightarrow> parsed_envelope \<Rightarrow> cose_envelope_error + bytes" where
  "envelope_bytes mc p =
     encode_envelope mc (body_protected p) (payload p) (map to_encoded (signatures p))"

text \<open>The one call of the provider for each required algorithm.\<close>

definition accepted_by ::
  "minicbor \<Rightarrow> cose_verifier \<Rightarrow> manifest \<Rightarrow> parsed_envelope \<Rightarrow> cose_algorithm \<Rightarrow> parsed_signature
     \<Rightarrow> bool" where
  "accepted_by mc verifier m p alg s \<longleftrightarrow> (\<exists>k msg.
     descriptor_for m alg = Inr k \<and> ps_kid s = as_bytes (key_id k)
     \<and> encode_sig_structure mc (body_protected p) (ps_protected s) (payload p) = Inr msg
     \<and> verifier alg k msg (ps_signature s) = Inr ())"

definition signed_by ::
  "minicbor \<Rightarrow> cose_signer \<Rightarrow> manifest \<Rightarrow> parsed_envelope \<Rightarrow> cose_algorithm \<Rightarrow> parsed_signature
     \<Rightarrow> bool" where
  "signed_by mc signer m p alg s \<longleftrightarrow> (\<exists>k msg.
     descriptor_for m alg = Inr k \<and> ps_kid s = as_bytes (key_id k)
     \<and> encode_sig_structure mc (body_protected p) (ps_protected s) (payload p) = Inr msg
     \<and> signer alg k msg = Inr (ps_signature s))"
lemma header_constants_utf8 [simp]: "valid_utf8 COSE_CONTENT_TYPE" "valid_utf8 COSE_TYPE"
  by (simp_all add: COSE_CONTENT_TYPE_def COSE_TYPE_def ascii_def)

lemma not_exceeds_bound: "\<not> exceeds n limit \<Longrightarrow> n < 2 ^ 64"
  using fits_word by blast

section \<open>Reading what was written\<close>

context cbor_cose_items
begin

lemma expect_array_written:
  "me_array mc n = Inr bs \<Longrightarrow> remaining d = bs @ r \<Longrightarrow>
   expect_array mc n nm d = Inr (advance (length bs) d)"
  by (frule (1) read_array) (simp add: expect_array_def malformed_def)

lemma read_map_length_written:
  "me_map mc n = Inr bs \<Longrightarrow> remaining d = bs @ r \<Longrightarrow>
   read_map_length mc nm d = Inr (n, advance (length bs) d)"
  by (frule (1) read_map) (simp add: read_map_length_def malformed_def)

lemma expect_empty_map_written:
  "me_map mc 0 = Inr bs \<Longrightarrow> remaining d = bs @ r \<Longrightarrow>
   expect_empty_map mc nm d = Inr (advance (length bs) d)"
  by (simp add: expect_empty_map_def read_map_length_written)

lemma read_bytes_written:
  assumes "me_bytes mc w = Inr bs" and "remaining d = bs @ r" and "\<not> exceeds (length w) maximum"
  shows "read_bytes mc maximum nm d = Inr (w, advance (length bs) d)"
  using read_bytes_item [OF assms(1) not_exceeds_bound [OF assms(3)] assms(2)] assms(3)
  by (simp add: read_bytes_def malformed_def)

lemma read_text_written:
  assumes "me_str mc s = Inr bs" and "remaining d = bs @ r" and "\<not> exceeds (length s) maximum"
    and "valid_utf8 s"
  shows "read_text mc maximum nm d = Inr (s, advance (length bs) d)"
  using read_str [OF assms(1,4) not_exceeds_bound [OF assms(3)] assms(2)] assms(3)
  by (simp add: read_text_def malformed_def)

lemma read_label_written:
  "me_u8 mc v = Inr bs \<Longrightarrow> remaining d = bs @ r \<Longrightarrow>
   read_header_label mc d = Inr (ucast v, advance (length bs) d)"
  by (frule (1) read_u8) (simp add: read_header_label_def)

lemmas items_written = expect_array_written read_map_length_written expect_empty_map_written
  read_bytes_written read_text_written read_label_written

text \<open>The two protected headers.\<close>

lemma validate_body_protected_ok:
  "validate_body_protected mc inp limits = Inr u \<longleftrightarrow>
     encode_body_protected mc = Inr inp
     \<and> \<not> exceeds (length COSE_CONTENT_TYPE) (max_string_bytes (cbor limits))
     \<and> \<not> exceeds (length COSE_TYPE) (max_string_bytes (cbor limits))"
  (is "?l \<longleftrightarrow> ?r")
proof
  assume ?l
  then show ?r
    by (auto simp: validate_body_protected_def read_text_def malformed_def result_iff
        split: if_splits)
next
  assume r: ?r
  then obtain h l1 ct l2 ty where parts: "me_map mc 2 = Inr h" "me_u8 mc 3 = Inr l1"
      "me_str mc COSE_CONTENT_TYPE = Inr ct" "me_u8 mc 16 = Inr l2" "me_str mc COSE_TYPE = Inr ty"
    and inp: "inp = h @ l1 @ ct @ l2 @ ty"
    unfolding encode_body_protected_def emit_parts by blast
  let ?d = "decoder_new inp"
  have
    "read_map_length mc ''body protected map'' ?d = Inr (2, advance (length h) ?d)"
    "read_header_label mc (advance (length h) ?d) = Inr (3, advance (length (h @ l1)) ?d)"
    "read_text mc (max_string_bytes (cbor limits)) ''content type'' (advance (length (h @ l1)) ?d)
      = Inr (COSE_CONTENT_TYPE, advance (length (h @ l1 @ ct)) ?d)"
    "read_header_label mc (advance (length (h @ l1 @ ct)) ?d)
      = Inr (16, advance (length (h @ l1 @ ct @ l2)) ?d)"
    "read_text mc (max_string_bytes (cbor limits)) ''typ'' (advance (length (h @ l1 @ ct @ l2)) ?d)
      = Inr (COSE_TYPE, advance (length inp) ?d)"
    using read_map_length_written [OF parts(1), of ?d "l1 @ ct @ l2 @ ty"]
      read_label_written [OF parts(2), of "advance (length h) ?d" "ct @ l2 @ ty"]
      read_text_written [OF parts(3), of "advance (length (h @ l1)) ?d" "l2 @ ty"]
      read_label_written [OF parts(4), of "advance (length (h @ l1 @ ct)) ?d" ty]
      read_text_written [OF parts(5), of "advance (length (h @ l1 @ ct @ l2)) ?d" "[]"] r
    by (simp_all add: inp add.assoc)
  with r show ?l by (simp add: validate_body_protected_def)
qed

lemma validate_signature_protected_ok:
  "validate_signature_protected mc inp alg limits = Inr kid \<longleftrightarrow>
     encode_signature_protected mc alg kid = Inr inp \<and> kid \<noteq> [] \<and> from_utf8 kid \<noteq> None
     \<and> \<not> exceeds (length kid) (max_string_bytes (cbor limits))"
  (is "?l \<longleftrightarrow> ?r")
proof
  assume ?l
  then show ?r
    by (auto simp: validate_signature_protected_def read_bytes_def malformed_def result_iff
        split: if_splits)
next
  assume r: ?r
  then obtain h l1 a l2 k where parts: "me_map mc 2 = Inr h" "me_u8 mc 1 = Inr l1"
      "me_i64 mc (cose_value alg) = Inr a" "me_u8 mc 4 = Inr l2" "me_bytes mc kid = Inr k"
    and inp: "inp = h @ l1 @ a @ l2 @ k"
    unfolding encode_signature_protected_def emit_parts by blast
  let ?d = "decoder_new inp"
  have
    "read_map_length mc ''signature protected map'' ?d = Inr (2, advance (length h) ?d)"
    "read_header_label mc (advance (length h) ?d) = Inr (1, advance (length (h @ l1)) ?d)"
    "mc_i64 mc (advance (length (h @ l1)) ?d)
      = Inr (cose_value alg, advance (length (h @ l1 @ a)) ?d)"
    "read_header_label mc (advance (length (h @ l1 @ a)) ?d)
      = Inr (4, advance (length (h @ l1 @ a @ l2)) ?d)"
    "read_bytes mc (max_string_bytes (cbor limits)) ''signature kid''
        (advance (length (h @ l1 @ a @ l2)) ?d)
      = Inr (kid, advance (length inp) ?d)"
    using read_map_length_written [OF parts(1), of ?d "l1 @ a @ l2 @ k"]
      read_label_written [OF parts(2), of "advance (length h) ?d" "a @ l2 @ k"]
      read_i64 [OF parts(3), of "advance (length (h @ l1)) ?d" "l2 @ k"]
      read_label_written [OF parts(4), of "advance (length (h @ l1 @ a)) ?d" k]
      read_bytes_written [OF parts(5), of "advance (length (h @ l1 @ a @ l2)) ?d" "[]"] r
    by (simp_all add: inp add.assoc)
  with r show ?l by (simp add: validate_signature_protected_def)
qed

section \<open>The parser accepts the canonical envelopes\<close>

lemma parse_signature_sound:
  "parse_signature mc alg limits d = Inr (s, d') \<Longrightarrow> canonical_signature mc limits alg s"
  by (auto simp: parse_signature_def canonical_signature_def validate_signature_protected_ok
      validate_signature_length_def read_bytes_def malformed_def result_iff split: if_splits)

lemma parse_signature_written:
  assumes s: "canonical_signature mc limits alg s"
    and bs: "emit [me_array mc 3, me_bytes mc (ps_protected s), me_map mc 0,
         me_bytes mc (ps_signature s)] = Inr bs"
    and d: "remaining d = bs @ r"
  shows "parse_signature mc alg limits d = Inr (s, advance (length bs) d)"
proof -
  obtain h p m g where parts: "me_array mc 3 = Inr h" "me_bytes mc (ps_protected s) = Inr p"
      "me_map mc 0 = Inr m" "me_bytes mc (ps_signature s) = Inr g" and eq: "bs = h @ p @ m @ g"
    using bs unfolding emit_parts by blast
  let ?max = "max_string_bytes (cbor limits)"
  have fit: "\<not> exceeds (length (ps_protected s)) ?max" "\<not> exceeds (length (ps_signature s)) ?max"
    using s by (auto simp: canonical_signature_def)
  have
    "expect_array mc 3 ''COSE_Signature array'' d = Inr (advance (length h) d)"
    "read_bytes mc ?max ''signature protected'' (advance (length h) d)
      = Inr (ps_protected s, advance (length (h @ p)) d)"
    "expect_empty_map mc ''signature unprotected'' (advance (length (h @ p)) d)
      = Inr (advance (length (h @ p @ m)) d)"
    "read_bytes mc ?max ''signature'' (advance (length (h @ p @ m)) d)
      = Inr (ps_signature s, advance (length bs) d)"
    using expect_array_written [OF parts(1), of d "p @ m @ g @ r"]
      read_bytes_written [OF parts(2) _ fit(1), of "advance (length h) d" "m @ g @ r"]
      expect_empty_map_written [OF parts(3), of "advance (length (h @ p)) d" "g @ r"]
      read_bytes_written [OF parts(4) _ fit(2), of "advance (length (h @ p @ m)) d" r]
    by (simp_all add: d eq add.assoc)
  moreover have "validate_signature_protected mc (ps_protected s) alg limits = Inr (ps_kid s)"
    using s by (simp add: validate_signature_protected_ok canonical_signature_def)
  moreover have "validate_signature_length alg (length (ps_signature s)) = Inr ()"
    using s by (auto simp: canonical_signature_def validate_signature_length_def)
  ultimately show ?thesis
    using s by (auto simp: parse_signature_def canonical_signature_def)
qed

lemma parse_signatures_sound:
  "parse_signatures mc limits algs d = Inr (ss, d') \<Longrightarrow>
   list_all2 (canonical_signature mc limits) algs ss"
  by (induction algs arbitrary: d ss) (auto simp: result_iff intro: parse_signature_sound)

lemma parse_signatures_written:
  "list_all2 (canonical_signature mc limits) algs ss \<Longrightarrow>
   encode_signatures mc (map to_encoded ss) = Inr bs \<Longrightarrow> remaining d = bs @ r \<Longrightarrow>
   parse_signatures mc limits algs d = Inr (ss, advance (length bs) d)"
proof (induction algs ss arbitrary: bs d rule: list_all2_induct)
  case Nil
  then show ?case by simp
next
  case (Cons alg algs s ss)
  then obtain b cs where
    b: "emit [me_array mc 3, me_bytes mc (ps_protected s), me_map mc 0,
         me_bytes mc (ps_signature s)] = Inr b"
    and cs: "encode_signatures mc (map to_encoded ss) = Inr cs" and bs: "bs = b @ cs"
    unfolding list.map encode_signatures_parts by (auto simp only: to_encoded_def encoded_signature.simps)
  have "parse_signature mc alg limits d = Inr (s, advance (length b) d)"
    using Cons.hyps(1) b Cons.prems(2) by (simp add: parse_signature_written bs)
  moreover have "parse_signatures mc limits algs (advance (length b) d)
      = Inr (ss, advance (length cs) (advance (length b) d))"
    using cs Cons.prems(2) by (intro Cons.IH) (simp_all add: bs)
  ultimately show ?case by (simp add: bs)
qed

lemma parse_envelope_sound:
  assumes "parse_envelope mc inp limits = Inr p"
  shows "canonical_envelope mc limits p \<and> envelope_bytes mc p = Inr inp
     \<and> \<not> exceeds (length inp) (max_envelope_bytes limits)"
  using assms
  by (auto simp: parse_envelope_def canonical_envelope_def envelope_bytes_def read_bytes_def
      malformed_def validate_body_protected_ok result_iff parse_signatures_sound split: if_splits)

lemma envelope_bytes_long:
  assumes "envelope_bytes mc p = Inr inp"
  shows "take 2 inp = [0xd8, 0x62] \<and> 3 \<le> length inp"
proof -
  obtain h rest where h: "me_array mc 4 = Inr h" and inp: "inp = [0xd8, 0x62] @ h @ rest"
    using assms unfolding envelope_bytes_def encode_envelope_parts by blast
  have "h \<noteq> []"
    using read_array [OF h, of "decoder_new h" "[]"] datatype_not_empty [of h] by auto
  with inp show ?thesis by (cases h) simp_all
qed

lemma parse_envelope_written:
  assumes p: "canonical_envelope mc limits p" and bytes: "envelope_bytes mc p = Inr inp"
    and small: "\<not> exceeds (length inp) (max_envelope_bytes limits)"
  shows "parse_envelope mc inp limits = Inr p"
proof -
  obtain h b m l a t where parts: "me_array mc 4 = Inr h"
      "me_bytes mc (body_protected p) = Inr b" "me_map mc 0 = Inr m"
      "me_bytes mc (payload p) = Inr l" "me_array mc 2 = Inr a"
      "encode_signatures mc (map to_encoded (signatures p)) = Inr t"
    and inp: "inp = [0xd8, 0x62] @ h @ b @ m @ l @ a @ t"
    using bytes unfolding envelope_bytes_def encode_envelope_parts by blast
  let ?d = "decoder_new (drop 2 inp)"
  have fit: "\<not> exceeds (length (body_protected p)) (max_string_bytes (cbor limits))"
      "\<not> exceeds (length (payload p)) (max_manifest_bytes (cbor limits))"
    and sigs: "list_all2 (canonical_signature mc limits) REQUIRED_SIGNATURES (signatures p)"
    and body: "validate_body_protected mc (body_protected p) limits = Inr ()"
    using p by (simp_all add: canonical_envelope_def validate_body_protected_ok)
  have
    "expect_array mc 4 ''COSE_Sign outer array'' ?d = Inr (advance (length h) ?d)"
    "read_bytes mc (max_string_bytes (cbor limits)) ''body protected'' (advance (length h) ?d)
      = Inr (body_protected p, advance (length (h @ b)) ?d)"
    "expect_empty_map mc ''body unprotected'' (advance (length (h @ b)) ?d)
      = Inr (advance (length (h @ b @ m)) ?d)"
    "read_bytes mc (max_manifest_bytes (cbor limits)) ''embedded manifest''
        (advance (length (h @ b @ m)) ?d)
      = Inr (payload p, advance (length (h @ b @ m @ l)) ?d)"
    "expect_array mc 2 ''signatures array'' (advance (length (h @ b @ m @ l)) ?d)
      = Inr (advance (length (h @ b @ m @ l @ a)) ?d)"
    "parse_signatures mc limits REQUIRED_SIGNATURES (advance (length (h @ b @ m @ l @ a)) ?d)
      = Inr (signatures p, advance (length inp - 2) ?d)"
    using expect_array_written [OF parts(1), of ?d "b @ m @ l @ a @ t"]
      read_bytes_written [OF parts(2) _ fit(1), of "advance (length h) ?d" "m @ l @ a @ t"]
      expect_empty_map_written [OF parts(3), of "advance (length (h @ b)) ?d" "l @ a @ t"]
      read_bytes_written [OF parts(4) _ fit(2), of "advance (length (h @ b @ m)) ?d" "a @ t"]
      expect_array_written [OF parts(5), of "advance (length (h @ b @ m @ l)) ?d" t]
      parse_signatures_written [OF sigs parts(6),
        of "advance (length (h @ b @ m @ l @ a)) ?d" "[]"]
    by (simp_all add: inp add.assoc)
  with p body bytes small envelope_bytes_long [OF bytes] show ?thesis
    by (simp add: parse_envelope_def canonical_envelope_def envelope_bytes_def)
qed

lemma parse_envelope_ok:
  "parse_envelope mc inp limits = Inr p \<longleftrightarrow>
     canonical_envelope mc limits p \<and> envelope_bytes mc p = Inr inp
     \<and> \<not> exceeds (length inp) (max_envelope_bytes limits)"
  using parse_envelope_sound parse_envelope_written by blast

section \<open>Framing\<close>

text \<open>What is in front of a rest on the wire is determined, part by part.\<close>

lemma encode_sig_structure_inject:
  assumes "encode_sig_structure mc body prot pl = Inr msg"
    and "encode_sig_structure mc body' prot' pl' = Inr msg" and "length msg < 2 ^ 64"
  shows "body = body' \<and> prot = prot' \<and> pl = pl'"
proof -
  obtain h t b s e p where h: "me_array mc 5 = Inr h" "me_str mc ''Signature'' = Inr t"
      "me_bytes mc [] = Inr e"
    and b: "me_bytes mc body = Inr b" and s: "me_bytes mc prot = Inr s"
    and p: "me_bytes mc pl = Inr p" and msg: "msg = h @ t @ b @ s @ e @ p"
    using assms(1) unfolding encode_sig_structure_def emit_parts by blast
  obtain b' s' p' where b': "me_bytes mc body' = Inr b'" and s': "me_bytes mc prot' = Inr s'"
    and p': "me_bytes mc pl' = Inr p'" and msg': "msg = h @ t @ b' @ s' @ e @ p'"
    using assms(2) h unfolding encode_sig_structure_def emit_parts
    by (auto simp only: sum.inject)
  have eq: "b @ s @ e @ p = b' @ s' @ e @ p'" using msg msg' by simp
  have small: "length (b @ s @ e @ p) < 2 ^ 64" "length (s @ e @ p) < 2 ^ 64"
      "length (p @ []) < 2 ^ 64"
    using assms(3) unfolding msg by simp_all
  have 1: "body = body' \<and> s @ e @ p = s' @ e @ p'"
    using me_bytes_append_inject [OF b b' eq small(1)] by simp
  then have 2: "prot = prot' \<and> e @ p = e @ p'"
    using me_bytes_append_inject [OF s s' _ small(2)] by blast
  then have "pl = pl'"
    using me_bytes_append_inject [OF p p' _ small(3), of "[]"] by simp
  with 1 2 show ?thesis by simp
qed

lemma encode_signature_protected_inject:
  assumes "encode_signature_protected mc alg kid = Inr prot"
    and "encode_signature_protected mc alg' kid' = Inr prot" and "length prot < 2 ^ 64"
  shows "alg = alg' \<and> kid = kid'"
proof -
  obtain h l a f k where "me_map mc 2 = Inr h" "me_u8 mc 1 = Inr l"
      and a: "me_i64 mc (cose_value alg) = Inr a" and "me_u8 mc 4 = Inr f"
      and k: "me_bytes mc kid = Inr k" and prot: "prot = h @ l @ a @ f @ k"
    using assms(1) unfolding encode_signature_protected_def emit_parts by blast
  moreover obtain a' k' where a': "me_i64 mc (cose_value alg') = Inr a'"
      and k': "me_bytes mc kid' = Inr k'" and prot': "prot = h @ l @ a' @ f @ k'"
    using assms(2) calculation(1,2,4) unfolding encode_signature_protected_def emit_parts
    by (auto simp only: sum.inject)
  ultimately have eq: "a @ f @ k = a' @ f @ k'" by simp
  have "cose_value alg = cose_value alg'"
    using read_i64 [OF a, of "decoder_new (a @ f @ k)" "f @ k"]
      read_i64 [OF a', of "decoder_new (a @ f @ k)" "f @ k'"] eq by simp
  then have "alg = alg'"
    by (cases alg; cases alg')
      (simp_all add: ED25519_COSE_ALGORITHM_def ML_DSA_65_COSE_ALGORITHM_def)
  moreover have "kid = kid'"
    using me_bytes_append_inject [OF k k', of "[]" "[]"] a a' eq \<open>alg = alg'\<close> prot assms(3)
    by auto
  ultimately show ?thesis by simp
qed

lemma signature_inject:
  assumes "emit [me_array mc 3, me_bytes mc v, me_map mc 0, me_bytes mc w] = Inr bs"
    and "emit [me_array mc 3, me_bytes mc v', me_map mc 0, me_bytes mc w'] = Inr bs'"
    and "bs @ r = bs' @ r'" and "length (bs @ r) < 2 ^ 64"
  shows "v = v' \<and> w = w' \<and> r = r'"
proof -
  obtain h p m g where "me_array mc 3 = Inr h" "me_map mc 0 = Inr m"
      and p: "me_bytes mc v = Inr p" and g: "me_bytes mc w = Inr g" and bs: "bs = h @ p @ m @ g"
    using assms(1) unfolding emit_parts by blast
  moreover obtain p' g' where p': "me_bytes mc v' = Inr p'" and g': "me_bytes mc w' = Inr g'"
      and bs': "bs' = h @ p' @ m @ g'"
    using assms(2) calculation(1,2) unfolding emit_parts by (auto simp only: sum.inject)
  ultimately have eq: "p @ m @ g @ r = p' @ m @ g' @ r'" using assms(3) by simp
  have small: "length (p @ m @ g @ r) < 2 ^ 64" "length (g @ r) < 2 ^ 64"
    using assms(4) unfolding bs by simp_all
  have "v = v'" and rest: "g @ r = g' @ r'"
    using me_bytes_append_inject [OF p p' eq small(1)] by simp_all
  moreover have "w = w' \<and> r = r'"
    using me_bytes_append_inject [OF g g' rest small(2)] by simp
  ultimately show ?thesis by simp
qed

lemma encode_signatures_inject:
  "encode_signatures mc ss = Inr bs \<Longrightarrow> encode_signatures mc ss' = Inr bs' \<Longrightarrow>
   length ss = length ss' \<Longrightarrow> bs @ r = bs' @ r' \<Longrightarrow> length (bs @ r) < 2 ^ 64 \<Longrightarrow>
   ss = ss' \<and> r = r'"
proof (induction ss arbitrary: ss' bs bs')
  case Nil
  then show ?case by simp
next
  case (Cons s ss)
  obtain s' ts where ss': "ss' = s' # ts" using Cons.prems(3) by (cases ss') simp_all
  obtain b cs where b: "emit [me_array mc 3, me_bytes mc (es_protected s), me_map mc 0,
        me_bytes mc (es_signature s)] = Inr b"
    and cs: "encode_signatures mc ss = Inr cs" and bs: "bs = b @ cs"
    using Cons.prems(1) unfolding encode_signatures_parts by blast
  obtain b' cs' where b': "emit [me_array mc 3, me_bytes mc (es_protected s'), me_map mc 0,
        me_bytes mc (es_signature s')] = Inr b'"
    and cs': "encode_signatures mc ts = Inr cs'" and bs': "bs' = b' @ cs'"
    using Cons.prems(2) unfolding ss' encode_signatures_parts by blast
  have "es_protected s = es_protected s' \<and> es_signature s = es_signature s' \<and> cs @ r = cs' @ r'"
    using signature_inject [OF b b', of "cs @ r" "cs' @ r'"] Cons.prems(4,5) by (simp add: bs bs')
  moreover from this have "ss = ts \<and> r = r'"
    using Cons.IH [OF cs cs'] Cons.prems(3,5) by (simp add: ss' bs)
  ultimately show ?case by (simp add: ss')
qed

lemma encode_envelope_inject:
  assumes "encode_envelope mc body pl ss = Inr bs" and "encode_envelope mc body' pl' ss' = Inr bs'"
    and "bs @ r = bs' @ r'" and "length (bs @ r) < 2 ^ 64"
  shows "body = body' \<and> pl = pl' \<and> ss = ss' \<and> r = r'"
proof -
  obtain h b m p a t where "me_array mc 4 = Inr h" "me_map mc 0 = Inr m" "me_array mc 2 = Inr a"
      and b: "me_bytes mc body = Inr b" and p: "me_bytes mc pl = Inr p"
      and t: "encode_signatures mc ss = Inr t" and ss: "length ss = length REQUIRED_SIGNATURES"
      and bs: "bs = [0xd8, 0x62] @ h @ b @ m @ p @ a @ t"
    using assms(1) unfolding encode_envelope_parts by blast
  moreover obtain b' p' t' where b': "me_bytes mc body' = Inr b'" and p': "me_bytes mc pl' = Inr p'"
      and t': "encode_signatures mc ss' = Inr t'" and ss': "length ss' = length REQUIRED_SIGNATURES"
      and bs': "bs' = [0xd8, 0x62] @ h @ b' @ m @ p' @ a @ t'"
    using assms(2) calculation(1-3) unfolding encode_envelope_parts by (auto simp only: sum.inject)
  ultimately have eq: "b @ m @ p @ a @ t @ r = b' @ m @ p' @ a @ t' @ r'"
    using assms(3) by simp
  have small: "length (b @ m @ p @ a @ t @ r) < 2 ^ 64" "length (p @ a @ t @ r) < 2 ^ 64"
      "length (t @ r) < 2 ^ 64"
    using assms(4) unfolding bs by simp_all
  have 1: "body = body' \<and> p @ a @ t @ r = p' @ a @ t' @ r'"
    using me_bytes_append_inject [OF b b' eq small(1)] by simp
  then have 2: "pl = pl' \<and> t @ r = t' @ r'"
    using me_bytes_append_inject [OF p p' _ small(2), of "a @ t' @ r'"] by simp
  then have "ss = ss' \<and> r = r'"
    using encode_signatures_inject [OF t t' _ _ small(3)] by (simp add: ss ss')
  with 1 2 show ?thesis by simp
qed

text \<open>An envelope determines its parts, and no envelope is a proper prefix of another.\<close>

lemma envelope_bytes_inject:
  assumes p: "canonical_envelope mc limits p" "envelope_bytes mc p = Inr bs"
    and q: "canonical_envelope mc limits' q" "envelope_bytes mc q = Inr cs"
    and eq: "bs @ r = cs @ t" and small: "length (bs @ r) < 2 ^ 64"
  shows "p = q \<and> r = t"
proof -
  have parts: "body_protected p = body_protected q" "payload p = payload q"
      "map to_encoded (signatures p) = map to_encoded (signatures q)" "r = t"
    using encode_envelope_inject [OF p(2) [unfolded envelope_bytes_def]
        q(2) [unfolded envelope_bytes_def] eq small] by simp_all
  have le: "length (es_protected e) \<le> length es"
    if "encode_signatures mc ss = Inr es" "e \<in> set ss" for e ss es
    using that
  proof (induction ss arbitrary: es)
    case (Cons s ss)
    from Cons.prems(1) obtain h k m g c where "me_bytes mc (es_protected s) = Inr k"
        "encode_signatures mc ss = Inr c" "es = (h @ k @ m @ g) @ c"
      unfolding encode_signatures_parts emit_parts by auto
    with bytes_contained [of "es_protected s" k] Cons.IH [of c] Cons.prems(2) show ?case by auto
  qed simp
  obtain h b m a l es where es: "encode_signatures mc (map to_encoded (signatures p)) = Inr es"
      and bs: "bs = [0xd8, 0x62] @ h @ b @ m @ l @ a @ es"
    using p(2) unfolding envelope_bytes_def encode_envelope_parts by blast
  have prot: "length (ps_protected s) < 2 ^ 64" if "s \<in> set (signatures p)" for s
    using le [OF es, of "to_encoded s"] that small by (simp add: bs to_encoded_def)
  have sig: "s = s'" if "canonical_signature mc limits alg s" "canonical_signature mc limits' alg s'"
      "to_encoded s = to_encoded s'" "s \<in> set (signatures p)" for alg s s'
    using that prot [OF that(4)]
      encode_signature_protected_inject [of alg "ps_kid s" "ps_protected s" alg "ps_kid s'"]
    by (cases s; cases s') (auto simp: canonical_signature_def to_encoded_def)
  have all: "ss = ss'"
    if "list_all2 (canonical_signature mc limits) algs ss"
      "list_all2 (canonical_signature mc limits') algs ss'"
      "map to_encoded ss = map to_encoded ss'" "set ss \<subseteq> set (signatures p)" for algs ss ss'
    using that
  proof (induction algs ss arbitrary: ss' rule: list_all2_induct)
    case (Cons alg algs s ss)
    then show ?case by (cases ss') (auto intro: sig)
  qed simp
  have "signatures p = signatures q"
  proof (rule all [OF _ _ parts(3) subset_refl])
    show "list_all2 (canonical_signature mc limits) REQUIRED_SIGNATURES (signatures p)"
      using p(1) by (simp add: canonical_envelope_def)
    show "list_all2 (canonical_signature mc limits') REQUIRED_SIGNATURES (signatures q)"
      using q(1) by (simp add: canonical_envelope_def)
  qed
  with parts show ?thesis by (cases p; cases q) simp
qed

section \<open>Verification and signing, completely\<close>

lemma verify_each_ok:
  "list_all2 (\<lambda>alg s. ps_algorithm s = alg) algs ss \<Longrightarrow>
   verify_each mc verifier m p (zip ss algs) = Inr u \<longleftrightarrow>
     list_all2 (accepted_by mc verifier m p) algs ss"
  by (induction algs ss rule: list_all2_induct) (auto simp: result_iff accepted_by_def)

lemma canonical_signatures_algorithms:
  assumes "parse_envelope mc envelope limits = Inr p"
  shows "list_all2 (\<lambda>alg s. ps_algorithm s = alg) REQUIRED_SIGNATURES (signatures p)"
proof -
  have "list_all2 (canonical_signature mc limits) REQUIRED_SIGNATURES (signatures p)"
    using parse_envelope_sound [OF assms] by (simp add: canonical_envelope_def)
  then show ?thesis
    by (rule list_all2_mono) (simp add: canonical_signature_def)
qed

lemma verify_manifest_cose_ok:
  "verify_manifest_cose_with_limits mc cr envelope verifier limits = Inr m \<longleftrightarrow>
     (\<exists>p. parse_envelope mc envelope limits = Inr p
        \<and> decode_manifest_cbor mc cr (payload p) (cbor limits) = Inr m
        \<and> list_all2 (accepted_by mc verifier m p) REQUIRED_SIGNATURES (signatures p))"
  (is "?l \<longleftrightarrow> ?r")
proof
  assume ?l
  then obtain p where p: "parse_envelope mc envelope limits = Inr p"
    and rest: "decode_manifest_cbor mc cr (payload p) (cbor limits) = Inr m"
      "verify_each mc verifier m p (zip (signatures p) REQUIRED_SIGNATURES) = Inr ()"
    by (auto simp: verify_manifest_cose_with_limits_def result_iff)
  from verify_each_ok [OF canonical_signatures_algorithms [OF p]] p rest show ?r by blast
next
  assume ?r
  then obtain p where p: "parse_envelope mc envelope limits = Inr p"
    and rest: "decode_manifest_cbor mc cr (payload p) (cbor limits) = Inr m"
      "list_all2 (accepted_by mc verifier m p) REQUIRED_SIGNATURES (signatures p)"
    by blast
  note algs = canonical_signatures_algorithms [OF p]
  have "verify_each mc verifier m p (zip (signatures p) REQUIRED_SIGNATURES) = Inr ()"
    using rest(2) by (simp only: verify_each_ok [OF algs])
  with p rest list_all2_lengthD [OF algs] show ?l
    by (simp add: verify_manifest_cose_with_limits_def)
qed

end

text \<open>What the signing loop has appended for each algorithm.\<close>

definition signature_made ::
  "minicbor \<Rightarrow> cose_signer \<Rightarrow> manifest \<Rightarrow> bytes \<Rightarrow> bytes \<Rightarrow> cose_algorithm \<Rightarrow> encoded_signature
     \<Rightarrow> bool" where
  "signature_made mc signer m body pl alg e \<longleftrightarrow> (\<exists>k msg.
     descriptor_for m alg = Inr k
     \<and> encode_signature_protected mc alg (as_bytes (key_id k)) = Inr (es_protected e)
     \<and> encode_sig_structure mc body (es_protected e) pl = Inr msg
     \<and> signer alg k msg = Inr (es_signature e))"

lemma sign_each_ok:
  "sign_each mc signer limits m body pl algs = Inr ss \<longleftrightarrow>
     list_all2 (signature_made mc signer m body pl) algs ss
     \<and> list_all2 (\<lambda>alg e. length (es_signature e) = expected_signature_len alg
         \<and> \<not> exceeds (length (es_signature e)) (max_string_bytes (cbor limits))) algs ss"
proof (induction algs arbitrary: ss)
  case Nil
  then show ?case by auto
next
  case (Cons alg algs)
  show ?case
    by (cases ss)
      (auto simp: result_iff Cons.IH signature_made_def validate_signature_length_def
        split: if_splits, force?)
qed

context cbor_cose_items
begin

text \<open>
  Signing succeeds with the encoding of a canonical envelope that carries the encoded
  manifest and, in order, one signature of the provider per required algorithm.
\<close>

lemma signed_signature:
  assumes "canonical_signature mc limits alg s"
    and "signature_made mc signer m (body_protected p) (payload p) alg (to_encoded s)"
  shows "signed_by mc signer m p alg s"
proof -
  obtain k msg where k: "descriptor_for m alg = Inr k"
    and prot: "encode_signature_protected mc alg (as_bytes (key_id k)) = Inr (ps_protected s)"
    and msg: "encode_sig_structure mc (body_protected p) (ps_protected s) (payload p) = Inr msg"
      "signer alg k msg = Inr (ps_signature s)"
    using assms(2) by (auto simp: signature_made_def to_encoded_def)
  have "ps_kid s = as_bytes (key_id k)"
    using encode_signature_protected_inject [OF prot, of alg "ps_kid s"] assms(1)
    by (auto simp: canonical_signature_def dest: not_exceeds_bound)
  with k msg show ?thesis by (auto simp: signed_by_def)
qed

lemma made_signature:
  assumes "canonical_signature mc limits alg s" and "signed_by mc signer m p alg s"
  shows "signature_made mc signer m (body_protected p) (payload p) alg (to_encoded s)"
  using assms
  by (auto simp: canonical_signature_def signature_made_def signed_by_def to_encoded_def)

lemma sign_manifest_cose_ok:
  "sign_manifest_cose_with_limits mc cr m signer limits = Inr envelope \<longleftrightarrow>
     (\<exists>p. parse_envelope mc envelope limits = Inr p
        \<and> encode_manifest_cbor_with_limits mc cr m (cbor limits) = Inr (payload p)
        \<and> list_all2 (signed_by mc signer m p) REQUIRED_SIGNATURES (signatures p))"
  (is "?l \<longleftrightarrow> ?r")
proof
  assume ?l
  then obtain pl body sigs p where
    pl: "encode_manifest_cbor_with_limits mc cr m (cbor limits) = Inr pl"
    and sigs: "sign_each mc signer limits m body pl REQUIRED_SIGNATURES = Inr sigs"
    and env: "encode_envelope mc body pl sigs = Inr envelope"
    and p: "parse_envelope mc envelope limits = Inr p"
    by (auto simp: sign_manifest_cose_with_limits_def result_iff)
  from p have canon: "canonical_envelope mc limits p" and bytes: "envelope_bytes mc p = Inr envelope"
    and small: "length envelope < 2 ^ 64"
    by (auto simp: parse_envelope_ok dest: not_exceeds_bound)
  have same: "body = body_protected p" "pl = payload p" "sigs = map to_encoded (signatures p)"
    using encode_envelope_inject [OF env bytes [unfolded envelope_bytes_def], of "[]" "[]"] small
    by simp_all
  have made: "list_all2 (\<lambda>alg s. signature_made mc signer m (body_protected p) (payload p) alg
      (to_encoded s)) REQUIRED_SIGNATURES (signatures p)"
    using sigs by (simp add: sign_each_ok same list_all2_map2)
  have "list_all2 (canonical_signature mc limits) REQUIRED_SIGNATURES (signatures p)"
    using canon by (simp add: canonical_envelope_def)
  with made have "list_all2 (signed_by mc signer m p) REQUIRED_SIGNATURES (signatures p)"
    unfolding list_all2_iff
    by (auto intro: signed_signature [of limits])
  with p pl show ?r unfolding same by blast
next
  assume ?r
  then obtain p where p: "parse_envelope mc envelope limits = Inr p"
    and pl: "encode_manifest_cbor_with_limits mc cr m (cbor limits) = Inr (payload p)"
    and signed: "list_all2 (signed_by mc signer m p) REQUIRED_SIGNATURES (signatures p)"
    by blast
  from p have canon: "canonical_envelope mc limits p" and bytes: "envelope_bytes mc p = Inr envelope"
    and small: "\<not> exceeds (length envelope) (max_envelope_bytes limits)"
    by (auto simp: parse_envelope_ok)
  have cs: "list_all2 (canonical_signature mc limits) REQUIRED_SIGNATURES (signatures p)"
    using canon by (simp add: canonical_envelope_def)
  have "sign_each mc signer limits m (body_protected p) (payload p) REQUIRED_SIGNATURES
      = Inr (map to_encoded (signatures p))"
    unfolding sign_each_ok list_all2_map2 using signed cs unfolding list_all2_iff
    by (auto intro: made_signature [of limits])
      (auto simp: canonical_signature_def to_encoded_def)
  with p pl canon bytes small show ?l
    by (simp add: sign_manifest_cose_with_limits_def canonical_envelope_def envelope_bytes_def)
qed

end

end
