(* ===== verification/Rfc8949.thy ===== *)
theory Rfc8949
  imports Cose_Laws
begin

text \<open>
  The wire format of RFC 8949 as a provider of the CBOR interface: preferred (shortest)
  encoding of heads on the writing side, all well-formed heads on the reading side, with the
  type classification by initial byte that \<open>minicbor\<close> documents.  It discharges the laws of
  both interfaces, which gives every fact about the codec and the envelope for it; the
  witnesses run the codec on it.
\<close>

section \<open>Big-endian arguments\<close>

fun be_bytes :: "nat \<Rightarrow> nat \<Rightarrow> bytes" where
  "be_bytes 0 n = []"
| "be_bytes (Suc k) n = be_bytes k (n div 256) @ [of_nat (n mod 256)]"

definition be_value :: "bytes \<Rightarrow> nat" where
  "be_value bs = foldl (\<lambda>a b. a * 256 + unat b) 0 bs"

lemma length_be_bytes [simp]: "length (be_bytes k n) = k"
  by (induction k n rule: be_bytes.induct) simp_all

lemma unat_byte: "n < 256 \<Longrightarrow> unat (of_nat n :: u8) = n"
  by (simp add: unat_of_nat)

lemma be_value_be_bytes: "n < 256 ^ k \<Longrightarrow> be_value (be_bytes k n) = n"
proof (induction k n rule: be_bytes.induct)
  case (1 n)
  then show ?case by (simp add: be_value_def)
next
  case (2 k n)
  then have "n div 256 < 256 ^ k" by (simp add: less_mult_imp_div_less mult.commute)
  with 2 have "be_value (be_bytes k (n div 256)) = n div 256" by simp
  then show ?case by (simp add: be_value_def unat_byte)
qed

section \<open>Heads\<close>

definition initial_byte :: "nat \<Rightarrow> nat \<Rightarrow> u8" where
  "initial_byte major info = of_nat (major * 32 + info)"

definition head_bytes :: "nat \<Rightarrow> nat \<Rightarrow> bytes" where
  "head_bytes major n =
     (if n < 24 then [initial_byte major n]
      else if n < 2 ^ 8 then initial_byte major 24 # be_bytes 1 n
      else if n < 2 ^ 16 then initial_byte major 25 # be_bytes 2 n
      else if n < 2 ^ 32 then initial_byte major 26 # be_bytes 4 n
      else initial_byte major 27 # be_bytes 8 n)"

text \<open>Major type, argument and length of the head in front.\<close>

definition argument_size :: "nat \<Rightarrow> nat" where
  "argument_size info = 2 ^ (info - 24)"

definition read_head :: "bytes \<Rightarrow> str + nat \<times> nat \<times> nat" where
  "read_head bs = (case bs of
      [] \<Rightarrow> Inl ''end of input bytes''
    | b # r \<Rightarrow>
        (let major = unat b div 32; info = unat b mod 32; k = argument_size info in
         if info < 24 then Inr (major, info, 1)
         else if info \<le> 27 then
           (if length r < k then Inl ''end of input bytes''
            else Inr (major, be_value (take k r), Suc k))
         else Inl ''unexpected additional information''))"

lemma unat_initial_byte:
  "major < 8 \<Longrightarrow> info < 32 \<Longrightarrow> unat (initial_byte major info) = major * 32 + info"
  unfolding initial_byte_def by (rule unat_byte) linarith

lemma initial_byte_parts:
  assumes "major < 8" and "info < 32"
  shows "unat (initial_byte major info) div 32 = major"
    and "unat (initial_byte major info) mod 32 = info"
  using assms by (simp_all add: unat_initial_byte)

lemma read_head_sized:
  assumes "major < 8" "info \<in> {24, 25, 26, 27}" "n < 256 ^ argument_size info"
  shows "read_head (initial_byte major info # be_bytes (argument_size info) n @ r)
    = Inr (major, n, Suc (argument_size info))"
  using assms
  by (auto simp: read_head_def initial_byte_parts Let_def be_value_be_bytes)

lemma read_head_head:
  assumes "major < 8" and "n < 2 ^ 64"
  shows "read_head (head_bytes major n @ r) = Inr (major, n, length (head_bytes major n))"
proof -
  consider "n < 24" | "24 \<le> n" "n < 2 ^ 8" | "2 ^ 8 \<le> n" "n < 2 ^ 16"
    | "2 ^ 16 \<le> n" "n < 2 ^ 32" | "2 ^ 32 \<le> n" "n < 2 ^ 64"
    using assms(2) by linarith
  then show ?thesis
  proof cases
    case 1
    with assms show ?thesis
      by (simp add: head_bytes_def read_head_def initial_byte_parts Let_def)
  next
    case 2
    with assms read_head_sized [of major 24 n r] show ?thesis
      by (simp add: head_bytes_def argument_size_def)
  next
    case 3
    with assms read_head_sized [of major 25 n r] show ?thesis
      by (simp add: head_bytes_def argument_size_def)
  next
    case 4
    with assms read_head_sized [of major 26 n r] show ?thesis
      by (simp add: head_bytes_def argument_size_def)
  next
    case 5
    with assms read_head_sized [of major 27 n r] show ?thesis
      by (simp add: head_bytes_def argument_size_def)
  qed
qed

lemma head_bytes_not_Nil [simp]: "head_bytes major n \<noteq> []"
  by (simp add: head_bytes_def)

text \<open>The initial byte of a head, for the classification.\<close>

lemma be_bytes_Nil [simp]: "be_bytes k n = [] \<longleftrightarrow> k = 0"
  by (metis length_be_bytes length_0_conv)

lemma head_bytes_Cons:
  obtains info as where "head_bytes major n = initial_byte major info # as"
    and "info \<le> 27" and "info < 24 \<longleftrightarrow> as = []"
proof -
  have short: "head_bytes major n = [initial_byte major n]" if "n < 24"
    using that by (simp add: head_bytes_def)
  have long: "\<exists>(info, k) \<in> {(24, 1), (25, 2), (26, 4), (27, 8)}.
      head_bytes major n = initial_byte major info # be_bytes k n" if "\<not> n < 24"
    using that by (simp add: head_bytes_def)
  show ?thesis
  proof (cases "n < 24")
    case True
    with short that [of n "[]"] show ?thesis by simp
  next
    case False
    with long obtain info k where "head_bytes major n = initial_byte major info # be_bytes k n"
      and "24 \<le> info" and "info \<le> 27" and "k \<noteq> 0" by (auto simp del: be_bytes.simps)
    with that [of info "be_bytes k n"] show ?thesis by simp
  qed
qed

section \<open>Reading\<close>

text \<open>
  The type by initial byte.  A negative integer with an argument is classified by the sign
  bit of the argument's first byte, which the reader peeks at.
\<close>

definition peek_negative :: "bytes \<Rightarrow> cbor_type \<Rightarrow> cbor_type \<Rightarrow> str + cbor_type" where
  "peek_negative r small big = (case r of
      [] \<Rightarrow> Inl ''end of input bytes''
    | c # _ \<Rightarrow> Inr (if unat c < 128 then small else big))"

definition rfc_datatype :: "decoder \<Rightarrow> str + cbor_type" where
  "rfc_datatype d = (case remaining d of
      [] \<Rightarrow> Inl ''end of input bytes''
    | b # r \<Rightarrow>
        (let n = unat b in
         if n \<le> 0x18 then Inr T_U8
         else if n = 0x19 then Inr T_U16
         else if n = 0x1A then Inr T_U32
         else if n = 0x1B then Inr T_U64
         else if 0x20 \<le> n \<and> n \<le> 0x37 then Inr T_I8
         else if n = 0x38 then peek_negative r T_I8 T_I16
         else if n = 0x39 then peek_negative r T_I16 T_I32
         else if n = 0x3A then peek_negative r T_I32 T_I64
         else if n = 0x3B then peek_negative r T_I64 T_Int
         else if 0x40 \<le> n \<and> n \<le> 0x5B then Inr T_Bytes
         else if n = 0x5F then Inr T_BytesIndef
         else if 0x60 \<le> n \<and> n \<le> 0x7B then Inr T_String
         else if n = 0x7F then Inr T_StringIndef
         else if 0x80 \<le> n \<and> n \<le> 0x9B then Inr T_Array
         else if n = 0x9F then Inr T_ArrayIndef
         else if 0xA0 \<le> n \<and> n \<le> 0xBB then Inr T_Map
         else if n = 0xBF then Inr T_MapIndef
         else if 0xC0 \<le> n \<and> n \<le> 0xDB then Inr T_Tag
         else if 0xE0 \<le> n \<and> n \<le> 0xF3 \<or> n = 0xF8 then Inr T_Simple
         else if n = 0xF4 \<or> n = 0xF5 then Inr T_Bool
         else if n = 0xF6 then Inr T_Null
         else if n = 0xF7 then Inr T_Undefined
         else if n = 0xF9 then Inr T_F16
         else if n = 0xFA then Inr T_F32
         else if n = 0xFB then Inr T_F64
         else if n = 0xFF then Inr T_Break
         else Inr (T_Unknown b)))"

definition unexpected :: str where
  "unexpected = ''unexpected type''"

definition rfc_bool :: "decoder \<Rightarrow> str + bool \<times> decoder" where
  "rfc_bool d = (case remaining d of
      [] \<Rightarrow> Inl ''end of input bytes''
    | b # _ \<Rightarrow>
        if b = 0xF4 then Inr (False, advance 1 d)
        else if b = 0xF5 then Inr (True, advance 1 d)
        else Inl unexpected)"

definition rfc_u64 :: "decoder \<Rightarrow> str + u64 \<times> decoder" where
  "rfc_u64 d = and_then (read_head (remaining d)) (\<lambda>(major, n, used).
     if major = 0 then Inr (of_nat n, advance used d) else Inl unexpected)"

definition rfc_i64 :: "decoder \<Rightarrow> str + i64 \<times> decoder" where
  "rfc_i64 d = and_then (read_head (remaining d)) (\<lambda>(major, n, used).
     if major > 1 then Inl unexpected
     else if n \<ge> 2 ^ 63 then Inl ''integer overflow''
     else if major = 0 then Inr (of_nat n, advance used d)
     else Inr (word_of_int (- 1 - int n), advance used d))"

definition rfc_bytes :: "decoder \<Rightarrow> str + bytes \<times> decoder" where
  "rfc_bytes d = and_then (read_head (remaining d)) (\<lambda>(major, n, used).
     if major \<noteq> 2 then Inl unexpected
     else if length (remaining d) < used + n then Inl ''end of input bytes''
     else Inr (take n (drop used (remaining d)), advance (used + n) d))"

definition rfc_str :: "decoder \<Rightarrow> str + str \<times> decoder" where
  "rfc_str d = and_then (read_head (remaining d)) (\<lambda>(major, n, used).
     if major \<noteq> 3 then Inl unexpected
     else if length (remaining d) < used + n then Inl ''end of input bytes''
     else case from_utf8 (take n (drop used (remaining d))) of
         None \<Rightarrow> Inl ''invalid utf-8''
       | Some s \<Rightarrow> Inr (s, advance (used + n) d))"

definition rfc_length :: "nat \<Rightarrow> decoder \<Rightarrow> str + u64 option \<times> decoder" where
  "rfc_length mj d = (case remaining d of
      [] \<Rightarrow> Inl ''end of input bytes''
    | b # _ \<Rightarrow>
        if unat b = mj * 32 + 31 then Inr (None, advance 1 d)
        else and_then (read_head (remaining d)) (\<lambda>(major, n, used).
          if major = mj then Inr (Some (of_nat n), advance used d) else Inl unexpected))"

section \<open>Writing\<close>

definition rfc_enc_bool :: "bool \<Rightarrow> str + bytes" where
  "rfc_enc_bool b = Inr [if b then 0xF5 else 0xF4]"

definition rfc_enc_u8 :: "u8 \<Rightarrow> str + bytes" where
  "rfc_enc_u8 v = Inr (head_bytes 0 (unat v))"

definition rfc_enc_u64 :: "u64 \<Rightarrow> str + bytes" where
  "rfc_enc_u64 v = Inr (head_bytes 0 (unat v))"

definition rfc_enc_i64 :: "i64 \<Rightarrow> str + bytes" where
  "rfc_enc_i64 v =
     (if sint v < 0 then Inr (head_bytes 1 (nat (- 1 - sint v)))
      else Inr (head_bytes 0 (nat (sint v))))"

definition rfc_enc_str :: "str \<Rightarrow> str + bytes" where
  "rfc_enc_str s = Inr (head_bytes 3 (length s) @ as_bytes s)"

definition rfc_enc_bytes :: "bytes \<Rightarrow> str + bytes" where
  "rfc_enc_bytes w = Inr (head_bytes 2 (length w) @ w)"

definition rfc_enc_length :: "nat \<Rightarrow> u64 \<Rightarrow> str + bytes" where
  "rfc_enc_length mj n = Inr (head_bytes mj (unat n))"

definition type_name :: "cbor_type \<Rightarrow> str" where
  "type_name t = (case t of
      T_Bool \<Rightarrow> ''Bool'' | T_Null \<Rightarrow> ''Null'' | T_Undefined \<Rightarrow> ''Undefined''
    | T_U8 \<Rightarrow> ''U8'' | T_U16 \<Rightarrow> ''U16'' | T_U32 \<Rightarrow> ''U32'' | T_U64 \<Rightarrow> ''U64''
    | T_I8 \<Rightarrow> ''I8'' | T_I16 \<Rightarrow> ''I16'' | T_I32 \<Rightarrow> ''I32'' | T_I64 \<Rightarrow> ''I64''
    | T_Int \<Rightarrow> ''Int'' | T_F16 \<Rightarrow> ''F16'' | T_F32 \<Rightarrow> ''F32'' | T_F64 \<Rightarrow> ''F64''
    | T_Simple \<Rightarrow> ''Simple'' | T_Bytes \<Rightarrow> ''Bytes'' | T_BytesIndef \<Rightarrow> ''BytesIndef''
    | T_String \<Rightarrow> ''String'' | T_StringIndef \<Rightarrow> ''StringIndef'' | T_Array \<Rightarrow> ''Array''
    | T_ArrayIndef \<Rightarrow> ''ArrayIndef'' | T_Map \<Rightarrow> ''Map'' | T_MapIndef \<Rightarrow> ''MapIndef''
    | T_Tag \<Rightarrow> ''Tag'' | T_Break \<Rightarrow> ''Break''
    | T_Unknown b \<Rightarrow> ''Unknown('' @ decimal (unat b) @ '')'')"

definition rfc8949 :: minicbor where
  "rfc8949 = \<lparr>mc_datatype = rfc_datatype, mc_bool = rfc_bool, mc_u64 = rfc_u64,
     mc_i64 = rfc_i64, mc_str = rfc_str, mc_bytes = rfc_bytes, mc_array = rfc_length 4,
     mc_map = rfc_length 5, me_bool = rfc_enc_bool, me_u8 = rfc_enc_u8, me_u64 = rfc_enc_u64,
     me_i64 = rfc_enc_i64, me_str = rfc_enc_str, me_bytes = rfc_enc_bytes,
     me_array = rfc_enc_length 4, me_map = rfc_enc_length 5, mc_type_debug = type_name\<rparr>"

section \<open>The laws\<close>

lemma datatype_of_head:
  assumes "remaining d = head_bytes major n @ r" and "major < 8"
  obtains info as where "remaining d = initial_byte major info # as @ r"
    and "unat (initial_byte major info) = major * 32 + info"
    and "info \<le> 27" and "info < 24 \<longleftrightarrow> as = []"
proof -
  obtain info as where h: "head_bytes major n = initial_byte major info # as"
    "info \<le> 27" "info < 24 \<longleftrightarrow> as = []"
    by (rule head_bytes_Cons)
  with that [of info as] assms show ?thesis by (simp add: unat_initial_byte)
qed

lemma datatype_unsigned:
  assumes "remaining d = head_bytes 0 n @ r"
  shows "\<exists>t \<in> unsigned_types. rfc_datatype d = Inr t"
proof -
  obtain info as where "remaining d = initial_byte 0 info # as @ r"
    "unat (initial_byte 0 info) = 0 * 32 + info" "info \<le> 27"
    by (rule datatype_of_head [OF assms]) simp_all
  then show ?thesis
    by (simp add: rfc_datatype_def unsigned_types_def Let_def)
qed

lemma datatype_text:
  "remaining d = head_bytes 3 n @ r \<Longrightarrow> rfc_datatype d = Inr T_String"
  by (erule datatype_of_head) (simp_all add: rfc_datatype_def Let_def)

lemma datatype_bytes:
  "remaining d = head_bytes 2 n @ r \<Longrightarrow> rfc_datatype d = Inr T_Bytes"
  by (erule datatype_of_head) (simp_all add: rfc_datatype_def Let_def)

lemma datatype_array:
  "remaining d = head_bytes 4 n @ r \<Longrightarrow> rfc_datatype d = Inr T_Array"
  by (erule datatype_of_head) (simp_all add: rfc_datatype_def Let_def)

lemma datatype_map:
  "remaining d = head_bytes 5 n @ r \<Longrightarrow> rfc_datatype d = Inr T_Map"
  by (erule datatype_of_head) (simp_all add: rfc_datatype_def Let_def)

lemma length_of_head:
  assumes "remaining d = head_bytes mj n @ r" and "mj < 8" and "n < 2 ^ 64"
  shows "rfc_length mj d = Inr (Some (of_nat n), advance (length (head_bytes mj n)) d)"
proof -
  obtain info as where "remaining d = initial_byte mj info # as @ r"
    "unat (initial_byte mj info) = mj * 32 + info" "info \<le> 27"
    by (rule datatype_of_head [OF assms(1,2)])
  then have "rfc_length mj d = and_then (read_head (remaining d)) (\<lambda>(major, n, used).
      if major = mj then Inr (Some (of_nat n), advance used d) else Inl unexpected)"
    by (simp add: rfc_length_def)
  with assms show ?thesis by (simp add: read_head_head)
qed

text \<open>Negative integers: the peeked byte never says \<open>Int\<close> for the value of an \<open>i64\<close>.\<close>

lemma be_bytes_first:
  "\<exists>as. be_bytes (Suc k) n = of_nat (n div 256 ^ k mod 256) # as"
proof (induction k arbitrary: n)
  case 0
  then show ?case by simp
next
  case (Suc k)
  obtain as where "be_bytes (Suc k) (n div 256) = of_nat (n div 256 div 256 ^ k mod 256) # as"
    using Suc by blast
  moreover have "be_bytes (Suc (Suc k)) n = be_bytes (Suc k) (n div 256) @ [of_nat (n mod 256)]"
    by (rule be_bytes.simps)
  ultimately show ?case by (simp add: div_mult2_eq)
qed

lemma datatype_negative:
  assumes r: "remaining d = head_bytes 1 n @ r" and n: "n < 2 ^ 63"
  shows "\<exists>t \<in> negative_types. rfc_datatype d = Inr t"
proof (cases "n < 2 ^ 32")
  case True
  show ?thesis
  proof (cases "n < 24")
    case True
    then have "remaining d = initial_byte 1 n # r" using r by (simp add: head_bytes_def)
    with True show ?thesis
      by (simp add: rfc_datatype_def unat_initial_byte Let_def negative_types_def)
  next
    case False
    then have "\<exists>(info, k) \<in> {(24, 1), (25, 2), (26, 4)}.
        head_bytes 1 n = initial_byte 1 info # be_bytes k n"
      using True by (simp add: head_bytes_def del: be_bytes.simps)
    then obtain info k where k: "(info, k) \<in> {(24, 1), (25, 2), (26, 4)}"
      and h: "head_bytes 1 n = initial_byte 1 info # be_bytes k n" by blast
    from k have "k \<noteq> 0" by auto
    then obtain c as where c: "be_bytes k n = c # as"
      using be_bytes_Nil [of k n] by (metis neq_Nil_conv)
    have rem: "remaining d = initial_byte 1 info # c # as @ r"
      using r unfolding h c by simp
    from k consider "info = 24" | "info = 25" | "info = 26" by auto
    then show ?thesis
      by cases (simp_all add: rfc_datatype_def rem unat_initial_byte Let_def peek_negative_def
          negative_types_def)
  qed
next
  case False
  then have "remaining d = initial_byte 1 27 # be_bytes 8 n @ r"
    using r by (simp add: head_bytes_def del: be_bytes.simps)
  moreover obtain as where "be_bytes 8 n = of_nat (n div 256 ^ 7 mod 256) # as"
    using be_bytes_first [of 7 n] by (auto simp del: be_bytes.simps)
  moreover have "n div 256 ^ 7 mod 256 < 128"
    using n by (simp add: less_mult_imp_div_less)
  ultimately show ?thesis
    by (simp add: rfc_datatype_def unat_initial_byte Let_def peek_negative_def
        negative_types_def unat_byte del: be_bytes.simps)
qed

lemma ucast_u8_value: "unat (v :: u8) < 2 ^ 63"
proof -
  have "unat v < 2 ^ 8" using unsigned_less [of v] by simp
  then show ?thesis by simp
qed

lemma rfc_i64_nonneg:
  assumes "remaining d = head_bytes 0 n @ r" and "n < 2 ^ 63"
  shows "rfc_i64 d = Inr (of_nat n, advance (length (head_bytes 0 n)) d)"
  using assms by (simp add: rfc_i64_def read_head_head)

lemma rfc_i64_negative:
  assumes "remaining d = head_bytes 1 (nat (- 1 - sint i)) @ r" and "sint (i :: i64) < 0"
  shows "rfc_i64 d = Inr (i, advance (length (head_bytes 1 (nat (- 1 - sint i)))) d)"
proof -
  have "nat (- 1 - sint i) < 2 ^ 63"
    using assms(2) sint_i64_bounds (1) [of i] by simp
  with assms show ?thesis by (simp add: rfc_i64_def read_head_head)
qed

lemma rfc_str_written:
  assumes "remaining d = head_bytes 3 (length s) @ as_bytes s @ r"
    and "valid_utf8 s" and "length s < 2 ^ 64"
  shows "rfc_str d = Inr (s, advance (length (head_bytes 3 (length s)) + length s) d)"
  using assms by (simp add: rfc_str_def read_head_head from_utf8_as_bytes)

lemma rfc_bytes_written:
  assumes "remaining d = head_bytes 2 (length w) @ w @ r" and "length w < 2 ^ 64"
  shows "rfc_bytes d = Inr (w, advance (length (head_bytes 2 (length w)) + length w) d)"
  using assms by (simp add: rfc_bytes_def read_head_head)

lemma rfc_str_utf8: "rfc_str d = Inr (s, d') \<Longrightarrow> valid_utf8 s"
  by (auto simp: rfc_str_def result_iff from_utf8_Some split: if_splits option.splits)

lemma rfc_i64_written:
  assumes "rfc_enc_i64 i = Inr bs" and "remaining d = bs @ r"
  shows "rfc_i64 d = Inr (i, advance (length bs) d)"
proof (cases "sint i < 0")
  case True
  with assms show ?thesis by (auto simp: rfc_enc_i64_def rfc_i64_negative)
next
  case False
  have "nat (sint i) < 2 ^ 63" using sint_i64_bounds (2) [of i] False by simp
  with False assms show ?thesis by (auto simp: rfc_enc_i64_def rfc_i64_nonneg)
qed

lemma negative_argument: "sint (i :: i64) < 0 \<Longrightarrow> nat (- 1 - sint i) < 2 ^ 63"
  using sint_i64_bounds (1) [of i] by simp

lemmas rfc_defs = rfc8949_def rfc_enc_bool_def rfc_enc_u8_def rfc_enc_u64_def rfc_enc_str_def
  rfc_enc_bytes_def rfc_enc_length_def

interpretation rfc_items: cbor_data_items rfc8949
proof
  show "is_ok (me_bool rfc8949 b)" "is_ok (me_u64 rfc8949 u)" "is_ok (me_i64 rfc8949 i)"
    "is_ok (me_str rfc8949 s)" "is_ok (me_array rfc8949 u)" "is_ok (me_map rfc8949 u)" for b u i s
    by (simp_all add: rfc_defs rfc_enc_i64_def)
next
  show "mc_datatype rfc8949 d = Inr T_Bool \<and> mc_bool rfc8949 d = Inr (b, advance (length bs) d)"
    if "me_bool rfc8949 b = Inr bs" and "remaining d = bs @ r" for b bs d r
    using that by (cases b) (auto simp: rfc_defs rfc_datatype_def rfc_bool_def)
next
  show "(\<exists>t \<in> unsigned_types. mc_datatype rfc8949 d = Inr t)
      \<and> mc_u64 rfc8949 d = Inr (u, advance (length bs) d)"
    if "me_u64 rfc8949 u = Inr bs" and "remaining d = bs @ r" for u bs d r
    using that datatype_unsigned [of d "unat u" r] unat_u64_less [of u]
    by (auto simp: rfc_defs rfc_u64_def read_head_head)
next
  show "(\<exists>t \<in> negative_types. mc_datatype rfc8949 d = Inr t)
      \<and> mc_i64 rfc8949 d = Inr (i, advance (length bs) d)"
    if "me_i64 rfc8949 i = Inr bs" and "sint i < 0" and "remaining d = bs @ r" for i bs d r
    using that datatype_negative [OF _ negative_argument, of d i r] rfc_i64_written [of i bs d r]
    by (auto simp: rfc8949_def rfc_enc_i64_def)
next
  show "mc_datatype rfc8949 d = Inr T_String \<and> mc_str rfc8949 d = Inr (s, advance (length bs) d)"
    if "me_str rfc8949 s = Inr bs" and "valid_utf8 s" and "length s < 2 ^ 64"
      and "remaining d = bs @ r" for s bs d r
    using that by (auto simp: rfc_defs rfc_str_written datatype_text)
next
  show "mc_datatype rfc8949 d = Inr T_Array
      \<and> mc_array rfc8949 d = Inr (Some u, advance (length bs) d)"
    if "me_array rfc8949 u = Inr bs" and "remaining d = bs @ r" for u bs d r
    using that unat_u64_less [of u]
    by (auto simp: rfc_defs datatype_array length_of_head)
next
  show "mc_datatype rfc8949 d = Inr T_Map \<and> mc_map rfc8949 d = Inr (Some u, advance (length bs) d)"
    if "me_map rfc8949 u = Inr bs" and "remaining d = bs @ r" for u bs d r
    using that unat_u64_less [of u]
    by (auto simp: rfc_defs datatype_map length_of_head)
next
  show "valid_utf8 s" if "mc_str rfc8949 d = Inr (s, d')" for d s d'
    using that by (simp add: rfc8949_def rfc_str_utf8)
next
  show "\<not> is_ok (mc_datatype rfc8949 d)" if "remaining d = []" for d
    using that by (simp add: rfc8949_def rfc_datatype_def)
qed

interpretation rfc: cbor_cose_items rfc8949
proof
  show "is_ok (me_u8 rfc8949 v)" "is_ok (me_bytes rfc8949 w)" for v w
    by (simp_all add: rfc_defs)
next
  show "mc_i64 rfc8949 d = Inr (ucast v, advance (length bs) d)"
    if "me_u8 rfc8949 v = Inr bs" and "remaining d = bs @ r" for v bs d r
    using that rfc_i64_nonneg [of d "unat v" r] ucast_u8_value [of v]
    by (simp add: rfc_defs)
next
  show "mc_i64 rfc8949 d = Inr (i, advance (length bs) d)"
    if "me_i64 rfc8949 i = Inr bs" and "remaining d = bs @ r" for i bs d r
    using that rfc_i64_written [of i bs d r] by (simp add: rfc8949_def)
next
  show "mc_datatype rfc8949 d = Inr T_Bytes
      \<and> mc_bytes rfc8949 d = Inr (w, advance (length bs) d)"
    if "me_bytes rfc8949 w = Inr bs" and "length w < 2 ^ 64" and "remaining d = bs @ r" for w bs d r
    using that by (auto simp: rfc_defs rfc_bytes_written datatype_bytes)
next
  show "length w \<le> length bs" if "me_bytes rfc8949 w = Inr bs" for w bs
    using that by (auto simp: rfc_defs)
qed

end
