(* ===== verification/Samples.thy ===== *)
theory Samples
  imports Manifest_Value Cose_Laws Rfc8949
begin

text \<open>
  A concrete instance of everything the model takes as an argument, for the witnesses: the
  committed vector \<open>test-vectors/manifest.valid.json\<close> as a manifest, the derived
  (de)serialisation, and a URL parser for plain origins.
\<close>

section \<open>The libraries\<close>

text \<open>
  \<open>Url::parse\<close> on \<open>https\<close> URLs of a host and a path, the forms the sample uses; everything
  else is refused.  An empty path is normalised to \<open>/\<close>, as the URL standard says.
\<close>

definition https_prefix :: str where
  "https_prefix = ''https://''"

definition host_char :: "char \<Rightarrow> bool" where
  "host_char c \<longleftrightarrow> is_ascii_alphanumeric c \<or> c = CHR ''.'' \<or> c = CHR ''-''"

definition parse_https_url :: "str \<Rightarrow> str + url" where
  "parse_https_url s =
     (let rest = drop (length https_prefix) s;
          host = takeWhile host_char rest;
          path = drop (length host) rest in
      if take (length https_prefix) s \<noteq> https_prefix then Inl ''relative URL without a base''
      else if host = [] then Inl ''empty host''
      else if path \<noteq> [] \<and> hd path \<noteq> CHR ''/'' then Inl ''invalid domain character''
      else Inr \<lparr>url_scheme = ''https'', url_cannot_be_a_base = False,
        url_path = (if path = [] then ''/'' else path), url_query = None, url_fragment = None,
        url_username = [], url_password = None\<rparr>)"

definition reference_crates :: crates where
  "reference_crates = \<lparr>
     url_parse = parse_https_url,
     to_value = derived_to_value,
     from_value = derived_from_value,
     jcs_to_vec = (\<lambda>m. Inl ''no canonical form''),
     sha512_hex = (\<lambda>bs. [])\<rparr>"

section \<open>The committed manifest vector\<close>

definition ed25519_sha256 :: str where
  "ed25519_sha256 = ''7fe64728f1a7bb8c6c103f49c0e2ed0e999678229256c7aab813634cc6c85ba9''"

definition ml_dsa_65_sha256 :: str where
  "ml_dsa_65_sha256 = ''85acf51bf7260bc7009f1b3d6b8a4f6d0442bf21ea91a86fe7cbb282edb317cb''"

definition sample_key :: "str \<Rightarrow> str \<Rightarrow> key_descriptor" where
  "sample_key alg sha = \<lparr>
     algorithm = alg,
     key_id = ''release-1'',
     public_key_uri = ''/.well-known/keys/'' @ alg @ ''.pem'',
     public_key_sha256 = sha,
     status = ''active'',
     usage = [''release'']\<rparr>"

definition sample_manifest :: manifest where
  "sample_manifest = \<lparr>
     tfws_version = ''3.0'',
     subject = ''https://example.com'',
     environment = ''production'',
     operator_of = \<lparr>name = ''Example Organization'', jurisdiction = None\<rparr>,
     key_epoch = 1,
     keys = [sample_key ''ed25519'' ed25519_sha256, sample_key ''ml-dsa-65'' ml_dsa_65_sha256],
     policy_of = \<lparr>policy_id = ''tfws.hybrid.baseline.v1'',
       required_algorithms = [''ed25519'', ''ml-dsa-65'']\<rparr>,
     capabilities_of = \<lparr>required = [''core.v1'', ''identity.v1'', ''transparency.v1'', ''recovery.v1''],
       optional = []\<rparr>,
     identity = None,
     artifacts = [],
     updated_at = ''2026-07-21T00:00:00Z'',
     expires_at = Some ''2027-07-21T00:00:00Z''\<rparr>"

lemma sample_valid: "validate reference_crates sample_manifest = Inr ()"
  by code_simp

interpretation reference: manifest_codec rfc8949 reference_crates
  by unfold_locales
    (simp_all add: reference_crates_def derived_to_value_def derived_from_value_compact)

text \<open>The smallest manifest of the policy: a development manifest without keys.\<close>

definition small_manifest :: manifest where
  "small_manifest = \<lparr>
     tfws_version = ''3.0'',
     subject = ''https://a.b'',
     environment = ''development'',
     operator_of = \<lparr>name = ''A'', jurisdiction = None\<rparr>,
     key_epoch = 1,
     keys = [],
     policy_of = \<lparr>policy_id = ''tfws.hybrid.baseline.v1'',
       required_algorithms = [''ed25519'', ''ml-dsa-65'']\<rparr>,
     capabilities_of = \<lparr>required = [], optional = []\<rparr>,
     identity = None,
     artifacts = [],
     updated_at = [],
     expires_at = None\<rparr>"

lemma small_encoded: "is_ok (encode_manifest_cbor rfc8949 reference_crates small_manifest)"
  by code_simp

lemma small_wf: "wf_manifest small_manifest"
  by code_simp

section \<open>The committed CBOR vector\<close>

text \<open>
  \<open>positive.manifest_cbor_hex\<close> of
  \<open>test-vectors/hybrid-signature-v1/issue7-cbor-cose-cross-language-v1.json\<close>, byte by byte:
  the model of the codec over the reference wire format produces it.
\<close>

definition manifest_vector :: bytes where
  "manifest_vector = [
     171, 100, 107, 101, 121, 115, 130, 166, 101, 117, 115, 97, 103, 101, 129, 103, 114,
     101, 108, 101, 97, 115, 101, 102, 107, 101, 121, 95, 105, 100, 105, 114, 101, 108, 101,
     97, 115, 101, 45, 49, 102, 115, 116, 97, 116, 117, 115, 102, 97, 99, 116, 105, 118,
     101, 105, 97, 108, 103, 111, 114, 105, 116, 104, 109, 103, 101, 100, 50, 53, 53, 49,
     57, 110, 112, 117, 98, 108, 105, 99, 95, 107, 101, 121, 95, 117, 114, 105, 120, 29, 47,
     46, 119, 101, 108, 108, 45, 107, 110, 111, 119, 110, 47, 107, 101, 121, 115, 47, 101,
     100, 50, 53, 53, 49, 57, 46, 112, 101, 109, 113, 112, 117, 98, 108, 105, 99, 95, 107,
     101, 121, 95, 115, 104, 97, 50, 53, 54, 120, 64, 55, 102, 101, 54, 52, 55, 50, 56, 102,
     49, 97, 55, 98, 98, 56, 99, 54, 99, 49, 48, 51, 102, 52, 57, 99, 48, 101, 50, 101, 100,
     48, 101, 57, 57, 57, 54, 55, 56, 50, 50, 57, 50, 53, 54, 99, 55, 97, 97, 98, 56, 49,
     51, 54, 51, 52, 99, 99, 54, 99, 56, 53, 98, 97, 57, 166, 101, 117, 115, 97, 103, 101,
     129, 103, 114, 101, 108, 101, 97, 115, 101, 102, 107, 101, 121, 95, 105, 100, 105, 114,
     101, 108, 101, 97, 115, 101, 45, 49, 102, 115, 116, 97, 116, 117, 115, 102, 97, 99,
     116, 105, 118, 101, 105, 97, 108, 103, 111, 114, 105, 116, 104, 109, 105, 109, 108, 45,
     100, 115, 97, 45, 54, 53, 110, 112, 117, 98, 108, 105, 99, 95, 107, 101, 121, 95, 117,
     114, 105, 120, 31, 47, 46, 119, 101, 108, 108, 45, 107, 110, 111, 119, 110, 47, 107,
     101, 121, 115, 47, 109, 108, 45, 100, 115, 97, 45, 54, 53, 46, 112, 101, 109, 113, 112,
     117, 98, 108, 105, 99, 95, 107, 101, 121, 95, 115, 104, 97, 50, 53, 54, 120, 64, 56,
     53, 97, 99, 102, 53, 49, 98, 102, 55, 50, 54, 48, 98, 99, 55, 48, 48, 57, 102, 49, 98,
     51, 100, 54, 98, 56, 97, 52, 102, 54, 100, 48, 52, 52, 50, 98, 102, 50, 49, 101, 97,
     57, 49, 97, 56, 54, 102, 101, 55, 99, 98, 98, 50, 56, 50, 101, 100, 98, 51, 49, 55, 99,
     98, 103, 115, 117, 98, 106, 101, 99, 116, 115, 104, 116, 116, 112, 115, 58, 47, 47,
     101, 120, 97, 109, 112, 108, 101, 46, 99, 111, 109, 104, 111, 112, 101, 114, 97, 116,
     111, 114, 161, 100, 110, 97, 109, 101, 116, 69, 120, 97, 109, 112, 108, 101, 32, 79,
     114, 103, 97, 110, 105, 122, 97, 116, 105, 111, 110, 105, 97, 114, 116, 105, 102, 97,
     99, 116, 115, 128, 105, 107, 101, 121, 95, 101, 112, 111, 99, 104, 1, 106, 101, 120,
     112, 105, 114, 101, 115, 95, 97, 116, 116, 50, 48, 50, 55, 45, 48, 55, 45, 50, 49, 84,
     48, 48, 58, 48, 48, 58, 48, 48, 90, 106, 117, 112, 100, 97, 116, 101, 100, 95, 97, 116,
     116, 50, 48, 50, 54, 45, 48, 55, 45, 50, 49, 84, 48, 48, 58, 48, 48, 58, 48, 48, 90,
     107, 101, 110, 118, 105, 114, 111, 110, 109, 101, 110, 116, 106, 112, 114, 111, 100,
     117, 99, 116, 105, 111, 110, 108, 99, 97, 112, 97, 98, 105, 108, 105, 116, 105, 101,
     115, 162, 104, 111, 112, 116, 105, 111, 110, 97, 108, 128, 104, 114, 101, 113, 117,
     105, 114, 101, 100, 132, 103, 99, 111, 114, 101, 46, 118, 49, 107, 105, 100, 101, 110,
     116, 105, 116, 121, 46, 118, 49, 111, 116, 114, 97, 110, 115, 112, 97, 114, 101, 110,
     99, 121, 46, 118, 49, 107, 114, 101, 99, 111, 118, 101, 114, 121, 46, 118, 49, 108,
     116, 102, 119, 115, 95, 118, 101, 114, 115, 105, 111, 110, 99, 51, 46, 48, 112, 115,
     105, 103, 110, 97, 116, 117, 114, 101, 95, 112, 111, 108, 105, 99, 121, 162, 105, 112,
     111, 108, 105, 99, 121, 95, 105, 100, 119, 116, 102, 119, 115, 46, 104, 121, 98, 114,
     105, 100, 46, 98, 97, 115, 101, 108, 105, 110, 101, 46, 118, 49, 115, 114, 101, 113,
     117, 105, 114, 101, 100, 95, 97, 108, 103, 111, 114, 105, 116, 104, 109, 115, 130, 103,
     101, 100, 50, 53, 53, 49, 57, 105, 109, 108, 45, 100, 115, 97, 45, 54, 53]"

lemma sample_encoded:
  "encode_manifest_cbor rfc8949 reference_crates sample_manifest = Inr manifest_vector"
  by code_simp

lemma length_manifest_vector: "length manifest_vector = 764"
  by code_simp

lemma sample_wf: "wf_manifest sample_manifest"
  by code_simp

lemma sample_decoded:
  "decode_manifest_cbor rfc8949 reference_crates manifest_vector default_limits = Inr sample_manifest"
  by (rule reference.manifest_round_trip
      [OF sample_encoded [unfolded encode_manifest_cbor_def] sample_wf])

end
