(* ===== verification/Manifest_Policy.thy ===== *)
theory Manifest_Policy
  imports Manifest_Value Samples
begin

text \<open>
  What \<open>Manifest::validate\<close> and \<open>signature_message\<close> promise: the policy as one predicate on
  manifests, the numbers of the JSON profile, and the text that the JSON signatures cover.
\<close>

section \<open>The policy\<close>

definition https_origin :: "crates \<Rightarrow> str \<Rightarrow> bool" where
  "https_origin cr s = (case url_parse cr s of
      Inl _ \<Rightarrow> False
    | Inr u \<Rightarrow> url_scheme u = ''https'' \<and> \<not> url_cannot_be_a_base u \<and> url_path u = ''/''
        \<and> url_query u = None \<and> url_fragment u = None \<and> url_username u = []
        \<and> url_password u = None)"

definition country_code :: "str \<Rightarrow> bool" where
  "country_code j \<longleftrightarrow> length j = 2 \<and> list_all is_ascii_uppercase j"

definition good_artifact :: "crates \<Rightarrow> artifact \<Rightarrow> bool" where
  "good_artifact cr a \<longleftrightarrow>
     is_ok (url_parse cr (uri a)) \<and> \<not> blank (media_type a) \<and> is_lower_hex (sha512 a) 128"

text \<open>Everything a manifest has to satisfy before its capabilities are looked at.\<close>

definition valid_core :: "crates \<Rightarrow> manifest \<Rightarrow> bool" where
  "valid_core cr m \<longleftrightarrow>
     tfws_version m = ''3.0''
     \<and> https_origin cr (subject m)
     \<and> environment m \<in> {''development'', ''staging'', ''production''}
     \<and> 0 < uint (key_epoch m) \<and> uint (key_epoch m) < 2 ^ 53
     \<and> \<not> blank (name (operator_of m)) \<and> option_ok country_code (jurisdiction (operator_of m))
     \<and> (hybrid_keys (keys m) \<or> keys m = [] \<and> environment m = ''development'')
     \<and> policy_of m =
         \<lparr>policy_id = BASELINE_POLICY, required_algorithms = BASELINE_ALGORITHMS\<rparr>"

definition valid_manifest :: "crates \<Rightarrow> manifest \<Rightarrow> bool" where
  "valid_manifest cr m \<longleftrightarrow>
     valid_core cr m
     \<and> distinct (required (capabilities_of m) @ optional (capabilities_of m))
     \<and> set (required (capabilities_of m)) \<subseteq> known_capabilities
     \<and> list_all (good_artifact cr) (artifacts m)
     \<and> (\<exists>v. to_value cr m = Inr v \<and> all_numbers safe_number v)"

section \<open>The parts\<close>

lemma validate_subject_ok: "validate_subject cr m = Inr u \<longleftrightarrow> https_origin cr (subject m)"
  by (cases "url_parse cr (subject m)") (auto simp: validate_subject_def https_origin_def)

lemma validate_operator_ok:
  "validate_operator m = Inr u \<longleftrightarrow>
     \<not> blank (name (operator_of m)) \<and> option_ok country_code (jurisdiction (operator_of m))"
  by (auto simp: validate_operator_def option_ok_def country_code_def split: option.split)

lemma validate_policy_ok:
  "validate_policy m = Inr u \<longleftrightarrow>
     policy_of m = \<lparr>policy_id = BASELINE_POLICY, required_algorithms = BASELINE_ALGORITHMS\<rparr>"
  by (cases "policy_of m") (auto simp: validate_policy_def)

lemma validate_capabilities_ok:
  "validate_capabilities m = Inr u \<longleftrightarrow>
     distinct (required (capabilities_of m) @ optional (capabilities_of m))
     \<and> set (required (capabilities_of m)) \<subseteq> known_capabilities"
  by (auto simp: validate_capabilities_def Let_def card_set_eq_length check_known_ok)

lemma validate_artifacts_good:
  "validate_artifacts cr as = Inr u \<longleftrightarrow> list_all (good_artifact cr) as"
  by (auto simp: validate_artifacts_ok list_all_iff good_artifact_def)

lemma key_epoch_ok:
  "\<not> (e = 0 \<or> e > MAX_SAFE_INTEGER) \<longleftrightarrow> 0 < uint e \<and> uint (e :: u64) < 2 ^ 53"
  using le_max_safe [of e] word_less_def [of 0 e] by (auto simp: not_less word_neq_0_conv)

text \<open>The checks up to the capabilities: they decide \<open>valid_core\<close>, and every rejection is an
  \<open>InvalidManifest\<close>.\<close>

definition core_checks :: "crates \<Rightarrow> manifest \<Rightarrow> error + unit" where
  "core_checks cr m =
     (if tfws_version m \<noteq> ''3.0'' then Inl (InvalidManifest ''unsupported version'')
      else
        and_then (validate_subject cr m) (\<lambda>_.
        if environment m \<notin> {''development'', ''staging'', ''production''}
        then Inl (InvalidManifest ''invalid environment'')
        else if key_epoch m = 0 \<or> key_epoch m > MAX_SAFE_INTEGER
        then Inl (InvalidManifest ''invalid key epoch'')
        else
        and_then (validate_operator m) (\<lambda>_.
        and_then (validate_keys m) (\<lambda>_. validate_policy m))))"

lemma validate_split:
  "validate cr m =
     and_then (core_checks cr m) (\<lambda>_.
     and_then (validate_capabilities m) (\<lambda>_.
     and_then (validate_artifacts cr (artifacts m)) (\<lambda>_.
     and_then (map_err Canonicalization (to_value cr m)) validate_json_number_profile)))"
  unfolding validate_def core_checks_def and_then_if and_then_assoc and_then_simps ..

lemma core_checks_ok: "core_checks cr m = Inr u \<longleftrightarrow> valid_core cr m"
  using key_epoch_ok [of "key_epoch m"]
  by (auto simp: core_checks_def valid_core_def result_iff validate_subject_ok validate_operator_ok
      validate_keys_ok validate_policy_ok)

lemma check_key_descriptors_invalid:
  "check_key_descriptors seen ks = Inl e \<Longrightarrow> \<exists>reason. e = InvalidManifest reason"
  by (induction seen ks rule: check_key_descriptors.induct) (auto split: if_splits)

lemma core_checks_invalid:
  "core_checks cr m = Inl e \<Longrightarrow> \<exists>reason. e = InvalidManifest reason"
  by (auto simp: core_checks_def validate_subject_def validate_operator_def validate_keys_def
      validate_policy_def result_iff check_key_descriptors_invalid split: if_splits option.splits)

section \<open>Errors of the capability check\<close>

lemma check_known_error:
  "check_known cs = Inl e \<longleftrightarrow>
     (\<exists>pre c post. cs = pre @ c # post \<and> set pre \<subseteq> known_capabilities
        \<and> c \<notin> known_capabilities \<and> e = UnsupportedCapability c)"
proof (induction cs)
  case Nil
  then show ?case by simp
next
  case (Cons c cs)
  show ?case
  proof (cases "c \<in> known_capabilities")
    case True
    then have "check_known (c # cs) = Inl e \<longleftrightarrow> check_known cs = Inl e" by simp
    also have "\<dots> \<longleftrightarrow> (\<exists>pre x post. c # cs = pre @ x # post \<and> set pre \<subseteq> known_capabilities
        \<and> x \<notin> known_capabilities \<and> e = UnsupportedCapability x)"
      (is "_ \<longleftrightarrow> (\<exists>pre x post. ?split pre x post)")
    proof
      assume "check_known cs = Inl e"
      then obtain pre x post where "cs = pre @ x # post" "set pre \<subseteq> known_capabilities"
          "x \<notin> known_capabilities" "e = UnsupportedCapability x"
        using Cons.IH by blast
      with True have "?split (c # pre) x post" by simp
      then show "\<exists>pre x post. ?split pre x post" by blast
    next
      assume "\<exists>pre x post. ?split pre x post"
      then obtain pre x post where "?split pre x post" by blast
      with True show "check_known cs = Inl e"
        unfolding Cons.IH by (cases pre) auto
    qed
    finally show ?thesis .
  next
    case False
    then show ?thesis by (fastforce simp: Cons_eq_append_conv)
  qed
qed

lemma validate_artifacts_invalid:
  "validate_artifacts cr as = Inl e \<Longrightarrow> \<exists>reason. e = InvalidManifest reason"
  by (induction as) (auto simp: result_iff split: if_splits)

lemma validate_json_number_profile_invalid:
  "validate_json_number_profile v = Inl e \<Longrightarrow> \<exists>reason. e = InvalidManifest reason"
  "validate_json_items vs = Inl e \<Longrightarrow> \<exists>reason. e = InvalidManifest reason"
  "validate_json_entries es = Inl e \<Longrightarrow> \<exists>reason. e = InvalidManifest reason"
  by (induction v and vs and es
      rule: validate_json_number_profile_validate_json_items_validate_json_entries.induct)
    (auto simp: result_iff split: if_splits)

lemma validate_capabilities_unsupported:
  "validate_capabilities m = Inl (UnsupportedCapability c) \<longleftrightarrow>
     distinct (required (capabilities_of m) @ optional (capabilities_of m))
     \<and> check_known (required (capabilities_of m)) = Inl (UnsupportedCapability c)"
  by (auto simp: validate_capabilities_def Let_def card_set_eq_length)

section \<open>The signature text\<close>

definition unlines :: "str list \<Rightarrow> str" where
  "unlines ls = concat (map (\<lambda>l. l @ [LF]) ls)"

definition signature_lines :: "str \<Rightarrow> str \<Rightarrow> str \<Rightarrow> u64 \<Rightarrow> str list" where
  "signature_lines subj digest created epoch =
     [''TFWS3-SIGNATURE-V1'', ''subject='' @ subj, ''media_type=application/tfws+json'',
      ''payload_sha512='' @ digest, ''created='' @ created,
      ''key_epoch='' @ decimal (unat epoch), ''policy='' @ BASELINE_POLICY]"

lemma signature_text_lines:
  "signature_text subj digest created epoch = unlines (signature_lines subj digest created epoch)"
  by (simp add: signature_text_def unlines_def signature_lines_def)

text \<open>Lines without line feeds are told apart by their text.\<close>

lemma unlines_inject:
  "\<forall>l \<in> set ls. LF \<notin> set l \<Longrightarrow> \<forall>l \<in> set ks. LF \<notin> set l \<Longrightarrow> unlines ls = unlines ks \<Longrightarrow> ls = ks"
proof (induction ls arbitrary: ks)
  case Nil
  then show ?case by (cases ks) (simp_all add: unlines_def)
next
  case (Cons l ls)
  then obtain k ks' where ks: "ks = k # ks'"
    by (cases ks) (simp_all add: unlines_def)
  have eq: "l @ LF # unlines ls = k @ LF # unlines ks'"
    using Cons.prems(3) by (simp add: ks unlines_def)
  have "LF \<notin> set l" "LF \<notin> set k" using Cons.prems(1,2) by (simp_all add: ks)
  from separator_inject [OF this eq] have "l = k \<and> unlines ls = unlines ks'" .
  moreover have "unlines ls = unlines ks' \<Longrightarrow> ls = ks'"
    using Cons.prems(1,2) by (intro Cons.IH) (simp_all add: ks)
  ultimately show ?case by (simp add: ks)
qed

lemma no_line_feed_digits: "LF \<notin> set (decimal n)"
  using decimal_digits [of LF n] by (auto simp: LF_def)

lemma signature_lines_clean:
  "LF \<notin> set subj \<Longrightarrow> LF \<notin> set digest \<Longrightarrow> LF \<notin> set created \<Longrightarrow>
   \<forall>l \<in> set (signature_lines subj digest created epoch). LF \<notin> set l"
  using no_line_feed_digits [of "unat epoch"]
  by (simp add: signature_lines_def BASELINE_POLICY_def LF_def)

lemma signature_message_ok:
  "signature_message subj digest created epoch = Inr bs \<longleftrightarrow>
     (\<forall>s \<in> {subj, created}. LF \<notin> set s \<and> CR \<notin> set s)
     \<and> is_lower_hex digest 128 \<and> 0 < uint epoch \<and> uint epoch < 2 ^ 53
     \<and> bs = as_bytes (unlines (signature_lines subj digest created epoch))"
proof -
  have hex: "is_lower_hex digest 128 \<Longrightarrow> LF \<notin> set digest \<and> CR \<notin> set digest"
    by (auto simp: is_lower_hex_def list_all_iff LF_def CR_def is_ascii_digit_def)
  show ?thesis
    using hex key_epoch_ok [of epoch]
    by (auto simp: signature_message_def signature_text_lines)
qed

section \<open>Numbers of a derived value\<close>

lemma all_numbers_object_of:
  "all_numbers p (object_of es) \<longleftrightarrow> (\<forall>e \<in> set es. all_numbers p (snd e))"
  if "distinct (map fst es)"
proof -
  have "set (insert_all es []) = set es"
    using that sorted_insert_all [of "[]" es] map_get_insert_all_Nil [OF that]
    by (auto simp flip: map_get_eq_Some simp: map_of_eq_Some_iff)
  then show ?thesis by (simp add: object_of_def)
qed

lemma validate_ok: "validate cr m = Inr () \<longleftrightarrow> valid_manifest cr m"
  by (auto simp: validate_split valid_manifest_def result_iff core_checks_ok
      validate_capabilities_ok validate_artifacts_good validate_json_number_profile_ok)

lemma validate_derived:
  assumes "serde_manifest (to_value cr) (from_value cr)"
  shows "validate cr m = Inr () \<longleftrightarrow>
     valid_core cr m
     \<and> distinct (required (capabilities_of m) @ optional (capabilities_of m))
     \<and> set (required (capabilities_of m)) \<subseteq> known_capabilities
     \<and> list_all (good_artifact cr) (artifacts m)
     \<and> option_ok (all_numbers safe_number) (identity m)"
proof -
  have epoch: "safe_number (number_from_u64 (key_epoch m))" if "valid_core cr m"
    using that by (simp add: valid_core_def safe_number_def number_from_u64_def)
  have parts: "all_numbers safe_number (strings_value ss)"
    "all_numbers safe_number (operator_value o')" "all_numbers safe_number (policy_value p)"
    "all_numbers safe_number (capabilities_value c)" "all_numbers safe_number (artifact_value a)"
    "all_numbers safe_number (key_value k)" for ss o' p c a k
    by (simp_all add: operator_value_def policy_value_def capabilities_value_def artifact_value_def
        key_value_def strings_value_def option_value_def all_numbers_object_of split: option.split)
  have "all_numbers safe_number (manifest_value m) \<longleftrightarrow>
      safe_number (number_from_u64 (key_epoch m)) \<and> option_ok (all_numbers safe_number) (identity m)"
    unfolding manifest_value_def
    by (subst all_numbers_object_of)
      (auto simp: manifest_fields_names distinct_manifest_field_names manifest_fields_def parts
        option_value_def option_ok_def split: option.splits)
  with epoch serde_manifest.to_value_derived [OF assms, of m] show ?thesis
    by (auto simp: validate_ok valid_manifest_def)
qed

section \<open>Properties\<close>

text \<open>
  C4: validation accepts exactly the manifests that satisfy the policy.
\<close>

theorem validate_decides_policy: "validate cr m = Inr () \<longleftrightarrow> valid_manifest cr m"
  by (rule validate_ok)

text \<open>
  An unknown mandatory capability is reported, with its name, exactly when everything
  before it in the policy holds: the first required capability that is not known.
\<close>

lemma unknown_capability_reported:
  "validate cr m = Inl (UnsupportedCapability c) \<longleftrightarrow>
     valid_core cr m \<and> distinct (required (capabilities_of m) @ optional (capabilities_of m))
     \<and> (\<exists>pre post. required (capabilities_of m) = pre @ c # post
          \<and> set pre \<subseteq> known_capabilities \<and> c \<notin> known_capabilities)"
  using core_checks_invalid [of cr m] validate_artifacts_invalid [of cr "artifacts m"]
    validate_json_number_profile_invalid(1)
  by (auto simp: validate_split result_iff core_checks_ok validate_capabilities_unsupported
      check_known_error) blast+

text \<open>
  C26: the signed text determines what was signed: no two choices of subject, digest, creation
  time and key epoch give the same message.
\<close>

theorem signature_message_inject:
  assumes "signature_message s d c e = Inr bs" and "signature_message s' d' c' e' = Inr bs'"
    and "(s, d, c, e) \<noteq> (s', d', c', e')"
  shows "bs \<noteq> bs'"
proof
  assume "bs = bs'"
  have hex: "is_lower_hex x 128 \<Longrightarrow> LF \<notin> set x" for x
    by (auto simp: is_lower_hex_def list_all_iff LF_def is_ascii_digit_def)
  have "signature_lines s d c e = signature_lines s' d' c' e'"
    using assms(1,2) \<open>bs = bs'\<close> hex by (intro unlines_inject signature_lines_clean)
      (auto simp: signature_message_ok)
  with assms(3) show False
    by (auto simp: signature_lines_def decimal_inject word_unat_eq_iff)
qed

lemma sample_message:
  "is_ok (signature_message ''https://example.com'' (replicate 128 CHR ''0'') ''2026-07-21T00:00:00Z'' 1)"
  "is_ok (signature_message ''https://example.com'' (replicate 128 CHR ''0'') ''2026-07-21T00:00:00Z'' 2)"
  by code_simp+

theorem signature_message_inject_witness:
  "signature_message ''https://example.com'' (replicate 128 CHR ''0'') ''2026-07-21T00:00:00Z'' 1
   \<noteq> signature_message ''https://example.com'' (replicate 128 CHR ''0'') ''2026-07-21T00:00:00Z'' 2"
proof -
  obtain bs cs where "signature_message ''https://example.com'' (replicate 128 CHR ''0'')
        ''2026-07-21T00:00:00Z'' 1 = Inr bs"
      and "signature_message ''https://example.com'' (replicate 128 CHR ''0'')
        ''2026-07-21T00:00:00Z'' 2 = Inr cs"
    using sample_message by (auto simp: is_ok_iff)
  then show ?thesis using signature_message_inject [of _ _ _ 1 bs _ _ _ 2 cs] by simp
qed

text \<open>
  C35: a signature message is produced exactly for metadata without line breaks, a lowercase
  hex SHA-512 digest and a positive safe epoch, and it is the seven lines of the profile.
\<close>

theorem signature_message_exact:
  "signature_message subj digest created epoch = Inr bs \<longleftrightarrow>
     list_all (\<lambda>s. LF \<notin> set s \<and> CR \<notin> set s) [subj, created]
     \<and> is_lower_hex digest 128 \<and> 0 < uint epoch \<and> uint epoch < 2 ^ 53
     \<and> bs = as_bytes (unlines (signature_lines subj digest created epoch))"
  by (auto simp: signature_message_ok)

text \<open>
  The two number checks of the code, the one of the JSON profile and the one of the CBOR
  profile, accept the same numbers: the integers of absolute value below \<open>2^53\<close>.
\<close>

lemma number_checks_agree:
  "(json_number_valid n \<longleftrightarrow> is_ok (validate_number n))
   \<and> (is_ok (validate_number n) \<longleftrightarrow> (\<exists>i. n = IntNum i \<and> \<bar>i\<bar> < 2 ^ 53))"
  by (cases n)
    (auto simp: json_number_valid_iff is_ok_iff validate_number_ok safe_number_def)

text \<open>
  For the derived serialisation the number profile of a manifest is a condition on its
  key epoch and its identity document alone.
\<close>

lemma policy_numbers:
  assumes "serde_manifest (to_value cr) (from_value cr)"
  shows "validate cr m = Inr () \<longleftrightarrow>
     valid_core cr m
     \<and> distinct (required (capabilities_of m) @ optional (capabilities_of m))
     \<and> set (required (capabilities_of m)) \<subseteq> known_capabilities
     \<and> list_all (good_artifact cr) (artifacts m)
     \<and> option_ok (all_numbers safe_number) (identity m)"
  by (rule validate_derived [OF assms])

end
