(* ===== verification/Cbor_Props.thy ===== *)
theory Cbor_Props
  imports Manifest_Policy
begin

text \<open>
  What the CBOR codec promises, for any library that keeps the laws: round trips, unique
  decodability, the exact set of accepted inputs, the bounds every decoded value keeps, and
  the errors for the inputs the profile forbids.
\<close>

section \<open>Helpers\<close>

lemma Max_insert_le: "finite A \<Longrightarrow> Max (insert 0 A) \<le> (n :: nat) \<longleftrightarrow> (\<forall>a \<in> A. a \<le> n)"
  by (simp add: Max_le_iff)

lemma profile_bounds:
  "validate_value_profile v lim depth = Inr () \<Longrightarrow>
   depth + json_depth v \<le> unat (max_depth lim) \<and> all_numbers safe_number v"
proof (induction v arbitrary: depth)
  case (JArray vs)
  then have "\<forall>v \<in> set vs. Suc depth + json_depth v \<le> unat (max_depth lim) \<and> all_numbers safe_number v"
    by (metis profile_ok(5))
  moreover have "depth \<le> unat (max_depth lim)" using JArray.prems by (simp add: profile_ok exceeds_def)
  ultimately show ?case
    using Max_insert_le [of "Suc ` json_depth ` set vs" "unat (max_depth lim) - depth"]
    by (simp add: le_diff_conv2 add.commute)
next
  case (JObject es)
  then have "\<forall>e \<in> set es. Suc depth + json_depth (snd e) \<le> unat (max_depth lim)
      \<and> all_numbers safe_number (snd e)"
    by (metis profile_ok(6) prod.collapse)
  moreover have "depth \<le> unat (max_depth lim)" using JObject.prems by (simp add: profile_ok exceeds_def)
  ultimately show ?case
    using Max_insert_le [of "(\<lambda>e. Suc (json_depth (snd e))) ` set es" "unat (max_depth lim) - depth"]
    by (simp add: le_diff_conv2 add.commute)
qed (auto simp: profile_ok exceeds_def validate_number_ok)

text \<open>One round of the entry loop over what the encoder wrote, and its two key errors.\<close>

context cbor_data_items
begin

lemma decode_value_map:
  assumes "me_map mc n = Inr h" and "remaining d = h @ r"
    and "\<not> exceeds depth (max_depth lim)" and "\<not> exceeds (unat n) (max_map_pairs lim)"
  shows "decode_value mc lim depth d =
    and_then (decode_entries mc lim depth (unat n) [] {} None (advance (length h) d))
      (\<lambda>(es, d'). Inr (JObject es, d'))"
  using read_map [OF assms(1,2)] assms(3,4)
  by (simp add: decode_value.simps [of mc lim depth d] decode_map.simps [of mc lim depth d])

lemma decode_entries_key:
  assumes "me_str mc k = Inr kb" and "valid_utf8 k"
    and "\<not> exceeds (length k) (max_string_bytes lim)" and "remaining d = kb @ r"
  shows "decode_entries mc lim depth (Suc n) es seen prev d =
    (if k \<in> seen then Inl (DuplicateKey k)
     else if key_order_violated prev kb then Inl MapKeyOrder
     else and_then (decode_value mc lim (depth + 1) (advance (length kb) d)) (\<lambda>(v, d').
       decode_entries mc lim depth n (map_insert k v es) (insert k seen) (Some kb) d'))"
  using read_str [OF assms(1,2) _ assms(4)] fits_word [OF assms(3)] assms(3)
    key_slice_written [OF assms(4)]
  by (simp add: decode_entries.simps Let_def)

lemma decode_first_entry:
  assumes "me_str mc k = Inr kb" and "valid_utf8 k"
    and "\<not> exceeds (length k) (max_string_bytes lim)"
    and "encode_value mc lim (Suc depth) v = Inr vb" and "wf_json v"
    and "remaining d = kb @ vb @ r"
  shows "decode_entries mc lim depth (Suc n) [] {} None d =
    decode_entries mc lim depth n [(k, v)] {k} (Some kb) (advance (length (kb @ vb)) d)"
proof -
  have "decode_value mc lim (depth + 1) (advance (length kb) d)
      = Inr (v, advance (length (kb @ vb)) d)"
    using decode_encode_value [OF assms(4,5), of "advance (length kb) d" r] assms(6) by simp
  then show ?thesis
    by (simp add: decode_entries_key [OF assms(1-3,6)] key_order_violated_def)
qed

end

section \<open>Values\<close>

text \<open>
  C8: decoding is the inverse of encoding: what the encoder wrote for a value, with any bytes
  behind it, is decoded to that value, and the decoder stands behind it.
\<close>

theorem value_round_trip:
  assumes "cbor_data_items mc" and "wf_json v" and "encode_value mc lim depth v = Inr bs"
    and "remaining d = bs @ r"
  shows "decode_value mc lim depth d = Inr (v, advance (length bs) d)"
  by (rule cbor_data_items.decode_encode_value [OF assms(1,3,2,4)])

definition small_value :: json where
  "small_value = JObject [(''aa'', JBool True), (''b'', JArray [JNumber (IntNum (- 7))])]"

lemma small_value_wf: "wf_json small_value"
  by (simp add: small_value_def sorted_map_def ascii_def)

lemma small_value_encoded:
  "encode_value rfc8949 default_limits 0 small_value
   = Inr [0xa2, 0x61, 0x62, 0x81, 0x26, 0x62, 0x61, 0x61, 0xf5]"
  by code_simp

theorem value_round_trip_witness:
  "decode_value rfc8949 default_limits 0
     (decoder_new [0xa2, 0x61, 0x62, 0x81, 0x26, 0x62, 0x61, 0x61, 0xf5, 0])
   = Inr (small_value,
       advance 9 (decoder_new [0xa2, 0x61, 0x62, 0x81, 0x26, 0x62, 0x61, 0x61, 0xf5, 0]))"
  using value_round_trip [OF rfc_items.cbor_data_items_axioms small_value_wf small_value_encoded,
      of "decoder_new [0xa2, 0x61, 0x62, 0x81, 0x26, 0x62, 0x61, 0x61, 0xf5, 0]" "[0]"]
  by simp

text \<open>
  C23: every decoded value is in the profile: no null and no float, integers below \<open>2^53\<close> in
  absolute value, nesting within the limit, texts valid UTF-8 and maps with unique keys.
\<close>

theorem decoded_value_in_profile:
  assumes "cbor_data_items mc" and "decode_value mc lim depth d = Inr (v, d')"
  shows "validate_value_profile v lim depth = Inr () \<and> wf_json v
    \<and> all_numbers safe_number v \<and> depth + json_depth v \<le> unat (max_depth lim)"
proof -
  have "validate_value_profile v lim depth = Inr () \<and> wf_with valid_utf8 v"
    by (rule decode_sound(1) [OF _ assms(2)]) (rule cbor_data_items.str_is_utf8 [OF assms(1)])
  with profile_bounds [of v lim depth] show ?thesis by (simp add: wf_json_def)
qed

theorem decoded_value_in_profile_witness:
  "validate_value_profile small_value default_limits 0 = Inr () \<and> json_depth small_value \<le> 32"
  using decoded_value_in_profile [OF rfc_items.cbor_data_items_axioms value_round_trip_witness]
  by (simp add: default_limits_def)

text \<open>
  C32: the encoder is total on the profile and fails outside it, at every depth.
\<close>

theorem encoder_total_on_profile:
  assumes "cbor_data_items mc"
  shows "is_ok (encode_value mc lim depth v) \<longleftrightarrow> validate_value_profile v lim depth = Inr ()"
  using cbor_data_items.encode_value_total [OF assms] encode_value_profile
  by (auto simp: is_ok_iff)

theorem encoder_total_on_profile_witness:
  "\<not> is_ok (encode_value rfc8949 default_limits 0 (JArray [JNull]))
   \<and> is_ok (encode_value rfc8949 default_limits 0 small_value)"
  using encoder_total_on_profile [OF rfc_items.cbor_data_items_axioms, of default_limits 0 "JArray [JNull]"]
    encoder_total_on_profile [OF rfc_items.cbor_data_items_axioms, of default_limits 0 small_value]
    decoded_value_in_profile_witness
  by (simp add: profile_ok is_ok_iff) 

text \<open>
  Encodings are uniquely decodable: of two encodings neither is a prefix of the other,
  unless the values are the same.
\<close>

lemma encodings_prefix_free:
  assumes "cbor_data_items mc" and "wf_json v" and "wf_json w" and "v \<noteq> w"
    and "encode_value mc lim depth v = Inr bs" and "encode_value mc lim depth w = Inr cs"
  shows "bs @ r \<noteq> cs"
  using cbor_data_items.encode_prefix_free [OF assms(1,5,6,2,3), of r "[]"] assms(4) by auto

text \<open>
  A map that repeats its first key is refused with that key, whatever it holds and
  whatever follows.
\<close>

lemma duplicate_key_refused:
  assumes "cbor_data_items mc" and "me_map mc n = Inr h" and "2 \<le> unat n"
    and "\<not> exceeds depth (max_depth lim)" and "\<not> exceeds (unat n) (max_map_pairs lim)"
    and "me_str mc k = Inr kb" and "valid_utf8 k"
    and "\<not> exceeds (length k) (max_string_bytes lim)"
    and "encode_value mc lim (Suc depth) v = Inr vb" and "wf_json v"
    and "remaining d = h @ kb @ vb @ kb @ r"
  shows "decode_value mc lim depth d = Inl (DuplicateKey k)"
proof -
  obtain n' where n: "unat n = Suc (Suc n')" using assms(3) by (metis Suc_le_D numeral_2_eq_2 Suc_le_mono)
  note law = assms(1)
  have rem: "remaining (advance (length h) d) = kb @ vb @ kb @ r"
      "remaining (advance (length (kb @ vb)) (advance (length h) d)) = kb @ r"
    using assms(11) by simp_all
  show ?thesis
    unfolding cbor_data_items.decode_value_map [OF law assms(2,11,4,5)] n
      cbor_data_items.decode_first_entry [OF law assms(6-10) rem(1)]
      cbor_data_items.decode_entries_key [OF law assms(6-8) rem(2)]
    by simp
qed

text \<open>
  A map whose second key is not above its first one, length first and then byte by
  byte, is refused as out of order.
\<close>

lemma key_order_enforced:
  assumes "cbor_data_items mc" and "me_map mc n = Inr h" and "2 \<le> unat n"
    and "\<not> exceeds depth (max_depth lim)" and "\<not> exceeds (unat n) (max_map_pairs lim)"
    and "me_str mc k = Inr kb" and "valid_utf8 k"
    and "\<not> exceeds (length k) (max_string_bytes lim)"
    and "encode_value mc lim (Suc depth) v = Inr vb" and "wf_json v"
    and "me_str mc l = Inr lb" and "valid_utf8 l"
    and "\<not> exceeds (length l) (max_string_bytes lim)" and "l \<noteq> k"
    and "(length lb, lb) < (length kb, kb)"
    and "remaining d = h @ kb @ vb @ lb @ r"
  shows "decode_value mc lim depth d = Inl MapKeyOrder"
proof -
  obtain n' where n: "unat n = Suc (Suc n')" using assms(3) by (metis Suc_le_D numeral_2_eq_2 Suc_le_mono)
  note law = assms(1)
  have rem: "remaining (advance (length h) d) = kb @ vb @ lb @ r"
      "remaining (advance (length (kb @ vb)) (advance (length h) d)) = lb @ r"
    using assms(16) by simp_all
  have "key_order_violated (Some kb) lb"
    using assms(15) compare_encoded_keys_Less [of kb lb] by (auto simp: key_order_violated_def key_rank_def)
  then show ?thesis
    unfolding cbor_data_items.decode_value_map [OF law assms(2,16,4,5)] n
      cbor_data_items.decode_first_entry [OF law assms(6-10) rem(1)]
      cbor_data_items.decode_entries_key [OF law assms(11-13) rem(2)]
    using assms(14) by simp
qed

section \<open>Manifests\<close>

text \<open>
  C5: encoding a manifest and decoding the bytes, under the same limits, gives the manifest.
\<close>

theorem manifest_cbor_round_trip:
  assumes "manifest_codec mc cr" and "wf_manifest m"
    and "encode_manifest_cbor_with_limits mc cr m lim = Inr bs"
  shows "decode_manifest_cbor mc cr bs lim = Inr m"
  by (rule manifest_codec.manifest_round_trip [OF assms(1,3,2)])

theorem manifest_cbor_round_trip_witness:
  "decode_manifest_cbor rfc8949 reference_crates manifest_vector default_limits
   = Inr sample_manifest"
  by (rule manifest_cbor_round_trip [OF reference.manifest_codec_axioms sample_wf
      sample_encoded [unfolded encode_manifest_cbor_def]])

text \<open>
  C7: an input is accepted exactly when it is the deterministic encoding of a value that
  the derived code reads as a manifest which meets the policy, within the size limit.
\<close>

theorem manifest_accepted_iff:
  assumes "manifest_codec mc cr"
  shows "decode_manifest_cbor mc cr inp lim = Inr m \<longleftrightarrow>
     length inp \<le> unat (max_manifest_bytes lim)
     \<and> (\<exists>v. wf_json v \<and> encode_value mc lim 0 v = Inr inp \<and> from_value cr v = Inr m)
     \<and> option_ok is_object (identity m) \<and> valid_manifest cr m"
  unfolding manifest_codec.decode_manifest_ok [OF assms] validate_ok
  by (auto simp: exceeds_def)

theorem manifest_accepted_iff_witness:
  "valid_manifest reference_crates sample_manifest \<and> length manifest_vector \<le> 4194304"
  using manifest_accepted_iff [OF reference.manifest_codec_axioms,
      of manifest_vector default_limits sample_manifest] sample_decoded
  by (simp add: default_limits_def)

text \<open>
  C34: a manifest is encoded exactly when it meets the policy, its identity is an object, its
  value is in the profile and the bytes fit; the value carries no absent option.
\<close>

theorem manifest_encoded_iff:
  assumes "manifest_codec mc cr"
  shows "is_ok (encode_manifest_cbor_with_limits mc cr m lim) \<longleftrightarrow>
     valid_manifest cr m \<and> option_ok is_object (identity m)
     \<and> (\<exists>bs. encode_value mc lim 0 (compact_manifest_value m) = Inr bs
          \<and> length bs \<le> unat (max_manifest_bytes lim))"
  unfolding is_ok_iff manifest_codec.encode_manifest_ok [OF assms] validate_ok
  by (auto simp: exceeds_def)

theorem manifest_encoded_iff_witness:
  "valid_manifest reference_crates small_manifest
   \<and> \<not> is_ok (encode_manifest_cbor rfc8949 reference_crates (small_manifest\<lparr>key_epoch := 0\<rparr>))"
  using manifest_encoded_iff [OF reference.manifest_codec_axioms, of small_manifest default_limits]
    manifest_encoded_iff [OF reference.manifest_codec_axioms, of "small_manifest\<lparr>key_epoch := 0\<rparr>"
      default_limits] small_encoded
  by (simp add: encode_manifest_cbor_def valid_manifest_def valid_core_def)

text \<open>
  Manifests are told apart on the wire: different manifests have different bytes, and
  none is a prefix of the other's.
\<close>

lemma manifest_bytes_prefix_free:
  assumes codec: "manifest_codec mc cr" and "wf_manifest m" and "wf_manifest n" and "m \<noteq> n"
    and "encode_manifest_cbor_with_limits mc cr m lim = Inr bs"
    and "encode_manifest_cbor_with_limits mc cr n lim = Inr cs"
  shows "bs @ r \<noteq> cs"
proof -
  have items: "cbor_data_items mc" and serde: "serde_manifest (to_value cr) (from_value cr)"
    using codec by (simp_all add: manifest_codec_def)
  have vs: "encode_value mc lim 0 (compact_manifest_value m) = Inr bs"
      "encode_value mc lim 0 (compact_manifest_value n) = Inr cs"
      "identity m \<noteq> Some JNull" "identity n \<noteq> Some JNull"
    using assms(5,6) object_identity
    unfolding manifest_codec.encode_manifest_ok [OF codec] by blast+
  have "compact_manifest_value m \<noteq> compact_manifest_value n"
    using serde_manifest.compact_manifest_value_inject [OF serde vs(3,4)] assms(4) by blast
  then show ?thesis
    using cbor_data_items.encode_prefix_free [OF items vs(1,2), of r "[]"]
    by (auto simp: wf_compact_manifest_value assms(2,3))
qed

text \<open>
  Bytes behind an accepted manifest are never tolerated: the longer input is refused
  for its size or as trailing data.
\<close>

lemma trailing_data_refused:
  assumes codec: "manifest_codec mc cr" and "decode_manifest_cbor mc cr inp lim = Inr m"
    and "x \<noteq> []"
  shows "decode_manifest_cbor mc cr (inp @ x) lim =
    (if exceeds (length (inp @ x)) (max_manifest_bytes lim)
     then Inl (cbor_error.ResourceLimit ''manifest bytes'') else Inl TrailingData)"
proof -
  have items: "cbor_data_items mc" using codec by (simp add: manifest_codec_def)
  obtain v where v: "wf_json v" "encode_value mc lim 0 v = Inr inp"
    using assms(2) unfolding manifest_codec.decode_manifest_ok [OF codec] by blast
  have "decode_value mc lim 0 (decoder_new (inp @ x))
      = Inr (v, advance (length inp) (decoder_new (inp @ x)))"
    by (rule cbor_data_items.decode_encode_value [OF items v(2,1)]) simp
  with assms(3) show ?thesis by (simp add: decode_manifest_cbor_def)
qed

section \<open>The wire form is not unique\<close>

definition positional_capabilities :: "manifest \<Rightarrow> json" where
  "positional_capabilities m =
     (case compact_manifest_value m of
        JObject es \<Rightarrow> JObject (map_insert ''capabilities''
          (JArray [strings_value (required (capabilities_of m)),
            strings_value (optional (capabilities_of m))]) es)
      | v \<Rightarrow> v)"

lemma positional_encoded:
  "case encode_value rfc8949 default_limits 0 (positional_capabilities small_manifest) of
     Inl _ \<Rightarrow> False
   | Inr bs \<Rightarrow> length bs \<le> 4194304
       \<and> from_value reference_crates (positional_capabilities small_manifest) = Inr small_manifest"
  by code_simp

lemma positional_wf: "wf_json (positional_capabilities small_manifest)"
  by code_simp

lemma positional_other: "positional_capabilities small_manifest \<noteq> compact_manifest_value small_manifest"
  by code_simp

text \<open>
  C38: one manifest has two accepted inputs.  A derived \<open>Deserialize\<close> takes a struct also as
  the array of its fields, and nothing between the decoder and \<open>from_value\<close> asks for a map:
  the manifest with its capabilities written as \<open>[[], []]\<close> is deterministic CBOR, is accepted
  and is the same manifest, although \<open>spec/CBOR-COSE.md\<close> maps JSON objects to maps only and
  wants an input refused whose decoded value re-encodes to other bytes.
\<close>

theorem two_inputs_for_one_manifest:
  "\<exists>inp other. inp \<noteq> other
     \<and> encode_manifest_cbor rfc8949 reference_crates small_manifest = Inr inp
     \<and> decode_manifest_cbor rfc8949 reference_crates inp default_limits = Inr small_manifest
     \<and> decode_manifest_cbor rfc8949 reference_crates other default_limits = Inr small_manifest"
proof -
  obtain inp where inp: "encode_manifest_cbor_with_limits rfc8949 reference_crates small_manifest
      default_limits = Inr inp"
    using small_encoded by (auto simp: encode_manifest_cbor_def is_ok_iff)
  obtain other where other:
    "encode_value rfc8949 default_limits 0 (positional_capabilities small_manifest) = Inr other"
    "\<not> exceeds (length other) (max_manifest_bytes default_limits)"
    "from_value reference_crates (positional_capabilities small_manifest) = Inr small_manifest"
    using positional_encoded by (auto simp: exceeds_def default_limits_def split: sum.splits)
  have inp': "encode_value rfc8949 default_limits 0 (compact_manifest_value small_manifest) = Inr inp"
      "option_ok is_object (identity small_manifest)" "validate reference_crates small_manifest = Inr ()"
    using inp unfolding reference.encode_manifest_ok by blast+
  have "inp \<noteq> other"
    using rfc_items.encode_prefix_free [OF inp'(1) other(1), of "[]" "[]"] positional_wf
      wf_compact_manifest_value [OF small_wf] positional_other by auto
  moreover have "decode_manifest_cbor rfc8949 reference_crates inp default_limits = Inr small_manifest"
    by (rule reference.manifest_round_trip [OF inp small_wf])
  moreover have "decode_manifest_cbor rfc8949 reference_crates other default_limits
      = Inr small_manifest"
    unfolding reference.decode_manifest_ok using positional_wf other inp'(2,3) by blast
  ultimately show ?thesis using inp unfolding encode_manifest_cbor_def by blast
qed

section \<open>The JSON policy is wider\<close>

definition with_null_identity :: "str \<Rightarrow> manifest \<Rightarrow> manifest" where
  "with_null_identity k m = m\<lparr>identity := Some (JObject [(k, JNull)])\<rparr>"

lemma identity_irrelevant:
  "valid_core cr (m\<lparr>identity := i\<rparr>) = valid_core cr m"
  by (simp add: valid_core_def)

text \<open>
  C39: \<open>validate\<close>, the only check of the JSON path, accepts null inside the identity
  document of any valid manifest; the CBOR encoder refuses the manifest, because null is
  not in its data model.
\<close>

theorem null_in_identity_diverges:
  assumes codec: "manifest_codec mc cr" and "validate cr m = Inr ()"
  shows "validate cr (with_null_identity k m) = Inr ()
    \<and> \<not> is_ok (encode_manifest_cbor_with_limits mc cr (with_null_identity k m) lim)"
proof
  let ?n = "with_null_identity k m"
  have serde: "serde_manifest (to_value cr) (from_value cr)"
    using codec by (simp add: manifest_codec_def)
  show "validate cr ?n = Inr ()"
    using assms(2) unfolding validate_derived [OF serde]
    by (simp add: with_null_identity_def identity_irrelevant option_ok_def)
  have null: "map_get ''identity'' (compact_root ?n) = Some (JObject [(k, JNull)])"
    by (simp add: compact_root_def compact_lookup with_null_identity_def option_value_def)
  have "(''identity'', JObject [(k, JNull)]) \<in> set (compact_root ?n)"
    using null by (simp add: map_get_eq_Some compact_root_def sorted_insert_all)
  then have "\<not> is_ok (encode_value mc lim 0 (compact_manifest_value ?n))"
    unfolding is_ok_iff compact_root_value
    by (force dest!: encode_value_profile simp: profile_ok)
  then show "\<not> is_ok (encode_manifest_cbor_with_limits mc cr ?n lim)"
    unfolding is_ok_iff manifest_codec.encode_manifest_ok [OF codec] by blast
qed

theorem null_in_identity_diverges_witness:
  "validate reference_crates (with_null_identity ''x'' sample_manifest) = Inr ()
   \<and> \<not> is_ok (encode_manifest_cbor rfc8949 reference_crates
       (with_null_identity ''x'' sample_manifest))"
  unfolding encode_manifest_cbor_def
  by (rule null_in_identity_diverges [OF reference.manifest_codec_axioms sample_valid])

end
