(* ===== verification/Serde_Inverse.thy ===== *)
theory Serde_Inverse
  imports Cbor_Props
begin

text \<open>
  The derived deserialisation read backwards.  A manifest it returns has the types of the Rust
  structs, and a value without null that is written with objects all the way down is the value
  the encoder writes for the manifest read from it.  Both go through every struct in the same
  way: one lemma on a field, one on a list, then one line for each struct.
\<close>

section \<open>Reading gives well-typed data\<close>

definition reads :: "('a \<Rightarrow> bool) \<Rightarrow> (json \<Rightarrow> str + 'a) \<Rightarrow> bool" where
  "reads P f \<longleftrightarrow> (\<forall>v x. wf_json v \<longrightarrow> f v = Inr x \<longrightarrow> P x)"

definition values_ok :: "(str \<times> json) list \<Rightarrow> bool" where
  "values_ok es \<longleftrightarrow> (\<forall>e \<in> set es. wf_json (snd e))"

lemma values_ok_get: "values_ok es \<Longrightarrow> map_get k es = Some v \<Longrightarrow> wf_json v"
  by (force simp: values_ok_def map_get_def dest: map_of_SomeD)

lemma struct_entries_values: "wf_json v \<Longrightarrow> struct_entries ns v = Inr es \<Longrightarrow> values_ok es"
  by (auto simp: struct_entries_def values_ok_def split: json.splits if_splits dest: set_zip_rightD)

lemma reads_field: "reads P f \<Longrightarrow> values_ok es \<Longrightarrow> field f es k = Inr x \<Longrightarrow> P x"
  by (auto simp: reads_def field_def result_iff dest: values_ok_get split: option.splits)

lemma reads_option_field:
  "reads P f \<Longrightarrow> values_ok es \<Longrightarrow> option_field f es k = Inr x \<Longrightarrow> option_ok P x"
  by (auto simp: reads_def option_field_def option_ok_def result_iff
      dest: values_ok_get split: option.splits if_splits)

lemma traverse_all: "traverse f vs = Inr xs \<longleftrightarrow> list_all2 (\<lambda>v x. f v = Inr x) vs xs"
  by (induction vs arbitrary: xs) (auto simp: result_iff list_all2_Cons1)

lemma reads_string: "reads valid_utf8 de_string"
  by (auto simp: reads_def de_string_def split: json.splits)

lemma reads_json: "reads wf_json Inr"
  by (simp add: reads_def)

lemma reads_vec: "reads P f \<Longrightarrow> reads (list_all P) (de_vec f)"
  unfolding reads_def de_vec_def
  by (fastforce simp: traverse_all list_all2_conv_all_nth list_all_length split: json.splits)

lemmas reads_fields =
  reads_field [OF reads_string] reads_field [OF reads_vec [OF reads_string]]
  reads_option_field [OF reads_string]

lemma reads_operator:
  "reads (\<lambda>o'. valid_utf8 (name o') \<and> option_ok valid_utf8 (jurisdiction o')) de_operator"
  by (auto simp: reads_def de_operator_def result_iff dest!: struct_entries_values dest: reads_fields)

lemma reads_policy:
  "reads (\<lambda>p. valid_utf8 (policy_id p) \<and> list_all valid_utf8 (required_algorithms p)) de_policy"
  by (auto simp: reads_def de_policy_def result_iff dest!: struct_entries_values dest: reads_fields)

lemma reads_capabilities:
  "reads (\<lambda>c. list_all valid_utf8 (required c) \<and> list_all valid_utf8 (optional c)) de_capabilities"
  by (auto simp: reads_def de_capabilities_def result_iff
      dest!: struct_entries_values dest: reads_fields)

lemma reads_artifact: "reads wf_artifact de_artifact"
  by (auto simp: reads_def de_artifact_def wf_artifact_def result_iff
      dest!: struct_entries_values dest: reads_fields)

lemma reads_key: "reads wf_key de_key"
  by (auto simp: reads_def de_key_def wf_key_def result_iff
      dest!: struct_entries_values dest: reads_fields)

lemmas reads_structs =
  reads_field [OF reads_operator] reads_field [OF reads_policy]
  reads_field [OF reads_capabilities] reads_field [OF reads_vec [OF reads_key]]
  reads_field [OF reads_vec [OF reads_artifact]] reads_option_field [OF reads_json]

text \<open>What reading a manifest reads: every field, under its name, from one list of entries.\<close>

definition fields_read :: "(str \<times> json) list \<Rightarrow> manifest \<Rightarrow> bool" where
  "fields_read es m \<longleftrightarrow>
     field de_string es ''tfws_version'' = Inr (tfws_version m)
     \<and> field de_string es ''subject'' = Inr (subject m)
     \<and> field de_string es ''environment'' = Inr (environment m)
     \<and> field de_operator es ''operator'' = Inr (operator_of m)
     \<and> field de_u64 es ''key_epoch'' = Inr (key_epoch m)
     \<and> field (de_vec de_key) es ''keys'' = Inr (keys m)
     \<and> field de_policy es ''signature_policy'' = Inr (policy_of m)
     \<and> field de_capabilities es ''capabilities'' = Inr (capabilities_of m)
     \<and> option_field Inr es ''identity'' = Inr (identity m)
     \<and> field (de_vec de_artifact) es ''artifacts'' = Inr (artifacts m)
     \<and> field de_string es ''updated_at'' = Inr (updated_at m)
     \<and> option_field de_string es ''expires_at'' = Inr (expires_at m)"

lemma derived_fields:
  assumes "derived_from_value v = Inr m"
  obtains es where "struct_entries manifest_field_names v = Inr es" and "fields_read es m"
  using assms unfolding derived_from_value_def result_iff fields_read_def
  by (elim exE conjE) (simp, metis manifest.select_convs)

lemma derived_well_typed:
  assumes "wf_json v" and "derived_from_value v = Inr m"
  shows "wf_manifest m"
proof -
  obtain es where es: "struct_entries manifest_field_names v = Inr es" and m: "fields_read es m"
    using assms(2) by (rule derived_fields)
  have ok: "values_ok es" by (rule struct_entries_values [OF assms(1) es])
  note typed = reads_fields [OF ok] reads_structs [OF ok]
  show ?thesis
    using m unfolding wf_manifest_def fields_read_def by (auto dest: typed)
qed

section \<open>Objects all the way down\<close>

text \<open>
  A value in map form has an object, not an array of fields, wherever the manifest has a
  struct.
\<close>

definition array_of :: "(json \<Rightarrow> bool) \<Rightarrow> json \<Rightarrow> bool" where
  "array_of P v = (case v of JArray vs \<Rightarrow> list_all P vs | _ \<Rightarrow> False)"

definition field_in_map_form :: "str \<times> json \<Rightarrow> bool" where
  "field_in_map_form e \<longleftrightarrow>
     (fst e \<in> {''operator'', ''signature_policy'', ''capabilities''} \<longrightarrow> is_object (snd e))
     \<and> (fst e \<in> {''keys'', ''artifacts''} \<longrightarrow> array_of is_object (snd e))"

definition in_map_form :: "json \<Rightarrow> bool" where
  "in_map_form v = (case v of JObject es \<Rightarrow> list_all field_in_map_form es | _ \<Rightarrow> False)"

fun no_null :: "json \<Rightarrow> bool" where
  "no_null JNull = False"
| "no_null (JArray vs) = (\<forall>v \<in> set vs. no_null v)"
| "no_null (JObject es) = (\<forall>e \<in> set es. no_null (snd e))"
| "no_null _ = True"

lemma profile_no_null: "validate_value_profile v lim depth = Inr () \<Longrightarrow> no_null v"
  by (induction v arbitrary: depth) (auto simp: profile_ok)

text \<open>
  \<open>recovers S f g\<close>: what \<open>f\<close> reads from a value of the form \<open>S\<close>, \<open>g\<close> writes back as that value.
\<close>

definition good :: "json \<Rightarrow> bool" where
  "good v \<longleftrightarrow> wf_json v \<and> no_null v"

definition recovers :: "(json \<Rightarrow> bool) \<Rightarrow> (json \<Rightarrow> str + 'a) \<Rightarrow> ('a \<Rightarrow> json) \<Rightarrow> bool" where
  "recovers S f g \<longleftrightarrow> (\<forall>v x. good v \<longrightarrow> S v \<longrightarrow> f v = Inr x \<longrightarrow> v = g x)"

definition good_entries :: "(str \<times> json) list \<Rightarrow> bool" where
  "good_entries es \<longleftrightarrow> sorted_map es \<and> (\<forall>e \<in> set es. good (snd e))"

lemma good_get: "good_entries es \<Longrightarrow> map_get k es = Some v \<Longrightarrow> good v"
  by (force simp: good_entries_def map_get_def dest: map_of_SomeD)

lemma good_object: "good (JObject es) \<longleftrightarrow> good_entries es \<and> (\<forall>e \<in> set es. valid_utf8 (fst e))"
  by (auto simp: good_def good_entries_def)

lemma good_not_null: "good_entries es \<Longrightarrow> map_get k es \<noteq> Some JNull"
  using good_get [of es k JNull] by (auto simp: good_def)

lemma struct_entries_object_form:
  assumes "is_object v" and "struct_entries ns v = Inr es"
  shows "v = JObject es" and "map_keys es \<subseteq> set ns"
  using assms
  by (auto simp: is_object_def struct_entries_def list_all_iff map_keys_def
      split: json.splits if_splits)

definition holds :: "(str \<times> json) list \<Rightarrow> str \<times> json \<Rightarrow> bool" where
  "holds es e \<longleftrightarrow> map_get (fst e) es = (if snd e = JNull then None else Some (snd e))"

lemma recovers_field:
  assumes "recovers S f g" and "good_entries es" and "field f es k = Inr x"
    and "\<forall>v. map_get k es = Some v \<longrightarrow> S v"
  shows "holds es (k, g x)"
  using assms good_get [OF assms(2), of k] good_not_null [OF assms(2), of k]
  by (auto simp: recovers_def field_def holds_def result_iff split: option.splits)

lemma recovers_option_field:
  assumes "recovers S f g" and "good_entries es" and "option_field f es k = Inr x"
    and "\<forall>v. map_get k es = Some v \<longrightarrow> S v"
  shows "holds es (k, option_value g x)"
  using assms good_get [OF assms(2), of k] good_not_null [OF assms(2), of k]
  by (auto simp: recovers_def option_field_def option_value_def holds_def result_iff split: option.splits if_splits)

text \<open>Entries with the right names and values are the object that is written.\<close>

lemma entries_object:
  assumes "sorted_map es" and "map_keys es \<subseteq> set (map fst fs)" and "distinct (map fst fs)"
    and "list_all (holds es) fs"
  shows "JObject es = object_of (present fs)"
proof -
  have "map_get k es = map_get k (insert_all (present fs) [])" for k
  proof (cases "map_of fs k")
    case None
    then have "k \<notin> map_keys es" using assms(2) by (auto simp: map_of_eq_None_iff)
    then show ?thesis using None by (simp add: map_get_object_present assms(3) map_get_None)
  next
    case (Some v)
    then have "(k, v) \<in> set fs" by (rule map_of_SomeD)
    with assms(4) have "map_get k es = (if v = JNull then None else Some v)"
      by (fastforce simp: list_all_iff holds_def)
    then show ?thesis using Some by (simp add: map_get_object_present assms(3))
  qed
  then show ?thesis
    unfolding object_of_def by (intro arg_cong [of _ _ JObject] sorted_map_eqI)
      (simp_all add: assms(1) sorted_insert_all)
qed

lemma any_value: "\<forall>v. map_get k es = Some v \<longrightarrow> True"
  by simp

lemma recovers_string: "recovers (\<lambda>_. True) de_string JString"
  by (auto simp: recovers_def de_string_def split: json.splits)

lemma recovers_json: "recovers (\<lambda>_. True) Inr id"
  by (simp add: recovers_def)

lemma recovers_u64: "recovers (\<lambda>_. True) de_u64 (\<lambda>n. JNumber (number_from_u64 n))"
  by (auto simp: recovers_def de_u64_def result_iff as_u64_Some split: json.splits)

lemma recovers_vec:
  assumes "recovers S f g"
  shows "recovers (array_of S) (de_vec f) (\<lambda>xs. JArray (map g xs))"
  unfolding recovers_def
proof (intro allI impI)
  fix v xs assume v: "good v" "array_of S v" "de_vec f v = Inr xs"
  then obtain vs where vs: "v = JArray vs" "list_all S vs" "list_all2 (\<lambda>v x. f v = Inr x) vs xs"
    by (auto simp: de_vec_def array_of_def traverse_all split: json.splits)
  have "list_all good vs" using v(1) by (simp add: vs(1) good_def list_all_iff)
  with vs(2,3) have "list_all2 (\<lambda>v x. v = g x) vs xs"
    using assms by (simp add: recovers_def list_all2_conv_all_nth list_all_length)
  then have "vs = map g xs" by (simp add: list_all2_conv_all_nth list_eq_iff_nth_eq)
  with vs(1) show "v = JArray (map g xs)" by simp
qed

lemma recovers_strings: "recovers (\<lambda>_. True) (de_vec de_string) strings_value"
proof -
  have "array_of (\<lambda>_. True) v" if "de_vec de_string v = Inr x" for v x
    using that by (auto simp: de_vec_def array_of_def list_all_iff split: json.splits)
  then show ?thesis
    using recovers_vec [OF recovers_string] unfolding recovers_def strings_value_def by blast
qed

lemmas recovers_leaves =
  recovers_field [OF recovers_string _ _ any_value] recovers_field [OF recovers_strings _ _ any_value]
  recovers_option_field [OF recovers_string _ _ any_value]
  recovers_option_field [OF recovers_json _ _ any_value] recovers_field [OF recovers_u64 _ _ any_value]

text \<open>One line for each struct.\<close>

lemma recovers_struct:
  assumes fields: "\<And>v x. f v = Inr x \<Longrightarrow>
      \<exists>es. struct_entries (map fst (fs x)) v = Inr es
        \<and> (good_entries es \<longrightarrow> list_all (holds es) (fs x))"
    and "\<And>x. distinct (map fst (fs x))"
  shows "recovers is_object f (\<lambda>x. object_of (present (fs x)))"
  unfolding recovers_def
proof (intro allI impI)
  fix v x assume v: "good v" "is_object v" "f v = Inr x"
  obtain es where es: "struct_entries (map fst (fs x)) v = Inr es"
    and get: "good_entries es \<longrightarrow> list_all (holds es) (fs x)"
    using fields [OF v(3)] by blast
  note form = struct_entries_object_form [OF v(2) es]
  with v(1) have "good_entries es" by (simp add: good_object)
  with get form assms(2) show "v = object_of (present (fs x))"
    by (simp add: entries_object good_entries_def)
qed

lemma recovers_policy: "recovers is_object de_policy policy_value"
proof -
  have "recovers is_object de_policy (\<lambda>p. object_of (present
      [(''policy_id'', JString (policy_id p)),
       (''required_algorithms'', strings_value (required_algorithms p))]))"
    by (rule recovers_struct) (auto simp: de_policy_def result_iff dest: recovers_leaves)
  then show ?thesis by (simp add: policy_value_def [abs_def] present_def)
qed

lemma recovers_capabilities: "recovers is_object de_capabilities capabilities_value"
proof -
  have "recovers is_object de_capabilities (\<lambda>c. object_of (present
      [(''required'', strings_value (required c)), (''optional'', strings_value (optional c))]))"
    by (rule recovers_struct) (auto simp: de_capabilities_def result_iff dest: recovers_leaves)
  then show ?thesis by (simp add: capabilities_value_def [abs_def] present_def)
qed

lemma recovers_artifact: "recovers is_object de_artifact artifact_value"
proof -
  have "recovers is_object de_artifact (\<lambda>a. object_of (present
      [(''uri'', JString (uri a)), (''media_type'', JString (media_type a)),
       (''sha512'', JString (sha512 a))]))"
    by (rule recovers_struct) (auto simp: de_artifact_def result_iff dest: recovers_leaves)
  then show ?thesis by (simp add: artifact_value_def [abs_def] present_def)
qed

lemma recovers_key: "recovers is_object de_key key_value"
proof -
  have "recovers is_object de_key (\<lambda>k. object_of (present
      [(''algorithm'', JString (algorithm k)), (''key_id'', JString (key_id k)),
       (''public_key_uri'', JString (public_key_uri k)),
       (''public_key_sha256'', JString (public_key_sha256 k)),
       (''status'', JString (status k)), (''usage'', strings_value (usage k))]))"
    by (rule recovers_struct) (auto simp: de_key_def result_iff dest: recovers_leaves)
  then show ?thesis by (simp add: key_value_def [abs_def] present_def)
qed

lemma recovers_operator: "recovers is_object de_operator compact_operator_value"
  unfolding compact_operator_value_def
  by (rule recovers_struct) (auto simp: de_operator_def result_iff dest: recovers_leaves)

lemmas recovers_structs =
  recovers_field [OF recovers_operator] recovers_field [OF recovers_policy]
  recovers_field [OF recovers_capabilities]

lemmas recovers_arrays =
  recovers_field [OF recovers_vec [OF recovers_key]]
  recovers_field [OF recovers_vec [OF recovers_artifact]]

text \<open>The manifest: a good value in map form is the one the encoder writes for what it reads.\<close>

lemma in_map_form_get:
  assumes "in_map_form (JObject es)"
  shows "k \<in> {''operator'', ''signature_policy'', ''capabilities''} \<Longrightarrow>
      \<forall>w. map_get k es = Some w \<longrightarrow> is_object w"
    and "k \<in> {''keys'', ''artifacts''} \<Longrightarrow> \<forall>w. map_get k es = Some w \<longrightarrow> array_of is_object w"
proof -
  have form: "field_in_map_form (k, w)" if "map_get k es = Some w" for w
    using assms that by (auto simp: in_map_form_def list_all_iff map_get_def dest: map_of_SomeD)
  show "\<forall>w. map_get k es = Some w \<longrightarrow> is_object w"
    if "k \<in> {''operator'', ''signature_policy'', ''capabilities''}"
    using that by (auto dest!: form simp only: field_in_map_form_def fst_conv snd_conv)
  show "\<forall>w. map_get k es = Some w \<longrightarrow> array_of is_object w" if "k \<in> {''keys'', ''artifacts''}"
    using that by (auto dest!: form simp only: field_in_map_form_def fst_conv snd_conv)
qed

lemma map_form_is_compact:
  assumes v: "good v" "in_map_form v" "derived_from_value v = Inr m"
  shows "v = compact_manifest_value m"
proof -
  obtain es where entries: "struct_entries manifest_field_names v = Inr es" and m: "fields_read es m"
    using v(3) by (rule derived_fields)
  have object: "is_object v" using v(2) by (simp add: in_map_form_def is_object_def split: json.splits)
  note es = struct_entries_object_form [OF object entries]
  have ok: "good_entries es" using v(1) by (simp add: es(1) good_object)
  note form = in_map_form_get [OF v(2) [unfolded es(1)]]
  let ?fs = "manifest_fields (compact_operator_value (operator_of m)) m"
  note get = recovers_leaves [OF ok] recovers_structs [OF ok _ form(1)] recovers_arrays [OF ok _ form(2)]
  have "list_all (holds es) ?fs"
    unfolding manifest_fields_def list.pred_inject
    by (insert m [unfolded fields_read_def], elim conjE, intro conjI list.pred_inject(1))
      (erule get; simp (no_asm))+
  then show ?thesis
    unfolding es(1) compact_manifest_value_def using ok es(2)
    by (intro entries_object)
      (simp_all add: good_entries_def manifest_fields_names distinct_manifest_field_names)
qed

lemma object_of_is_object: "is_object (object_of fs)"
  by (simp add: object_of_def is_object_def)

lemma compact_in_map_form: "in_map_form (compact_manifest_value m)"
proof -
  have "list_all field_in_map_form (manifest_fields (compact_operator_value (operator_of m)) m)"
    by (simp add: manifest_fields_def field_in_map_form_def compact_operator_value_def
        policy_value_def capabilities_value_def object_of_is_object array_of_def list_all_iff
        key_value_def artifact_value_def)
  then have "list_all field_in_map_form (compact_root m)"
    using set_insert_all [of "present (manifest_fields (compact_operator_value (operator_of m)) m)" "[]"]
    by (auto simp: compact_root_def list_all_iff present_def)
  then show ?thesis by (simp add: compact_root_value in_map_form_def)
qed

section \<open>The codec over derived code\<close>

text \<open>
  The interface of the codec, with what a derived \<open>Deserialize\<close> accepts: nothing but what the
  model of the attributes accepts.
\<close>

locale derived_codec = manifest_codec +
  assumes from_value_derived: "from_value cr v = Inr m \<Longrightarrow> derived_from_value v = Inr m"
begin

lemma decode_well_typed: "decode_manifest_cbor mc cr inp lim = Inr m \<Longrightarrow> wf_manifest m"
  unfolding decode_manifest_ok by (blast dest: from_value_derived intro: derived_well_typed)

text \<open>Decoding normalises: what the encoder makes of an accepted manifest is accepted as it.\<close>

lemma decode_encode_decode:
  assumes "decode_manifest_cbor mc cr inp lim = Inr m"
    and "encode_manifest_cbor_with_limits mc cr m lim' = Inr bs"
  shows "decode_manifest_cbor mc cr bs lim' = Inr m"
  by (rule manifest_round_trip [OF assms(2) decode_well_typed [OF assms(1)]])

lemma decode_canonical:
  assumes "decode_manifest_cbor mc cr inp lim = Inr m"
  shows "encode_manifest_cbor_with_limits mc cr m lim = Inr inp \<longleftrightarrow>
    (\<exists>v d. decode_value mc lim 0 (decoder_new inp) = Inr (v, d) \<and> in_map_form v)"
proof -
  obtain v where v: "wf_json v" "encode_value mc lim 0 v = Inr inp"
    and m: "\<not> exceeds (length inp) (max_manifest_bytes lim)" "derived_from_value v = Inr m"
      "option_ok is_object (identity m)" "validate cr m = Inr ()"
    using assms from_value_derived unfolding decode_manifest_ok by blast
  have decoded: "decode_value mc lim 0 (decoder_new inp) = Inr (v, advance (length inp) (decoder_new inp))"
    using decode_encode_value [OF v(2,1), of _ "[]"] by simp
  have good: "good v"
    using v(1) profile_no_null [OF encode_value_profile [OF v(2)]] by (simp add: good_def)
  have wf: "wf_json (compact_manifest_value m)"
    by (rule wf_compact_manifest_value [OF derived_well_typed [OF v(1) m(2)]])
  have "encode_manifest_cbor_with_limits mc cr m lim = Inr inp \<longleftrightarrow> v = compact_manifest_value m"
    using m v encode_prefix_free [OF v(2) _ v(1) wf, of inp "[]" "[]"]
    unfolding encode_manifest_ok by auto
  also have "\<dots> \<longleftrightarrow> in_map_form v"
    using map_form_is_compact [OF good _ m(2)] compact_in_map_form [of m] by auto
  finally show ?thesis using decoded by auto
qed

end

interpretation derived_reference: derived_codec rfc8949 reference_crates
  by unfold_locales (simp add: reference_crates_def)

section \<open>Properties\<close>

text \<open>
  C17: a manifest that \<open>decode_manifest_cbor\<close> returns has the types of its structs, whatever form
  its input had: every text is UTF-8 and every map of the identity document ordered.  So its
  own encoding, under any limits that admit it, is accepted as the same manifest.
\<close>

theorem decoded_manifest_well_typed:
  assumes "derived_codec mc cr" and "decode_manifest_cbor mc cr inp lim = Inr m"
  shows "wf_manifest m
    \<and> (\<forall>lim' bs. encode_manifest_cbor_with_limits mc cr m lim' = Inr bs
        \<longrightarrow> decode_manifest_cbor mc cr bs lim' = Inr m)"
  using derived_codec.decode_well_typed [OF assms] derived_codec.decode_encode_decode [OF assms]
  by blast

theorem decoded_manifest_well_typed_witness:
  "wf_manifest sample_manifest
   \<and> decode_manifest_cbor rfc8949 reference_crates manifest_vector default_limits
     = Inr sample_manifest"
  using decoded_manifest_well_typed [OF derived_reference.derived_codec_axioms sample_decoded]
    sample_encoded unfolding encode_manifest_cbor_def by blast

text \<open>
  C16: the encoder gives an accepted input back exactly when its value has an object for every
  struct.  So positional arrays are the only second form of a manifest: the condition on
  re-encoding in \<open>spec/CBOR-COSE.md\<close> holds for all other accepted inputs.
\<close>

theorem accepted_input_canonical_iff:
  assumes "derived_codec mc cr" and "decode_manifest_cbor mc cr inp lim = Inr m"
  shows "encode_manifest_cbor_with_limits mc cr m lim = Inr inp \<longleftrightarrow>
    (\<exists>v d. decode_value mc lim 0 (decoder_new inp) = Inr (v, d) \<and> in_map_form v)"
  by (rule derived_codec.decode_canonical [OF assms])

theorem accepted_input_canonical_iff_witness:
  "\<exists>v d. decode_value rfc8949 default_limits 0 (decoder_new manifest_vector) = Inr (v, d)
     \<and> in_map_form v"
  using accepted_input_canonical_iff [OF derived_reference.derived_codec_axioms sample_decoded]
    sample_encoded unfolding encode_manifest_cbor_def by blast

end
