(* ===== verification/Key_Order.thy ===== *)
theory Key_Order
  imports Cbor_Props
begin

text \<open>
  The order of map keys on the wire, \<open>compare_encoded_keys\<close> of \<open>crates/tfws-core/src/cbor.rs\<close>: a
  linear order of the encoded keys, shorter ones first.  With it as the order of a type, the
  encoder's sort is the library's \<open>sort_key\<close> and the check of the decoder is \<open><\<close>.
\<close>

section \<open>Encoded keys\<close>

datatype encoded_key = Encoded_Key (key_bytes: bytes)

instantiation encoded_key :: linorder
begin

definition less_eq_encoded_key :: "encoded_key \<Rightarrow> encoded_key \<Rightarrow> bool" where
  "k \<le> l \<longleftrightarrow> compare_encoded_keys (key_bytes k) (key_bytes l) \<noteq> Greater"

definition less_encoded_key :: "encoded_key \<Rightarrow> encoded_key \<Rightarrow> bool" where
  "k < l \<longleftrightarrow> compare_encoded_keys (key_bytes k) (key_bytes l) = Less"

lemma encoded_key_rank:
  "k < l \<longleftrightarrow> key_rank (key_bytes k) < key_rank (key_bytes l)"
  "k \<le> l \<longleftrightarrow> key_rank (key_bytes k) \<le> key_rank (key_bytes l)"
  by (auto simp: less_encoded_key_def less_eq_encoded_key_def compare_encoded_keys_def key_rank_def
      cmp_def split: if_splits)

instance
proof
  fix x y z :: encoded_key
  show "x < y \<longleftrightarrow> x \<le> y \<and> \<not> y \<le> x" unfolding encoded_key_rank by (rule less_le_not_le)
  show "x \<le> x" and "x \<le> y \<or> y \<le> x" unfolding encoded_key_rank by auto
  show "x \<le> z" if "x \<le> y" and "y \<le> z" using that unfolding encoded_key_rank by (rule order_trans)
  show "x = y" if "x \<le> y" and "y \<le> x"
    using that unfolding encoded_key_rank by (auto dest: antisym simp: key_rank_inject encoded_key.expand)
qed

end

lemma shorter_key_first: "length a < length b \<Longrightarrow> Encoded_Key a < Encoded_Key b"
  by (simp add: encoded_key_rank key_rank_def)

lemma encoded_keys_less: "compare_encoded_keys a b = Less \<longleftrightarrow> Encoded_Key a < Encoded_Key b"
  by (simp add: less_encoded_key_def)

lemma key_order_checked:
  "key_order_violated (Some p) k \<longleftrightarrow> \<not> Encoded_Key p < Encoded_Key k"
  by (simp add: key_order_violated_def encoded_keys_less)

lemma sort_by_encoded_key:
  "sort_by (\<lambda>l r. compare_encoded_keys (fst l) (fst r)) os = sort_key (\<lambda>e. Encoded_Key (fst e)) os"
proof -
  have "insert_by (\<lambda>l r. compare_encoded_keys (fst l) (fst r)) e os
      = insort_key (\<lambda>e. Encoded_Key (fst e)) e os" for e :: "bytes \<times> 'a" and os
    by (induction os) (auto simp: encoded_keys_less not_less)
  then show ?thesis by (induction os) simp_all
qed

section \<open>What the encoder writes for a map\<close>

definition entry_bytes :: "bytes \<times> bytes \<Rightarrow> bytes" where
  "entry_bytes p = fst p @ snd p"

definition entry_written :: "minicbor \<Rightarrow> cbor_limits \<Rightarrow> nat \<Rightarrow> str \<times> json \<Rightarrow> bytes \<times> bytes \<Rightarrow> bool" where
  "entry_written mc lim depth e p \<longleftrightarrow>
     me_str mc (fst e) = Inr (fst p) \<and> encode_value mc lim depth (snd e) = Inr (snd p)"

lemma encode_entries_parts:
  "encode_entries mc lim depth os = Inr bs \<Longrightarrow>
   \<exists>parts. bs = concat (map entry_bytes parts)
     \<and> list_all2 (entry_written mc lim depth) (map snd os) parts"
proof (induction os arbitrary: bs)
  case (Cons e os)
  obtain c key item where e: "e = (c, key, item)" by (cases e)
  with Cons.prems obtain k b bs' where "me_str mc key = Inr k" "encode_value mc lim depth item = Inr b"
    and bs': "encode_entries mc lim depth os = Inr bs'" and bs: "bs = k @ b @ bs'"
    by (auto simp: result_iff)
  moreover obtain parts where "bs' = concat (map entry_bytes parts)"
    "list_all2 (entry_written mc lim depth) (map snd os) parts"
    using Cons.IH [OF bs'] by blast
  ultimately show ?case
    by (intro exI [of _ "(k, b) # parts"]) 
      (simp add: e entry_bytes_def [of "(k, b)"] entry_written_def [of _ _ _ _ "(k, b)"])
qed simp

context cbor_data_items
begin

lemma map_written:
  assumes wf: "wf_json (JObject es)" and bs: "encode_value mc lim depth (JObject es) = Inr bs"
  shows "\<exists>header ordered parts. bs = header @ concat (map entry_bytes parts)
    \<and> me_map mc (of_nat (length es)) = Inr header
    \<and> mset ordered = mset es \<and> list_all2 (entry_written mc lim (Suc depth)) ordered parts
    \<and> sorted_wrt (<) (map (\<lambda>p. Encoded_Key (fst p)) parts)"
proof -
  let ?sort = "sort_key (\<lambda>e :: bytes \<times> str \<times> json. Encoded_Key (fst e))"
  obtain os header body where os: "order_entries mc lim es = Inr os"
    and header: "me_map mc (of_nat (length os)) = Inr header"
    and body: "encode_entries mc lim (Suc depth) (?sort os) = Inr body" and bs: "bs = header @ body"
    using bs unfolding encode_value_cases sort_by_encoded_key by blast
  obtain parts where parts: "body = concat (map entry_bytes parts)"
    "list_all2 (entry_written mc lim (Suc depth)) (map snd (?sort os)) parts"
    using encode_entries_parts [OF body] by blast
  have es: "map snd os = es" using os by (simp add: order_entries_ok)
  have written: "entries_written mc lim os"
    using os wf unfolding es [symmetric] by (auto simp: order_entries_ok entries_written_def)
  have "distinct (map (\<lambda>e. fst (snd e)) os)"
    using wf sorted_map_distinct [of es] unfolding es [symmetric] by (simp add: comp_def)
  then have "distinct (map (\<lambda>e. Encoded_Key (fst e)) (?sort os))"
    using entries_written_distinct [OF written]
    by (simp add: distinct_map inj_on_def)
  then have ascending: "sorted_wrt (<) (map (\<lambda>e. Encoded_Key (fst e)) (?sort os))"
    by (simp add: strict_sorted_iff)
  have key: "fst e = fst p" if "e \<in> set (?sort os)" "entry_written mc lim (Suc depth) (snd e) p" for e p
  proof -
    have "me_str mc (fst (snd e)) = Inr (fst e)"
      using that(1) written unfolding entries_written_def set_sort by blast
    with that(2) show ?thesis by (simp add: entry_written_def)
  qed
  have "list_all2 (\<lambda>e p. fst e = fst p) (?sort os) parts"
    by (rule list.rel_mono_strong [OF parts(2) [unfolded list_all2_map1]]) (rule key)
  then have "map fst (?sort os) = map fst parts"
    by (simp add: list_all2_conv_all_nth list_eq_iff_nth_eq)
  from arg_cong [OF this, of "map Encoded_Key"]
  have "map (\<lambda>e. Encoded_Key (fst e)) (?sort os) = map (\<lambda>p. Encoded_Key (fst p)) parts"
    by (simp add: comp_def)
  with ascending have sorted: "sorted_wrt (<) (map (\<lambda>p. Encoded_Key (fst p)) parts)" by (simp only:)
  have "mset (map snd (?sort os)) = mset es" unfolding es [symmetric] mset_map by simp
  moreover have "me_map mc (of_nat (length es)) = Inr header" using header es by auto
  ultimately show ?thesis using bs parts sorted by blast
qed

end



section \<open>What the decoder makes of any sequence of entries\<close>

text \<open>
  The checks of the entry loop on keys with their encodings, and where the first one fails.
\<close>

fun key_fault :: "str set \<Rightarrow> bytes option \<Rightarrow> (str \<times> bytes) list \<Rightarrow> cbor_error option" where
  "key_fault seen prev [] = None"
| "key_fault seen prev ((k, kb) # ks) =
     (if k \<in> seen then Some (DuplicateKey k)
      else if key_order_violated prev kb then Some MapKeyOrder
      else key_fault (insert k seen) (Some kb) ks)"

definition in_key_order :: "(str \<times> bytes) list \<Rightarrow> bool" where
  "in_key_order ks \<longleftrightarrow> sorted_wrt (<) (map (\<lambda>e. Encoded_Key (snd e)) ks)"

lemma key_fault_append:
  "key_fault seen prev (ks @ ls) = (case key_fault seen prev ks of
     Some e \<Rightarrow> Some e
   | None \<Rightarrow> key_fault (seen \<union> fst ` set ks) (if ks = [] then prev else Some (snd (last ks))) ls)"
proof (induction ks arbitrary: seen prev)
  case (Cons e ks)
  then show ?case by (cases e) (auto split: option.split)
qed simp

lemma in_key_order_append:
  "in_key_order (ks @ [e]) \<longleftrightarrow>
     in_key_order ks \<and> (ks = [] \<or> Encoded_Key (snd (last ks)) < Encoded_Key (snd e))"
proof (cases ks rule: rev_cases)
  case (snoc ls l)
  then show ?thesis by (auto simp: in_key_order_def sorted_wrt_append intro: less_trans)
qed (simp add: in_key_order_def)

definition one_encoding :: "(str \<times> bytes) list \<Rightarrow> bool" where
  "one_encoding ks \<longleftrightarrow> (\<forall>e \<in> set ks. \<forall>f \<in> set ks. fst e = fst f \<longrightarrow> e = f)"

lemma in_key_order_distinct:
  assumes "in_key_order ks" and "one_encoding ks"
  shows "distinct (map fst ks)"
proof -
  have "distinct (map (\<lambda>e. Encoded_Key (snd e)) ks)"
    using assms(1) by (simp add: in_key_order_def strict_sorted_iff)
  then have "distinct ks" "inj_on (\<lambda>e. Encoded_Key (snd e)) (set ks)" by (simp_all add: distinct_map)
  moreover have "inj_on fst (set ks)"
    using assms(2) by (simp add: inj_on_def one_encoding_def)
  ultimately show ?thesis by (simp add: distinct_map)
qed

text \<open>In order means no fault; otherwise the first key that is out of place decides.\<close>

lemma key_fault_None:
  assumes "in_key_order ks" and "distinct (map fst ks)"
  shows "key_fault {} None ks = None"
  using assms
proof (induction ks rule: rev_induct)
  case (snoc e ks)
  then show ?case
    by (cases e) (auto simp: key_fault_append in_key_order_append key_order_checked
        key_order_violated_def encoded_keys_less)
qed simp

lemma key_fault_Some:
  assumes "\<not> in_key_order ks" and "one_encoding ks"
  shows "\<exists>pre k b post. ks = pre @ (k, b) # post \<and> in_key_order pre \<and> \<not> in_key_order (pre @ [(k, b)])
    \<and> key_fault {} None ks = Some (if k \<in> fst ` set pre then DuplicateKey k else MapKeyOrder)"
  using assms
proof (induction ks rule: rev_induct)
  case Nil
  then show ?case by (simp add: in_key_order_def)
next
  case (snoc e ks)
  obtain k b where e: "e = (k, b)" by (cases e)
  have det: "one_encoding ks" using snoc.prems(2) by (simp add: one_encoding_def)
  show ?case
  proof (cases "in_key_order ks")
    case True
    have "distinct (map fst ks)" by (rule in_key_order_distinct [OF True det])
    then have "key_fault {} None ks = None" by (rule key_fault_None [OF True])
    then have "key_fault {} None (ks @ [e]) = Some (if k \<in> fst ` set ks then DuplicateKey k else MapKeyOrder)"
      using snoc.prems(1) True
      by (auto simp: e key_fault_append in_key_order_append key_order_checked)
    with True snoc.prems(1) e show ?thesis by blast
  next
    case False
    from snoc.IH [OF False det] obtain pre l c post where pre: "ks = pre @ (l, c) # post"
        "in_key_order pre" "\<not> in_key_order (pre @ [(l, c)])"
      and fault: "key_fault {} None ks = Some (if l \<in> fst ` set pre then DuplicateKey l else MapKeyOrder)"
      by blast
    have "key_fault {} None (ks @ [e]) = key_fault {} None ks"
      unfolding key_fault_append fault by (simp only: option.case)
    moreover have "ks @ [e] = pre @ (l, c) # (post @ [e])" by (simp add: pre(1))
    ultimately show ?thesis using fault pre(2,3) by metis
  qed
qed

text \<open>The entries the loop can read: keys and values the encoder writes.\<close>

definition readable_entry :: "cbor_limits \<Rightarrow> str \<times> json \<Rightarrow> bool" where
  "readable_entry lim e \<longleftrightarrow> valid_utf8 (fst e) \<and> wf_json (snd e)
     \<and> \<not> exceeds (length (fst e)) (max_string_bytes lim)"

context cbor_data_items
begin

lemma decode_entries_run:
  assumes "list_all2 (entry_written mc lim (Suc depth)) es parts" and "list_all (readable_entry lim) es"
    and "remaining d = concat (map entry_bytes parts) @ r"
  shows "decode_entries mc lim depth (length es) acc seen prev d =
    (case key_fault seen prev (zip (map fst es) (map fst parts)) of
       Some e \<Rightarrow> Inl e
     | None \<Rightarrow> Inr (insert_all es acc, advance (length (concat (map entry_bytes parts))) d))"
  using assms
proof (induction es parts arbitrary: acc seen prev d rule: list_all2_induct)
  case Nil
  then show ?case by (simp add: decode_entries.simps)
next
  case (Cons e es p parts)
  obtain k v where e: "e = (k, v)" by (cases e)
  obtain kb vb where p: "p = (kb, vb)" by (cases p)
  have written: "me_str mc k = Inr kb" "encode_value mc lim (Suc depth) v = Inr vb"
    using Cons.hyps(1) by (simp_all add: e p entry_written_def)
  have ok: "valid_utf8 k" "wf_json v" "\<not> exceeds (length k) (max_string_bytes lim)"
    using Cons.prems(1) by (auto simp: e readable_entry_def)
  have rest: "list_all (readable_entry lim) es" using Cons.prems(1) by simp
  let ?d = "advance (length (kb @ vb)) d"
  have rem: "remaining d = kb @ (vb @ concat (map entry_bytes parts) @ r)"
    using Cons.prems(2) by (simp add: p entry_bytes_def [of "(kb, vb)"])
  have "decode_value mc lim (depth + 1) (advance (length kb) d) = Inr (v, ?d)"
    using decode_encode_value [OF written(2) ok(2), of "advance (length kb) d"] rem by simp
  moreover have "remaining ?d = concat (map entry_bytes parts) @ r" using rem by simp
  ultimately show ?case
    using decode_entries_key [OF written(1) ok(1,3) rem, of depth "length es" acc seen prev]
      Cons.IH [OF rest, of ?d "map_insert k v acc" "insert k seen" "Some kb"]
    by (simp add: e p entry_bytes_def [of "(kb, vb)"] add.assoc split: option.split)
qed

lemma entries_one_encoding:
  "list_all2 (entry_written mc lim depth) es parts \<Longrightarrow>
   one_encoding (zip (map fst es) (map fst parts))"
  by (auto simp: one_encoding_def entry_written_def list_all2_conv_all_nth set_zip)
    (metis sum.inject(2))

lemma map_decided:
  assumes entries: "list_all2 (entry_written mc lim (Suc depth)) es parts" "list_all (readable_entry lim) es"
    and header: "me_map mc n = Inr header" "unat n = length es"
    and room: "\<not> exceeds depth (max_depth lim)" "\<not> exceeds (length es) (max_map_pairs lim)"
    and inp: "remaining d = header @ concat (map entry_bytes parts) @ r"
  defines "ks \<equiv> zip (map fst es) (map fst parts)"
  shows "decode_value mc lim depth d = (case key_fault {} None ks of
     Some e \<Rightarrow> Inl e
   | None \<Rightarrow> Inr (JObject (insert_all es []),
       advance (length (header @ concat (map entry_bytes parts))) d))"
proof -
  have "remaining (advance (length header) d) = concat (map entry_bytes parts) @ r" using inp by simp
  from decode_entries_run [OF entries this, of "[]" "{}" None]
    decode_value_map [OF header(1) inp room(1)] header(2) room(2)
  show ?thesis by (simp add: ks_def split: option.split)
qed

end

text \<open>
  C19: a map is read exactly when its keys strictly ascend.  For any entries the encoder could
  write, in any order and with repetitions: in ascending order they give the object, and
  otherwise the first key that is out of place decides the error: \<open>DuplicateKey\<close> with the key
  when it occurred before, \<open>MapKeyOrder\<close> when it did not.
\<close>

theorem map_input_decided:
  assumes items: "cbor_data_items mc"
    and entries: "list_all2 (entry_written mc lim (Suc depth)) es parts" "list_all (readable_entry lim) es"
    and header: "me_map mc n = Inr header" "unat n = length es"
    and room: "\<not> exceeds depth (max_depth lim)" "\<not> exceeds (length es) (max_map_pairs lim)"
    and inp: "remaining d = header @ concat (map entry_bytes parts) @ r"
  defines "ks \<equiv> zip (map fst es) (map fst parts)"
  shows "if in_key_order ks
    then decode_value mc lim depth d = Inr (JObject (insert_all es []),
      advance (length (header @ concat (map entry_bytes parts))) d)
    else \<exists>pre k b post. ks = pre @ (k, b) # post \<and> in_key_order pre \<and> \<not> in_key_order (pre @ [(k, b)])
      \<and> decode_value mc lim depth d = Inl (if k \<in> fst ` set pre then DuplicateKey k else MapKeyOrder)"
proof -
  note decided = cbor_data_items.map_decided [OF items entries header room inp, folded ks_def]
  have one: "one_encoding ks"
    unfolding ks_def by (rule cbor_data_items.entries_one_encoding [OF items entries(1)])
  show ?thesis
  proof (cases "in_key_order ks")
    case True
    with key_fault_None [OF True in_key_order_distinct [OF True one]] decided show ?thesis by simp
  next
    case False
    obtain pre k b post where "ks = pre @ (k, b) # post" "in_key_order pre"
        "\<not> in_key_order (pre @ [(k, b)])"
      and fault: "key_fault {} None ks = Some (if k \<in> fst ` set pre then DuplicateKey k else MapKeyOrder)"
      using key_fault_Some [OF False one] by blast
    moreover have "decode_value mc lim depth d = Inl (if k \<in> fst ` set pre then DuplicateKey k else MapKeyOrder)"
      unfolding decided fault by (simp only: option.case)
    ultimately show ?thesis unfolding if_not_P [OF False] by blast
  qed
qed

theorem map_input_decided_witness:
  "decode_value rfc8949 default_limits 0
     (decoder_new [0xa3, 0x61, 0x61, 0xf5, 0x61, 0x62, 0xf4, 0x61, 0x61, 0xf4, 0x00])
     = Inl (DuplicateKey ''a'')"
proof -
  let ?es = "[(''a'', JBool True), (''b'', JBool False), (''a'', JBool False)]"
    and ?parts = "[([0x61, 0x61], [0xf5]), ([0x61, 0x62], [0xf4]), ([0x61, 0x61], [0xf4 :: u8])] :: (bytes \<times> bytes) list"
  let ?ks = "[(''a'', [0x61, 0x61]), (''b'', [0x61, 0x62]), (''a'', [0x61, 0x61])] :: (str \<times> bytes) list"
  have written: "list_all2 (entry_written rfc8949 default_limits (Suc 0)) ?es ?parts" by code_simp
  have readable: "list_all (readable_entry default_limits) ?es"
    by (simp add: readable_entry_def ascii_def exceeds_def default_limits_def)
  have order: "in_key_order (take 1 ?ks)" "in_key_order (take 2 ?ks)" "\<not> in_key_order ?ks" by code_simp+
  have "\<exists>pre k b post. ?ks = pre @ (k, b) # post \<and> in_key_order pre \<and> \<not> in_key_order (pre @ [(k, b)])
      \<and> decode_value rfc8949 default_limits 0
          (decoder_new [0xa3, 0x61, 0x61, 0xf5, 0x61, 0x62, 0xf4, 0x61, 0x61, 0xf4, 0x00])
        = Inl (if k \<in> fst ` set pre then DuplicateKey k else MapKeyOrder)"
    using map_input_decided [OF rfc_items.cbor_data_items_axioms written readable, of 3 "[0xa3]"
        "decoder_new [0xa3, 0x61, 0x61, 0xf5, 0x61, 0x62, 0xf4, 0x61, 0x61, 0xf4, 0x00]" "[0]"] order(3)
    by (simp add: rfc_defs head_bytes_def initial_byte_def exceeds_def default_limits_def entry_bytes_def)
  then show ?thesis using order
    by (auto simp: Cons_eq_append_conv in_key_order_def)
qed

end
