(* ===== verification/Sha256.thy ===== *)
theory Sha256
  imports Rfc8949
begin

unbundle bit_operations_syntax

text \<open>
  The function \<open>sha256\<close> of \<open>crates/tfws-cli/src/main.rs\<close>, loop by loop, and SHA-256 as
  FIPS 180-4 states it; the code computes the standard on every input.
\<close>

section \<open>Constants and words\<close>

definition INITIAL :: "u32 list" where
  "INITIAL = [
     0x6a09e667, 0xbb67ae85, 0x3c6ef372, 0xa54ff53a, 0x510e527f, 0x9b05688c, 0x1f83d9ab,
     0x5be0cd19]"

text \<open>The round constants, in the rows of the source.\<close>

definition ROUND :: "u32 list" where
  "ROUND =
     [0x428a2f98, 0x71374491, 0xb5c0fbcf, 0xe9b5dba5, 0x3956c25b, 0x59f111f1, 0x923f82a4] @
     [0xab1c5ed5, 0xd807aa98, 0x12835b01, 0x243185be, 0x550c7dc3, 0x72be5d74, 0x80deb1fe] @
     [0x9bdc06a7, 0xc19bf174, 0xe49b69c1, 0xefbe4786, 0x0fc19dc6, 0x240ca1cc, 0x2de92c6f] @
     [0x4a7484aa, 0x5cb0a9dc, 0x76f988da, 0x983e5152, 0xa831c66d, 0xb00327c8, 0xbf597fc7] @
     [0xc6e00bf3, 0xd5a79147, 0x06ca6351, 0x14292967, 0x27b70a85, 0x2e1b2138, 0x4d2c6dfc] @
     [0x53380d13, 0x650a7354, 0x766a0abb, 0x81c2c92e, 0x92722c85, 0xa2bfe8a1, 0xa81a664b] @
     [0xc24b8b70, 0xc76c51a3, 0xd192e819, 0xd6990624, 0xf40e3585, 0x106aa070, 0x19a4c116] @
     [0x1e376c08, 0x2748774c, 0x34b0bcb5, 0x391c0cb3, 0x4ed8aa4a, 0x5b9cca4f, 0x682e6ff3] @
     [0x748f82ee, 0x78a5636f, 0x84c87814, 0x8cc70208, 0x90befffa, 0xa4506ceb, 0xbef9a3f7] @
     [0xc67178f2]"

text \<open>\<open>u32::rotate_right\<close>, \<open>u32::from_be_bytes\<close> and \<open>to_be_bytes\<close>.\<close>

definition rotate_right :: "nat \<Rightarrow> u32 \<Rightarrow> u32" where
  "rotate_right n x = drop_bit n x OR push_bit (32 - n) x"

definition u32_from_be_bytes :: "u8 \<Rightarrow> u8 \<Rightarrow> u8 \<Rightarrow> u8 \<Rightarrow> u32" where
  "u32_from_be_bytes a b c d =
     push_bit 24 (ucast a) OR push_bit 16 (ucast b) OR push_bit 8 (ucast c) OR ucast d"

definition u32_to_be_bytes :: "u32 \<Rightarrow> bytes" where
  "u32_to_be_bytes w = map (\<lambda>n. ucast (drop_bit n w)) [24, 16, 8, 0]"

definition u64_to_be_bytes :: "u64 \<Rightarrow> bytes" where
  "u64_to_be_bytes w = map (\<lambda>n. ucast (drop_bit n w)) [56, 48, 40, 32, 24, 16, 8, 0]"

section \<open>Padding\<close>

text \<open>\<open>while padded.len() % 64 != 56\<close>: bytes missing to the next length of that form.\<close>

definition missing :: "nat \<Rightarrow> nat" where
  "missing n = (if n mod 64 \<le> 56 then 56 - n mod 64 else 120 - n mod 64)"

lemma missing_zero: "missing n = 0 \<longleftrightarrow> n mod 64 = 56"
  using mod_less_divisor [of 64 n] by (auto simp: missing_def)

lemma missing_Suc: "n mod 64 \<noteq> 56 \<Longrightarrow> missing n = Suc (missing (Suc n))"
  using mod_less_divisor [of 64 n] by (auto simp: missing_def mod_Suc)

function pad_zeros :: "bytes \<Rightarrow> bytes" where
  "pad_zeros padded =
     (if length padded mod 64 \<noteq> 56 then pad_zeros (padded @ [0]) else padded)"
  by pat_completeness auto
termination
  by (relation "measure (\<lambda>padded. missing (length padded))") (simp_all add: missing_Suc)

declare pad_zeros.simps [simp del]

definition padding :: "bytes \<Rightarrow> bytes" where
  "padding input =
     pad_zeros (input @ [0x80]) @ u64_to_be_bytes (of_nat (length input) * 8)"

section \<open>One block\<close>

text \<open>\<open>chunks_exact\<close>: the whole chunks; a rest is left out.\<close>

function chunks_exact :: "nat \<Rightarrow> 'a list \<Rightarrow> 'a list list" where
  "chunks_exact n xs =
     (if n = 0 \<or> length xs < n then [] else take n xs # chunks_exact n (drop n xs))"
  by pat_completeness auto
termination
  by (relation "measure (\<lambda>(n, xs). length xs)") auto

declare chunks_exact.simps [simp del]

definition block_words :: "bytes \<Rightarrow> u32 list" where
  "block_words block = map (\<lambda>index. let offset = index * 4 in
     u32_from_be_bytes (block ! offset) (block ! (offset + 1)) (block ! (offset + 2))
       (block ! (offset + 3))) [0..<16] @ replicate 48 0"

definition schedule_step :: "nat \<Rightarrow> u32 list \<Rightarrow> u32 list" where
  "schedule_step index words =
     (let s0 = rotate_right 7 (words ! (index - 15)) XOR rotate_right 18 (words ! (index - 15))
            XOR drop_bit 3 (words ! (index - 15));
          s1 = rotate_right 17 (words ! (index - 2)) XOR rotate_right 19 (words ! (index - 2))
            XOR drop_bit 10 (words ! (index - 2))
      in words[index := words ! (index - 16) + s0 + words ! (index - 7) + s1])"

definition schedule :: "bytes \<Rightarrow> u32 list" where
  "schedule block = fold schedule_step [16..<64] (block_words block)"

record working =
  va :: u32  vb :: u32  vc :: u32  vd :: u32  ve :: u32  vf :: u32  vg :: u32  vh :: u32

definition working_of :: "u32 list \<Rightarrow> working" where
  "working_of state = \<lparr>va = state ! 0, vb = state ! 1, vc = state ! 2, vd = state ! 3,
     ve = state ! 4, vf = state ! 5, vg = state ! 6, vh = state ! 7\<rparr>"

definition working_list :: "working \<Rightarrow> u32 list" where
  "working_list v = [va v, vb v, vc v, vd v, ve v, vf v, vg v, vh v]"

definition round_step :: "u32 list \<Rightarrow> nat \<Rightarrow> working \<Rightarrow> working" where
  "round_step words index v =
     (let sigma1 = rotate_right 6 (ve v) XOR rotate_right 11 (ve v) XOR rotate_right 25 (ve v);
          chosen = (ve v AND vf v) XOR (NOT (ve v) AND vg v);
          temp1 = vh v + sigma1 + chosen + ROUND ! index + words ! index;
          sigma0 = rotate_right 2 (va v) XOR rotate_right 13 (va v) XOR rotate_right 22 (va v);
          majority = (va v AND vb v) XOR (va v AND vc v) XOR (vb v AND vc v);
          temp2 = sigma0 + majority
      in \<lparr>va = temp1 + temp2, vb = va v, vc = vb v, vd = vc v, ve = vd v + temp1,
          vf = ve v, vg = vf v, vh = vg v\<rparr>)"

definition compress :: "u32 list \<Rightarrow> bytes \<Rightarrow> u32 list" where
  "compress state block =
     map2 (+) state (working_list (fold (round_step (schedule block)) [0..<64] (working_of state)))"

definition sha256 :: "bytes \<Rightarrow> bytes" where
  "sha256 input =
     concat (map u32_to_be_bytes (foldl compress INITIAL (chunks_exact 64 (padding input))))"

section \<open>FIPS 180-4\<close>

text \<open>
  Sections 2, 4, 5 and 6 of the standard, on bytes: the functions of SHA-256, the padded
  message, the message schedule as a recurrence, the rounds and the chaining.
\<close>

definition Ch :: "u32 \<Rightarrow> u32 \<Rightarrow> u32 \<Rightarrow> u32" where
  "Ch x y z = (x AND y) XOR (NOT x AND z)"

definition Maj :: "u32 \<Rightarrow> u32 \<Rightarrow> u32 \<Rightarrow> u32" where
  "Maj x y z = (x AND y) XOR (x AND z) XOR (y AND z)"

definition Sigma0 :: "u32 \<Rightarrow> u32" where
  "Sigma0 x = word_rotr 2 x XOR word_rotr 13 x XOR word_rotr 22 x"

definition Sigma1 :: "u32 \<Rightarrow> u32" where
  "Sigma1 x = word_rotr 6 x XOR word_rotr 11 x XOR word_rotr 25 x"

definition sigma0 :: "u32 \<Rightarrow> u32" where
  "sigma0 x = word_rotr 7 x XOR word_rotr 18 x XOR drop_bit 3 x"

definition sigma1 :: "u32 \<Rightarrow> u32" where
  "sigma1 x = word_rotr 17 x XOR word_rotr 19 x XOR drop_bit 10 x"

text \<open>
  Padding: the bit 1, then the \<open>k\<close> zero bits with \<open>l + 1 + k \<equiv> 448 (mod 512)\<close> for a message of
  \<open>l\<close> bits, here in bytes, then \<open>l\<close> in 64 bits (the standard ends at \<open>l < 2 ^ 64\<close>).
\<close>

definition fips_padding :: "bytes \<Rightarrow> bytes" where
  "fips_padding M =
     M @ [0x80] @ replicate (nat ((55 - int (length M)) mod 64)) 0 @ be_bytes 8 (8 * length M)"

text \<open>The word \<open>M\<close> with index \<open>t\<close> of a block, and the message schedule.\<close>

definition message_word :: "bytes \<Rightarrow> nat \<Rightarrow> u32" where
  "message_word block t = of_nat (be_value (take 4 (drop (4 * t) block)))"

function W :: "bytes \<Rightarrow> nat \<Rightarrow> u32" where
  "W block t =
     (if t < 16 then message_word block t
      else sigma1 (W block (t - 2)) + W block (t - 7) + sigma0 (W block (t - 15)) + W block (t - 16))"
  by pat_completeness auto
termination
  by (relation "measure snd") auto

declare W.simps [simp del]

definition fips_round :: "bytes \<Rightarrow> nat \<Rightarrow> working \<Rightarrow> working" where
  "fips_round block t v =
     (let T1 = vh v + Sigma1 (ve v) + Ch (ve v) (vf v) (vg v) + ROUND ! t + W block t;
          T2 = Sigma0 (va v) + Maj (va v) (vb v) (vc v)
      in \<lparr>va = T1 + T2, vb = va v, vc = vb v, vd = vc v, ve = vd v + T1, vf = ve v, vg = vf v,
          vh = vg v\<rparr>)"

primrec fips_rounds :: "bytes \<Rightarrow> nat \<Rightarrow> working \<Rightarrow> working" where
  "fips_rounds block 0 v = v"
| "fips_rounds block (Suc t) v = fips_round block t (fips_rounds block t v)"

definition fips_block :: "u32 list \<Rightarrow> bytes \<Rightarrow> u32 list" where
  "fips_block H block =
     map2 (+) H (working_list (fips_rounds block 64 (working_of H)))"

definition fips_sha256 :: "bytes \<Rightarrow> bytes" where
  "fips_sha256 M =
     (let padded = fips_padding M;
          blocks = map (\<lambda>i. take 64 (drop (64 * i) padded)) [0..<length padded div 64]
      in concat (map (\<lambda>w. be_bytes 4 (unat w)) (foldl fips_block INITIAL blocks)))"

section \<open>Words and bytes\<close>

lemma rotate_right_rotr: "n < 32 \<Longrightarrow> rotate_right n x = word_rotr n x"
proof (rule bit_word_eqI)
  fix k
  assume n: "n < 32" and k: "k < LENGTH(32)"
  show "bit (rotate_right n x) k = bit (word_rotr n x) k"
  proof (cases "k + n < 32")
    case True
    with k show ?thesis by (simp add: rotate_right_def bit_simps add.commute le_diff_conv)
  next
    case False
    then have "(k + n) mod 32 = k - (32 - n)"
      using n k by (simp add: le_mod_geq)
    with False n k show ?thesis
      using bit_imp_le_length [of x "n + k"]
      by (auto simp: rotate_right_def bit_simps add.commute)
  qed
qed

lemma be_bytes_mod: "be_bytes k (n mod 256 ^ k) = be_bytes k n"
proof (induction k arbitrary: n)
  case (Suc k)
  have eq: "n mod 256 ^ Suc k = 256 * (n div 256 mod 256 ^ k) + n mod 256"
    by (simp add: mod_mult2_eq)
  have "n mod 256 ^ Suc k div 256 = n div 256 mod 256 ^ k" "n mod 256 ^ Suc k mod 256 = n mod 256"
    unfolding eq by simp_all
  with Suc show ?case by simp
qed simp

lemma byte_of: "ucast (drop_bit n (w :: 'a::len word)) = (of_nat (unat w div 2 ^ n mod 256) :: u8)"
  by (simp add: word_unat_eq_iff unsigned_ucast_eq unsigned_of_nat unat_drop_bit_eq take_bit_eq_mod)
    (simp add: drop_bit_eq_div)

lemma be_bytes_digits:
  "be_bytes k n = map (\<lambda>i. of_nat (n div 256 ^ i mod 256)) (rev [0..<k])"
proof (induction k arbitrary: n)
  case (Suc k)
  have "[0..<Suc k] = 0 # map Suc [0..<k]" by (simp add: map_Suc_upt upt_conv_Cons)
  then show ?case by (simp add: Suc rev_map div_mult2_eq o_def del: upt_Suc)
qed simp

lemma be_bytes_4:
  "be_bytes 4 n = map (\<lambda>k. of_nat (n div 2 ^ k mod 256)) [24, 16, 8, 0]"
  by (simp add: be_bytes_digits upt_rec)

lemma be_bytes_8:
  "be_bytes 8 n = map (\<lambda>k. of_nat (n div 2 ^ k mod 256)) [56, 48, 40, 32, 24, 16, 8, 0]"
  by (simp add: be_bytes_digits upt_rec)

lemma u32_to_be_bytes_spec: "u32_to_be_bytes w = be_bytes 4 (unat w)"
  unfolding be_bytes_4 u32_to_be_bytes_def byte_of ..

lemma u64_to_be_bytes_spec: "u64_to_be_bytes w = be_bytes 8 (unat w)"
  unfolding be_bytes_8 u64_to_be_bytes_def byte_of ..

lemma bit_length: "u64_to_be_bytes (of_nat n * 8) = be_bytes 8 (8 * n)"
proof -
  have "unat (of_nat n * 8 :: u64) = 8 * n mod 256 ^ 8"
    using unat_of_nat [of "8 * n", where 'a = 64] by (simp add: mult.commute)
  then show ?thesis by (simp only: u64_to_be_bytes_spec be_bytes_mod)
qed

lemma push_bit_or:
  assumes "\<And>m. bit b m \<Longrightarrow> m < k"
  shows "push_bit k a OR b = push_bit k a + (b :: u32)"
  by (rule disjunctive_add [symmetric]) (use assms in \<open>force simp: bit_simps\<close>)

lemma bit_ucast_byte: "bit (ucast (a :: u8) :: u32) m \<Longrightarrow> m < 8"
  using bit_imp_le_length [of a m] by (simp add: bit_simps)

lemma u32_from_be_bytes_spec: "u32_from_be_bytes a b c d = of_nat (be_value [a, b, c, d])"
proof -
  have 1: "push_bit 8 (ucast c) OR ucast d = push_bit 8 (ucast c) + (ucast d :: u32)"
    by (rule push_bit_or) (rule bit_ucast_byte)
  have 2: "push_bit 16 (ucast b) OR (push_bit 8 (ucast c) OR ucast d)
      = push_bit 16 (ucast b) + (push_bit 8 (ucast c) OR ucast d :: u32)"
    by (rule push_bit_or) (auto simp: bit_or_iff bit_push_bit_iff dest!: bit_ucast_byte)
  have 3: "push_bit 24 (ucast a) OR (push_bit 16 (ucast b) OR (push_bit 8 (ucast c) OR ucast d))
      = push_bit 24 (ucast a) + (push_bit 16 (ucast b) OR (push_bit 8 (ucast c) OR ucast d) :: u32)"
    by (rule push_bit_or) (auto simp: bit_or_iff bit_push_bit_iff dest!: bit_ucast_byte)
  show ?thesis
    unfolding u32_from_be_bytes_def or.assoc unfolding 3 unfolding 2 unfolding 1
    by (simp add: be_value_def push_bit_eq_mult algebra_simps)
qed

section \<open>The loops compute the standard\<close>

lemma pad_zeros_replicate:
  "pad_zeros padded = padded @ replicate (missing (length padded)) 0"
proof (induction padded rule: pad_zeros.induct)
  case (1 padded)
  show ?case
  proof (cases "length padded mod 64 = 56")
    case True
    then show ?thesis by (simp add: pad_zeros.simps [of padded] missing_zero [THEN iffD2])
  next
    case False
    with 1 show ?thesis
      by (simp add: pad_zeros.simps [of padded] missing_Suc replicate_append_same [symmetric])
  qed
qed

lemma missing_fips: "nat ((55 - int n) mod 64) = missing (Suc n)"
proof -
  define q r where "q = Suc n div 64" and "r = Suc n mod 64"
  have n: "Suc n = 64 * q + r" and r: "r < 64" by (simp_all add: q_def r_def)
  then have "55 - int n = (56 - int r) + 64 * (- int q)" by simp
  then have "(55 - int n) mod 64 = (56 - int r) mod 64" by (simp only: mod_mult_self2)
  also have "\<dots> = (if r \<le> 56 then 56 - int r else 120 - int r)"
  proof (cases "r \<le> 56")
    case False
    have "(56 - int r) mod 64 = (120 - int r) mod 64"
      using mod_add_self2 [of "56 - int r" 64] by simp
    with False r show ?thesis by simp
  qed simp
  finally show ?thesis by (auto simp: missing_def r_def [symmetric])
qed

lemma padding_spec: "padding input = fips_padding input"
  by (simp add: padding_def fips_padding_def pad_zeros_replicate bit_length missing_fips)

lemma chunks_exact_map:
  "0 < n \<Longrightarrow> chunks_exact n xs = map (\<lambda>i. take n (drop (n * i) xs)) [0..<length xs div n]"
proof (induction n xs rule: chunks_exact.induct)
  case (1 n xs)
  show ?case
  proof (cases "length xs < n")
    case True
    then show ?thesis by (simp add: chunks_exact.simps [of n xs])
  next
    case False
    with 1 have tail: "chunks_exact n (drop n xs)
        = map (\<lambda>i. take n (drop (n * i) (drop n xs))) [0..<(length xs - n) div n]" by simp
    have "length xs div n = Suc ((length xs - n) div n)"
      using False 1(2) by (simp add: le_div_geq)
    moreover have "[0..<Suc k] = 0 # map Suc [0..<k]" for k by (simp add: map_Suc_upt upt_conv_Cons)
    ultimately show ?thesis
      using False 1(2) by (simp add: chunks_exact.simps [of n xs] tail o_def add.commute del: upt_Suc)
  qed
qed

lemma take_4_nth:
  assumes "n + 3 < length xs"
  shows "take 4 (drop n xs) = [xs ! n, xs ! (n + 1), xs ! (n + 2), xs ! (n + 3)]"
  using assms by (intro nth_equalityI) (auto simp: less_Suc_eq numeral_eq_Suc)

lemma block_words_nth:
  assumes "length block = 64" and "t < 16"
  shows "block_words block ! t = message_word block t"
  using assms take_4_nth [of "4 * t" block]
  by (simp add: block_words_def nth_append Let_def message_word_def u32_from_be_bytes_spec
      mult.commute)

lemma schedule_step_nth:
  assumes "length ws = 64" and "k < 48"
  shows "schedule_step (16 + k) ws ! (16 + k)
    = ws ! k + sigma0 (ws ! (k + 1)) + ws ! (k + 9) + sigma1 (ws ! (k + 14))"
  using assms
  by (simp add: schedule_step_def sigma0_def sigma1_def rotate_right_rotr Let_def ac_simps)

lemma schedule_invariant:
  assumes "length block = 64"
  shows "k \<le> 48 \<Longrightarrow>
    length (fold schedule_step [16..<16 + k] (block_words block)) = 64
    \<and> (\<forall>t < 16 + k. fold schedule_step [16..<16 + k] (block_words block) ! t = W block t)"
proof (induction k)
  case 0
  then show ?case
    using block_words_nth [OF assms] by (simp add: W.simps block_words_def)
next
  case (Suc k)
  let ?ws = "fold schedule_step [16..<16 + k] (block_words block)"
  have len: "length ?ws = 64" and ws: "\<And>t. t < 16 + k \<Longrightarrow> ?ws ! t = W block t"
    using Suc by auto
  have "[16..<16 + Suc k] = [16..<16 + k] @ [16 + k]"
    by (simp only: add_Suc_right upt_Suc_append le_add1)
  then have step: "fold schedule_step [16..<16 + Suc k] (block_words block)
      = schedule_step (16 + k) ?ws"
    by (simp only: fold_append fold.simps o_apply id_apply)
  have "schedule_step (16 + k) ?ws ! (16 + k)
      = ?ws ! k + sigma0 (?ws ! (k + 1)) + ?ws ! (k + 9) + sigma1 (?ws ! (k + 14))"
    using Suc.prems by (intro schedule_step_nth len) simp
  also have "\<dots> = W block k + sigma0 (W block (k + 1)) + W block (k + 9) + sigma1 (W block (k + 14))"
    by (simp only: ws)
  also have "\<dots> = W block (16 + k)"
    by (subst W.simps [of block "16 + k"]) (simp add: ac_simps)
  finally have new: "schedule_step (16 + k) ?ws ! (16 + k) = W block (16 + k)" .
  have "schedule_step (16 + k) ?ws ! t = W block t" if "t < 16 + Suc k" for t
  proof (cases "t = 16 + k")
    case False
    with that have "t < 16 + k" by simp
    with ws [OF this] show ?thesis by (simp add: schedule_step_def Let_def)
  qed (simp add: new)
  with len show ?case unfolding step by (simp add: schedule_step_def Let_def)
qed

lemma schedule_nth: "length block = 64 \<Longrightarrow> t < 64 \<Longrightarrow> schedule block ! t = W block t"
  using schedule_invariant [of block 48] by (simp add: schedule_def)

lemma round_step_spec:
  "length block = 64 \<Longrightarrow> t < 64 \<Longrightarrow> round_step (schedule block) t v = fips_round block t v"
  by (simp add: round_step_def fips_round_def Let_def schedule_nth Ch_def Maj_def Sigma0_def
      Sigma1_def rotate_right_rotr)

lemma rounds_spec:
  "length block = 64 \<Longrightarrow> n \<le> 64 \<Longrightarrow>
   fold (round_step (schedule block)) [0..<n] v = fips_rounds block n v"
  by (induction n) (simp_all add: round_step_spec)

lemma compress_spec: "length block = 64 \<Longrightarrow> compress state block = fips_block state block"
  by (simp add: compress_def fips_block_def rounds_spec)

lemma sha256_spec: "sha256 input = fips_sha256 input"
proof -
  let ?p = "fips_padding input"
  let ?bs = "map (\<lambda>i. take 64 (drop (64 * i) ?p)) [0..<length ?p div 64]"
  have chunks: "chunks_exact 64 ?p = ?bs" by (rule chunks_exact_map) simp
  have "length block = 64" if "block \<in> set ?bs" for block
    using that by auto
  then have blocks: "foldl compress INITIAL ?bs = foldl fips_block INITIAL ?bs"
    by (intro foldl_cong) (simp_all only: compress_spec)
  have digits: "u32_to_be_bytes = (\<lambda>w. be_bytes 4 (unat w))"
    by (rule ext) (rule u32_to_be_bytes_spec)
  show ?thesis
    unfolding sha256_def fips_sha256_def Let_def padding_spec chunks blocks digits ..
qed

section \<open>Lengths\<close>

lemma length_u32_to_be_bytes: "length (u32_to_be_bytes w) = 4"
  by (simp add: u32_to_be_bytes_def)

lemma length_compress: "length H = 8 \<Longrightarrow> length (compress H block) = 8"
  by (simp add: compress_def working_list_def)

lemma length_sha256: "length (sha256 input) = 32"
proof -
  have "length (foldl compress H bs) = 8" if "length H = 8" for H bs
    using that by (induction bs arbitrary: H) (simp_all add: length_compress)
  then have "length (foldl compress INITIAL bs) = 8" for bs by (simp add: INITIAL_def)
  moreover have "length (concat (map u32_to_be_bytes ws)) = 4 * length ws" for ws
    by (induction ws) (simp_all add: length_u32_to_be_bytes)
  ultimately show ?thesis by (simp add: sha256_def)
qed

lemma padded_length: "length (padding input) = 64 * ((length input + 8) div 64 + 1)"
proof -
  define n where "n = Suc (length input)"
  define q r where "q = n div 64" and "r = n mod 64"
  have n: "n = 64 * q + r" and r: "r < 64" by (simp_all add: q_def r_def)
  have "length (padding input) = n + missing n + 8"
    by (simp add: padding_spec fips_padding_def missing_fips be_bytes_digits n_def)
  also have "\<dots> = 64 * ((n + 7) div 64 + 1)"
  proof (cases "r \<le> 56")
    case True
    then have "(n + 7) div 64 = q" using n by simp
    then show ?thesis using True n by (simp add: missing_def r_def [symmetric])
  next
    case False
    then have "(n + 7) div 64 = q + 1" using n r by simp
    then show ?thesis using False n r by (simp add: missing_def r_def [symmetric])
  qed
  finally show ?thesis by (simp add: n_def)
qed

lemma padding_prefix: "take (length input) (padding input) = input"
  by (simp add: padding_spec fips_padding_def)

end
