(* ===== verification/Cli.thy ===== *)
theory Cli
  imports Sha256 Serde
begin

text \<open>
  The command \<open>tfws-cli validate\<close> (\<open>crates/tfws-cli/src/main.rs\<close>): its arguments, the
  conformance verifier it checks envelopes with, its messages and its exit codes.  The CBOR
  library, the crates of the core and \<open>serde_json\<close>'s reader and writer are arguments; a file
  that cannot be read is a path on which \<open>read\<close> is \<open>None\<close>.
\<close>

section \<open>Data\<close>

record serde_json_text =
  from_slice :: "bytes \<Rightarrow> str + manifest"
  from_str :: "str \<Rightarrow> str + manifest"
  value_to_string :: "json \<Rightarrow> str"

definition USAGE :: str where
  "USAGE = ''usage: tfws-cli validate --input-format <json|cbor|cose> [--output-format <human|json>] <path>''"

definition EXPECTED_ED_SHA256 :: str where
  "EXPECTED_ED_SHA256 = ''7fe64728f1a7bb8c6c103f49c0e2ed0e999678229256c7aab813634cc6c85ba9''"

definition EXPECTED_ML_SHA256 :: str where
  "EXPECTED_ML_SHA256 = ''85acf51bf7260bc7009f1b3d6b8a4f6d0442bf21ea91a86fe7cbb282edb317cb''"

text \<open>The variant \<open>Json\<close> occurs in both formats and is qualified, as in the source.\<close>

datatype input_format = Json | Cbor | Cose

datatype output_format = Human | Json

record config =
  input_format :: input_format
  output_format :: output_format
  path :: str

record cli_error =
  error_code :: str
  error_message :: str

definition cli_error_new :: "str \<Rightarrow> str \<Rightarrow> cli_error" where
  "cli_error_new code text = \<lparr>error_code = code, error_message = text\<rparr>"

definition parse_input_format :: "str \<Rightarrow> cli_error + input_format" where
  "parse_input_format v =
     (if v = ''json'' then Inr input_format.Json
      else if v = ''cbor'' then Inr Cbor
      else if v = ''cose'' then Inr Cose
      else Inl (cli_error_new ''unsupported_input_format''
        ''input format must be exactly json, cbor, or cose''))"

fun input_format_name :: "input_format \<Rightarrow> str" where
  "input_format_name input_format.Json = ''json''"
| "input_format_name Cbor = ''cbor''"
| "input_format_name Cose = ''cose''"

definition parse_output_format :: "str \<Rightarrow> cli_error + output_format" where
  "parse_output_format v =
     (if v = ''human'' then Inr Human
      else if v = ''json'' then Inr output_format.Json
      else Inl (cli_error_new ''invalid_arguments''
        ''output format must be exactly human or json''))"

section \<open>The conformance verifier\<close>

fun expected_key_sha256 :: "cose_algorithm \<Rightarrow> str" where
  "expected_key_sha256 Ed25519 = EXPECTED_ED_SHA256"
| "expected_key_sha256 MlDsa65 = EXPECTED_ML_SHA256"

definition validate_fixture_binding ::
  "cose_algorithm \<Rightarrow> key_descriptor \<Rightarrow> cose_crypto_error + unit" where
  "validate_fixture_binding alg k =
     (if algorithm k \<noteq> tfws_identifier alg
        \<or> key_id k \<noteq> ''release-1''
        \<or> public_key_uri k \<noteq> ''/.well-known/keys/'' @ tfws_identifier alg @ ''.pem''
        \<or> public_key_sha256 k \<noteq> expected_key_sha256 alg
        \<or> status k \<noteq> ''active''
        \<or> usage k \<noteq> [''release'']
      then Inl cose_crypto_error.KeyBindingMismatch
      else Inr ())"

text \<open>\<open>iter().cycle().take(n)\<close>\<close>

definition cycle_take :: "nat \<Rightarrow> 'a list \<Rightarrow> 'a list" where
  "cycle_take n xs = (if xs = [] then [] else map (\<lambda>i. xs ! (i mod length xs)) [0..<n])"

fun fixture_prefix :: "cose_algorithm \<Rightarrow> u8" where
  "fixture_prefix Ed25519 = 0x13"
| "fixture_prefix MlDsa65 = 0x31"

definition fixture_signature :: "cose_algorithm \<Rightarrow> bytes \<Rightarrow> bytes" where
  "fixture_signature alg msg =
     cycle_take (expected_signature_len alg) (sha256 (fixture_prefix alg # msg))"

definition fixture_verify :: cose_verifier where
  "fixture_verify alg k msg sig =
     and_then (validate_fixture_binding alg k) (\<lambda>_.
       if sig \<noteq> fixture_signature alg msg then Inl cose_crypto_error.SignatureInvalid
       else Inr ())"

section \<open>Arguments\<close>

text \<open>The variables of the loop of \<open>parse_args\<close>, and the loop on the remaining arguments.\<close>

record parse_state =
  ps_input_format :: "input_format option"
  ps_output_format :: output_format
  ps_output_seen :: bool
  ps_path :: "str option"

definition parse_start :: parse_state where
  "parse_start = \<lparr>ps_input_format = None, ps_output_format = Human, ps_output_seen = False,
     ps_path = None\<rparr>"

definition invalid_arguments :: "str \<Rightarrow> cli_error + 'a" where
  "invalid_arguments text = Inl (cli_error_new ''invalid_arguments'' text)"

definition is_option :: "str \<Rightarrow> bool" where
  "is_option v \<longleftrightarrow> take 1 v = ''-''"

fun parse_loop :: "parse_state \<Rightarrow> str list \<Rightarrow> cli_error + parse_state" where
  "parse_loop st [] = Inr st"
| "parse_loop st (argument # args) =
     (if argument = ''--input-format'' then
        if ps_input_format st \<noteq> None
        then invalid_arguments ''input format must be provided exactly once''
        else (case args of
            [] \<Rightarrow> invalid_arguments ''input format value is required''
          | v # rest \<Rightarrow> and_then (parse_input_format v) (\<lambda>f.
              parse_loop (st\<lparr>ps_input_format := Some f\<rparr>) rest))
      else if argument = ''--output-format'' then
        if ps_output_seen st
        then invalid_arguments ''output format must be provided at most once''
        else (case args of
            [] \<Rightarrow> invalid_arguments ''output format value is required''
          | v # rest \<Rightarrow> and_then (parse_output_format v) (\<lambda>f.
              parse_loop (st\<lparr>ps_output_format := f, ps_output_seen := True\<rparr>) rest))
      else if is_option argument then invalid_arguments ''unknown command-line option''
      else if ps_path st \<noteq> None then invalid_arguments ''exactly one input path is required''
      else parse_loop (st\<lparr>ps_path := Some argument\<rparr>) args)"

definition parse_args :: "str list \<Rightarrow> cli_error + config" where
  "parse_args args =
     (if args = [] \<or> hd args \<noteq> ''validate'' then invalid_arguments USAGE
      else
        and_then (parse_loop parse_start (tl args)) (\<lambda>st.
        and_then (ok_or (cli_error_new ''invalid_arguments''
            ''explicit --input-format json|cbor|cose is required'') (ps_input_format st)) (\<lambda>f.
        and_then (ok_or (cli_error_new ''invalid_arguments'' ''input path is required'')
            (ps_path st)) (\<lambda>p.
        Inr \<lparr>input_format = f, output_format = ps_output_format st, path = p\<rparr>))))"

text \<open>\<open>args.windows(2).find_map(\<dots>)\<close>\<close>

fun output_format_hint :: "str list \<Rightarrow> output_format" where
  "output_format_hint (a # b # args) =
     (if a = ''--output-format'' \<and> b = ''json'' then output_format.Json
      else output_format_hint (b # args))"
| "output_format_hint _ = Human"

section \<open>Validation and messages\<close>

definition category_message :: "str \<Rightarrow> str" where
  "category_message category =
     (if category = ''malformed_cbor'' then ''input is not well-formed CBOR''
      else if category = ''non_deterministic_cbor'' then ''input is not deterministic CBOR''
      else if category = ''unsupported_cbor_type'' then ''input uses an unsupported CBOR type''
      else if category = ''resource_limit'' then ''input exceeds a CBOR or COSE resource limit''
      else if category = ''manifest_policy_invalid'' then ''manifest violates the TFWS profile''
      else if category = ''invalid_cose_structure'' then ''input has an invalid COSE structure''
      else if category = ''unsupported_header'' then ''input contains an unsupported COSE header''
      else if category = ''invalid_content_type'' then ''input has an invalid COSE content type''
      else if category = ''invalid_type'' then ''input has an invalid COSE type''
      else if category = ''invalid_algorithm'' then ''input violates the hybrid algorithm profile''
      else if category = ''invalid_kid'' then ''input has an invalid key identifier''
      else if category = ''key_binding_mismatch'' then ''input has an invalid public-key binding''
      else if category = ''signature_invalid''
        then ''one or more conformance signatures are invalid''
      else ''input was rejected'')"

definition category_error :: "str \<Rightarrow> cli_error" where
  "category_error category = cli_error_new category (category_message category)"

definition validate_bytes ::
  "minicbor \<Rightarrow> crates \<Rightarrow> serde_json_text \<Rightarrow> input_format \<Rightarrow> bytes \<Rightarrow> cli_error + manifest" where
  "validate_bytes mc cr sj fmt bs = (case fmt of
      input_format.Json \<Rightarrow>
        and_then (map_err (\<lambda>_. cli_error_new ''invalid_json'' ''input is not valid manifest JSON'')
          (from_slice sj bs)) (\<lambda>m.
        and_then (map_err (\<lambda>_. cli_error_new ''manifest_policy_invalid''
            ''manifest violates the TFWS profile'') (validate cr m)) (\<lambda>_.
        Inr m))
    | Cbor \<Rightarrow>
        map_err (\<lambda>e. category_error (cbor_category e))
          (decode_manifest_cbor mc cr bs default_limits)
    | Cose \<Rightarrow>
        map_err (\<lambda>e. category_error (cose_category e))
          (verify_manifest_cose mc cr bs fixture_verify))"

definition format_success :: "serde_json_text \<Rightarrow> config \<Rightarrow> str" where
  "format_success sj cfg = (case output_format cfg of
      Human \<Rightarrow> ''valid''
    | output_format.Json \<Rightarrow> value_to_string sj (object_of [
        (''input_format'', JString (input_format_name (input_format cfg))),
        (''valid'', JBool True)]))"

definition format_error :: "serde_json_text \<Rightarrow> cli_error \<Rightarrow> output_format \<Rightarrow> str" where
  "format_error sj e fmt = (case fmt of
      Human \<Rightarrow> ''error['' @ error_code e @ '']: '' @ error_message e
    | output_format.Json \<Rightarrow> value_to_string sj (object_of [
        (''error'', object_of [
          (''code'', JString (error_code e)),
          (''message'', JString (error_message e))]),
        (''valid'', JBool False)]))"

section \<open>The process\<close>

record process_result =
  exit_code :: nat
  stdout :: str
  stderr :: str

definition fail_with :: "nat \<Rightarrow> str \<Rightarrow> process_result" where
  "fail_with code text = \<lparr>exit_code = code, stdout = [], stderr = text @ [LF]\<rparr>"

text \<open>\<open>main\<close> after \<open>env::args().skip(1)\<close>\<close>

definition cli_main ::
  "minicbor \<Rightarrow> crates \<Rightarrow> serde_json_text \<Rightarrow> (str \<Rightarrow> bytes option) \<Rightarrow> str list \<Rightarrow> process_result"
where
  "cli_main mc cr sj read args = (case parse_args args of
      Inl e \<Rightarrow> fail_with 2 (format_error sj e (output_format_hint args))
    | Inr cfg \<Rightarrow> (case read (path cfg) of
        None \<Rightarrow> fail_with 1 (format_error sj
          (cli_error_new ''input_read_failed'' ''unable to read input'') (output_format cfg))
      | Some bs \<Rightarrow> (case validate_bytes mc cr sj (input_format cfg) bs of
          Inl e \<Rightarrow> fail_with 1 (format_error sj e (output_format cfg))
        | Inr m \<Rightarrow>
            \<lparr>exit_code = 0, stdout = format_success sj cfg @ [LF], stderr = []\<rparr>)))"

end
