(* ===== verification/Wasm.thy ===== *)
theory Wasm
  imports Cli
begin

text \<open>
  The exports of \<open>crates/tfws-wasm/src/lib.rs\<close>: a verdict on a manifest in JSON, and the
  machine-readable report on a manifest in deterministic CBOR.
\<close>

definition wasm_category_message :: "str \<Rightarrow> str" where
  "wasm_category_message category =
     (if category = ''malformed_cbor'' then ''input is not well-formed CBOR''
      else if category = ''non_deterministic_cbor'' then ''input is not deterministic CBOR''
      else if category = ''unsupported_cbor_type'' then ''input uses an unsupported CBOR type''
      else if category = ''resource_limit'' then ''input exceeds a CBOR resource limit''
      else if category = ''manifest_policy_invalid'' then ''manifest violates the TFWS profile''
      else ''input was rejected'')"

definition validate_manifest :: "crates \<Rightarrow> serde_json_text \<Rightarrow> str \<Rightarrow> bool" where
  "validate_manifest cr sj text = (case from_str sj text of
      Inr m \<Rightarrow> is_ok (validate cr m)
    | Inl _ \<Rightarrow> False)"

definition validate_manifest_cbor ::
  "minicbor \<Rightarrow> crates \<Rightarrow> serde_json_text \<Rightarrow> bytes \<Rightarrow> str" where
  "validate_manifest_cbor mc cr sj inp =
     (case decode_manifest_cbor mc cr inp default_limits of
        Inr _ \<Rightarrow> value_to_string sj (object_of [
          (''format'', JString ''cbor''),
          (''valid'', JBool True)])
      | Inl e \<Rightarrow> (let code = cbor_category e in
          value_to_string sj (object_of [
            (''error'', object_of [
              (''code'', JString code),
              (''message'', JString (wasm_category_message code))]),
            (''format'', JString ''cbor''),
            (''valid'', JBool False)])))"

end
