(* ===== verification/Cose_Props.thy ===== *)
theory Cose_Props
  imports Manifest_Policy
begin

text \<open>
  What the hybrid envelope promises, for any CBOR library that keeps the laws and any
  cryptographic provider: the exact set of accepted envelopes, signing followed by
  verification, both signatures being needed, and what the signed bytes bind.
\<close>

section \<open>A sample envelope\<close>

text \<open>
  A provider whose signatures are all zero, and the envelope it makes of the sample manifest.
\<close>

definition sample_signature :: "cose_algorithm \<Rightarrow> bytes" where
  "sample_signature alg = replicate (expected_signature_len alg) 0"

definition sample_signer :: cose_signer where
  "sample_signer alg k msg = Inr (sample_signature alg)"

definition sample_verifier :: cose_verifier where
  "sample_verifier alg k msg sig =
     (if sig = sample_signature alg then Inr () else Inl cose_crypto_error.SignatureInvalid)"

definition sample_kid :: bytes where
  "sample_kid = as_bytes ''release-1''"

definition written :: "cose_envelope_error + bytes \<Rightarrow> bytes" where
  "written r = (case r of Inl _ \<Rightarrow> [] | Inr bs \<Rightarrow> bs)"

definition sample_parsed_signature :: "cose_algorithm \<Rightarrow> parsed_signature" where
  "sample_parsed_signature alg = \<lparr>
     ps_algorithm = alg,
     ps_protected = written (encode_signature_protected rfc8949 alg sample_kid),
     ps_kid = sample_kid,
     ps_signature = sample_signature alg\<rparr>"

definition sample_envelope :: parsed_envelope where
  "sample_envelope = \<lparr>
     body_protected = written (encode_body_protected rfc8949),
     payload = manifest_vector,
     signatures = map sample_parsed_signature REQUIRED_SIGNATURES\<rparr>"

lemma sample_body:
  "case encode_body_protected rfc8949 of Inl _ \<Rightarrow> False | Inr bs \<Rightarrow> length bs = 66"
  by code_simp

lemma sample_protected:
  "case encode_signature_protected rfc8949 Ed25519 sample_kid of
     Inl _ \<Rightarrow> False | Inr bs \<Rightarrow> length bs = 14"
  "case encode_signature_protected rfc8949 MlDsa65 sample_kid of
     Inl _ \<Rightarrow> False | Inr bs \<Rightarrow> length bs = 15"
  by code_simp+

lemma sample_kid_utf8: "sample_kid \<noteq> [] \<and> from_utf8 sample_kid = Some ''release-1''"
  using from_utf8_as_bytes [of "''release-1''"] by (simp add: sample_kid_def as_bytes_def ascii_def)

lemma length_sample_kid: "length sample_kid = 9"
  by (simp add: sample_kid_def)

lemmas signature_sizes = sample_signature_def ED25519_SIGNATURE_BYTES_def ML_DSA_65_SIGNATURE_BYTES_def

lemma sample_signature_canonical:
  "canonical_signature rfc8949 default_cose_limits alg (sample_parsed_signature alg)"
  using sample_protected sample_kid_utf8 length_sample_kid
  by (cases alg)
    (auto simp: canonical_signature_def sample_parsed_signature_def written_def exceeds_def
      default_cose_limits_def default_limits_def signature_sizes split: sum.splits)

lemma sample_canonical: "canonical_envelope rfc8949 default_cose_limits sample_envelope"
  using sample_body sample_signature_canonical
  by (auto simp: canonical_envelope_def sample_envelope_def written_def exceeds_def
      default_cose_limits_def default_limits_def validate_fixed_shape_limits_def
      COSE_CONTENT_TYPE_def COSE_TYPE_def length_manifest_vector REQUIRED_SIGNATURES_def
      split: sum.splits)

lemma sample_envelope_written:
  "\<exists>env. envelope_bytes rfc8949 sample_envelope = Inr env \<and> length env \<le> 5000"
  using sample_body sample_protected
  by (auto simp: envelope_bytes_def encode_envelope_def sample_envelope_def REQUIRED_SIGNATURES_def
      sample_parsed_signature_def to_encoded_def written_def rfc_defs head_bytes_def signature_sizes
      length_manifest_vector split: sum.splits)

definition sample_bytes :: bytes where
  "sample_bytes = written (envelope_bytes rfc8949 sample_envelope)"

lemma sample_parsed: "parse_envelope rfc8949 sample_bytes default_cose_limits = Inr sample_envelope"
  using sample_envelope_written sample_canonical
  by (auto simp: sample_bytes_def written_def rfc.parse_envelope_ok exceeds_def
      default_cose_limits_def)

text \<open>The parser does not look into the payload: the same envelope around no bytes.\<close>

definition empty_envelope :: parsed_envelope where
  "empty_envelope = sample_envelope\<lparr>payload := []\<rparr>"

definition empty_bytes :: bytes where
  "empty_bytes = written (envelope_bytes rfc8949 empty_envelope)"

lemma empty_parsed: "parse_envelope rfc8949 empty_bytes default_cose_limits = Inr empty_envelope"
proof -
  have "canonical_envelope rfc8949 default_cose_limits empty_envelope"
    using sample_canonical by (simp add: canonical_envelope_def empty_envelope_def exceeds_def)
  moreover have "\<exists>env. envelope_bytes rfc8949 empty_envelope = Inr env \<and> length env \<le> 5000"
    using sample_body sample_protected
    by (auto simp: envelope_bytes_def encode_envelope_def empty_envelope_def sample_envelope_def
        REQUIRED_SIGNATURES_def sample_parsed_signature_def to_encoded_def written_def rfc_defs
        head_bytes_def signature_sizes split: sum.splits)
  ultimately show ?thesis
    by (auto simp: empty_bytes_def written_def rfc.parse_envelope_ok exceeds_def
        default_cose_limits_def)
qed

lemma sample_descriptor:
  "descriptor_for sample_manifest Ed25519 = Inr (sample_key ''ed25519'' ed25519_sha256)"
  "descriptor_for sample_manifest MlDsa65 = Inr (sample_key ''ml-dsa-65'' ml_dsa_65_sha256)"
  by (simp_all add: descriptor_for_def sample_manifest_def sample_key_def)

lemma sample_message_written:
  "is_ok (encode_sig_structure rfc8949 b s p)"
  unfolding encode_sig_structure_def by (rule emit_total) (simp add: rfc_defs)

lemma sample_signed_by:
  "list_all2 (signed_by rfc8949 sample_signer sample_manifest sample_envelope)
     REQUIRED_SIGNATURES (signatures sample_envelope)"
  "list_all2 (accepted_by rfc8949 sample_verifier sample_manifest sample_envelope)
     REQUIRED_SIGNATURES (signatures sample_envelope)"
  using sample_message_written
  by (simp_all add: sample_envelope_def REQUIRED_SIGNATURES_def signed_by_def accepted_by_def
      sample_descriptor sample_parsed_signature_def sample_kid_def sample_key_def
      sample_signer_def sample_verifier_def is_ok_iff)

lemma sample_verified:
  "verify_manifest_cose_with_limits rfc8949 reference_crates sample_bytes sample_verifier
     default_cose_limits = Inr sample_manifest"
  unfolding rfc.verify_manifest_cose_ok
  using sample_parsed sample_signed_by(2) sample_decoded
  by (auto simp: sample_envelope_def default_cose_limits_def)

lemma sample_signed:
  "sign_manifest_cose_with_limits rfc8949 reference_crates sample_manifest sample_signer
     default_cose_limits = Inr sample_bytes"
  unfolding rfc.sign_manifest_cose_ok
  using sample_parsed sample_signed_by(1) sample_encoded
  by (auto simp: sample_envelope_def default_cose_limits_def encode_manifest_cbor_def)

section \<open>Keys of a manifest\<close>

lemma filter_one:
  assumes "mset (map f ks) = mset as" and "distinct as" and "a \<in> set as"
  shows "\<exists>k. filter (\<lambda>k. f k = a) ks = [k]"
proof -
  have "mset (filter (\<lambda>x. x = a) (map f ks)) = mset (filter (\<lambda>x. x = a) as)"
    using assms(1) by (simp only: mset_filter)
  then have "length (filter (\<lambda>x. x = a) (map f ks)) = length (filter (\<lambda>x. x = a) as)"
    by (rule mset_eq_length)
  then have "length (filter (\<lambda>k. f k = a) ks) = length (filter (\<lambda>x. x = a) as)"
    by (simp add: filter_map o_def)
  also have "\<dots> = card ({x. x = a} \<inter> set as)"
    using assms(2) by (rule distinct_length_filter)
  also have "{x. x = a} \<inter> set as = {a}" using assms(3) by auto
  finally show ?thesis by (auto simp: length_Suc_conv)
qed

lemma list_all2_member:
  "list_all2 p as bs \<Longrightarrow> list_all2 q as bs \<Longrightarrow> a \<in> set as \<Longrightarrow> \<exists>b. p a b \<and> q a b"
  by (induction as bs rule: list_all2_induct) auto

lemma algorithm_required: "alg \<in> set REQUIRED_SIGNATURES"
  by (cases alg) (simp_all add: REQUIRED_SIGNATURES_def)

lemma identifier_baseline: "tfws_identifier alg \<in> set BASELINE_ALGORITHMS"
  by (cases alg) (simp_all add: BASELINE_ALGORITHMS_def)

lemma hybrid_descriptor:
  assumes "hybrid_keys ks"
  shows "\<exists>k. filter (\<lambda>k. algorithm k = tfws_identifier alg) ks = [k] \<and> good_descriptor k \<and> k \<in> set ks
    \<and> algorithm k = tfws_identifier alg"
proof -
  have "distinct BASELINE_ALGORITHMS" by (simp add: BASELINE_ALGORITHMS_def)
  then obtain k where k: "filter (\<lambda>k. algorithm k = tfws_identifier alg) ks = [k]"
    using assms filter_one [of algorithm ks BASELINE_ALGORITHMS "tfws_identifier alg"]
      identifier_baseline [of alg] by (auto simp: hybrid_keys_def)
  then have "k \<in> set (filter (\<lambda>k. algorithm k = tfws_identifier alg) ks)" by (simp only: list.set_intros)
  then have "k \<in> set ks \<and> algorithm k = tfws_identifier alg" unfolding set_filter by simp
  with k assms show ?thesis by (auto simp: hybrid_keys_def)
qed

lemma descriptor_for_hybrid:
  assumes "hybrid_keys (keys m)"
  shows "\<exists>k. descriptor_for m alg = Inr k \<and> good_descriptor k \<and> k \<in> set (keys m)
    \<and> algorithm k = tfws_identifier alg"
  using hybrid_descriptor [OF assms, of alg]
  by (auto simp: descriptor_for_def good_descriptor_def)

lemma descriptor_for_ok:
  "descriptor_for m alg = Inr k \<Longrightarrow>
   filter (\<lambda>k. algorithm k = tfws_identifier alg) (keys m) = [k]"
  by (auto simp: descriptor_for_def split: list.splits if_splits)

section \<open>Signing and verifying\<close>

lemma signed_then_verified:
  assumes items: "cbor_cose_items mc" and codec: "manifest_codec mc cr" and wf: "wf_manifest m"
    and sound: "\<And>alg k msg sig. signer alg k msg = Inr sig \<Longrightarrow> verifier alg k msg sig = Inr ()"
    and signed: "sign_manifest_cose_with_limits mc cr m signer limits = Inr envelope"
  shows "verify_manifest_cose_with_limits mc cr envelope verifier limits = Inr m"
proof -
  obtain p where p: "parse_envelope mc envelope limits = Inr p"
    and enc: "encode_manifest_cbor_with_limits mc cr m (cbor limits) = Inr (payload p)"
    and by_signer: "list_all2 (signed_by mc signer m p) REQUIRED_SIGNATURES (signatures p)"
    using signed unfolding cbor_cose_items.sign_manifest_cose_ok [OF items] by blast
  have "list_all2 (accepted_by mc verifier m p) REQUIRED_SIGNATURES (signatures p)"
    using by_signer by (rule list_all2_mono) (auto simp: signed_by_def accepted_by_def dest: sound)
  with p manifest_codec.manifest_round_trip [OF codec enc wf] show ?thesis
    unfolding cbor_cose_items.verify_manifest_cose_ok [OF items] by blast
qed

section \<open>Properties\<close>

text \<open>
  C1: an envelope is accepted exactly when it is the deterministic encoding of a canonical
  envelope within the limits, its payload decodes to the manifest, and the provider accepts,
  for each required algorithm in order, the signature over the \<open>Sig_structure\<close> of the body
  header, the signature's own header and the payload under the manifest's descriptor.
\<close>

theorem envelope_accepted_iff:
  assumes "cbor_cose_items mc"
  shows "verify_manifest_cose_with_limits mc cr envelope verifier limits = Inr m \<longleftrightarrow>
    (\<exists>p. canonical_envelope mc limits p \<and> envelope_bytes mc p = Inr envelope
       \<and> \<not> exceeds (length envelope) (max_envelope_bytes limits)
       \<and> decode_manifest_cbor mc cr (payload p) (cbor limits) = Inr m
       \<and> list_all2 (accepted_by mc verifier m p) REQUIRED_SIGNATURES (signatures p))"
  unfolding cbor_cose_items.verify_manifest_cose_ok [OF assms]
    cbor_cose_items.parse_envelope_ok [OF assms] by blast

theorem envelope_accepted_iff_witness:
  "\<exists>p. envelope_bytes rfc8949 p = Inr sample_bytes
     \<and> decode_manifest_cbor rfc8949 reference_crates (payload p) default_limits = Inr sample_manifest"
  using envelope_accepted_iff [OF rfc.cbor_cose_items_axioms, of reference_crates sample_bytes
      sample_verifier default_cose_limits sample_manifest] sample_verified
  by (auto simp: default_cose_limits_def)

text \<open>
  C3: what was signed is verified: if every signature the signer makes is accepted by the
  verifier, a signed envelope verifies, under the same limits, to the manifest.
\<close>

theorem signed_envelope_verifies:
  assumes items: "cbor_cose_items mc" and codec: "manifest_codec mc cr" and wf: "wf_manifest m"
    and sound: "\<And>alg k msg sig. signer alg k msg = Inr sig \<Longrightarrow> verifier alg k msg sig = Inr ()"
    and signed: "sign_manifest_cose_with_limits mc cr m signer limits = Inr envelope"
  shows "verify_manifest_cose_with_limits mc cr envelope verifier limits = Inr m"
  using assms by (rule signed_then_verified)

theorem signed_envelope_verifies_witness:
  "verify_manifest_cose_with_limits rfc8949 reference_crates sample_bytes sample_verifier
     default_cose_limits = Inr sample_manifest"
  by (rule signed_envelope_verifies [OF rfc.cbor_cose_items_axioms reference.manifest_codec_axioms
      sample_wf _ sample_signed]) (simp add: sample_signer_def sample_verifier_def)

text \<open>
  C2: no downgrade: a verifier that never accepts under one of the two algorithms never
  accepts an envelope, whatever it does under the other.
\<close>

theorem both_signatures_needed:
  assumes "cbor_cose_items mc" and "\<And>k msg sig. verifier alg k msg sig \<noteq> Inr ()"
  shows "verify_manifest_cose_with_limits mc cr envelope verifier limits \<noteq> Inr m"
proof
  assume "verify_manifest_cose_with_limits mc cr envelope verifier limits = Inr m"
  then obtain p where
    "list_all2 (accepted_by mc verifier m p) REQUIRED_SIGNATURES (signatures p)"
    unfolding cbor_cose_items.verify_manifest_cose_ok [OF assms(1)] by blast
  from list_all2_member [OF this this algorithm_required]
  obtain s where "accepted_by mc verifier m p alg s" by blast
  with assms(2) show False by (auto simp: accepted_by_def)
qed

theorem both_signatures_needed_witness:
  "verify_manifest_cose_with_limits rfc8949 reference_crates sample_bytes
     (\<lambda>alg k msg sig. if alg = Ed25519 then Inr () else Inl cose_crypto_error.SignatureInvalid)
     default_cose_limits \<noteq> Inr sample_manifest"
  by (rule both_signatures_needed [OF rfc.cbor_cose_items_axioms, of _ MlDsa65]) simp

text \<open>
  C21: acceptance binds keys: for each algorithm the manifest in an accepted envelope has
  exactly one descriptor, well-formed and active, and the provider accepted a signature of
  the algorithm's length under it.
\<close>

theorem accepted_envelope_keys:
  assumes items: "cbor_cose_items mc" and codec: "manifest_codec mc cr"
    and "verify_manifest_cose_with_limits mc cr envelope verifier limits = Inr m"
  shows "valid_manifest cr m \<and>
    (\<exists>k msg sig. filter (\<lambda>k. algorithm k = tfws_identifier alg) (keys m) = [k]
       \<and> good_descriptor k \<and> length sig = expected_signature_len alg
       \<and> verifier alg k msg sig = Inr ())"
proof -
  obtain p where p: "parse_envelope mc envelope limits = Inr p"
    and dec: "decode_manifest_cbor mc cr (payload p) (cbor limits) = Inr m"
    and acc: "list_all2 (accepted_by mc verifier m p) REQUIRED_SIGNATURES (signatures p)"
    using assms(3) unfolding cbor_cose_items.verify_manifest_cose_ok [OF items] by blast
  have canon: "list_all2 (canonical_signature mc limits) REQUIRED_SIGNATURES (signatures p)"
    using p unfolding cbor_cose_items.parse_envelope_ok [OF items] canonical_envelope_def by blast
  have valid: "valid_manifest cr m"
    using dec unfolding manifest_codec.decode_manifest_ok [OF codec] validate_ok by blast
  obtain s where s: "accepted_by mc verifier m p alg s" "canonical_signature mc limits alg s"
    using list_all2_member [OF acc canon algorithm_required] by blast
  then obtain k msg where k: "descriptor_for m alg = Inr k"
      "verifier alg k msg (ps_signature s) = Inr ()"
    by (auto simp: accepted_by_def)
  have one: "filter (\<lambda>k. algorithm k = tfws_identifier alg) (keys m) = [k]"
    using k(1) by (rule descriptor_for_ok)
  then have "keys m \<noteq> []" by auto
  with valid have "hybrid_keys (keys m)" by (auto simp: valid_manifest_def valid_core_def)
  with descriptor_for_hybrid [of m alg] k(1) have "good_descriptor k" by auto
  with valid one k(2) s(2) show ?thesis by (auto simp: canonical_signature_def)
qed

theorem accepted_envelope_keys_witness:
  "valid_manifest reference_crates sample_manifest
   \<and> (\<exists>k msg sig. filter (\<lambda>k. algorithm k = ''ml-dsa-65'') (keys sample_manifest) = [k]
        \<and> good_descriptor k \<and> length sig = 3309 \<and> sample_verifier MlDsa65 k msg sig = Inr ())"
  using accepted_envelope_keys [OF rfc.cbor_cose_items_axioms reference.manifest_codec_axioms
      sample_verified, of MlDsa65] by (simp add: ML_DSA_65_SIGNATURE_BYTES_def)

text \<open>
  C6: the bytes given to the provider bind the body header, the signature header and the
  payload: signatures over different parts are over different messages.
\<close>

theorem signed_bytes_bind_parts:
  assumes "cbor_cose_items mc" and "(body, prot, pl) \<noteq> (body', prot', pl')"
    and "encode_sig_structure mc body prot pl = Inr msg"
    and "encode_sig_structure mc body' prot' pl' = Inr msg'" and "length msg < 2 ^ 64"
  shows "msg \<noteq> msg'"
  using cbor_cose_items.encode_sig_structure_inject [OF assms(1,3) _ assms(5)] assms(2,4) by blast

theorem signed_bytes_bind_parts_witness:
  "encode_sig_structure rfc8949 [1] [] [2] \<noteq> encode_sig_structure rfc8949 [] [1] [2]"
proof -
  obtain msg msg' where "encode_sig_structure rfc8949 [1] [] [2] = Inr msg" and "length msg < 2 ^ 64"
      and "encode_sig_structure rfc8949 [] [1] [2] = Inr msg'"
    by (simp add: encode_sig_structure_def rfc_defs head_bytes_def)
  with signed_bytes_bind_parts [OF rfc.cbor_cose_items_axioms, of "[1]" "[]" "[2]" "[]" "[1]" "[2]"]
  show ?thesis by simp
qed

text \<open>
  A signature header binds the algorithm and the key identifier; in particular the
  messages of the two algorithms differ for the same payload.
\<close>

lemma signature_header_binds:
  assumes "cbor_cose_items mc" and "(alg, kid) \<noteq> (alg', kid')"
    and "encode_signature_protected mc alg kid = Inr prot"
    and "encode_signature_protected mc alg' kid' = Inr prot'"
    and "encode_sig_structure mc body prot pl = Inr msg"
    and "encode_sig_structure mc body prot' pl = Inr msg'" and "length msg < 2 ^ 64"
  shows "msg \<noteq> msg'"
proof
  assume "msg = msg'"
  then have "prot = prot'"
    using cbor_cose_items.encode_sig_structure_inject [OF assms(1,5) _ assms(7)] assms(6) by blast
  moreover have "length prot < 2 ^ 64"
    using assms(5,7) cbor_cose_items.bytes_contained [OF assms(1), of prot]
    unfolding encode_sig_structure_def emit_parts by fastforce
  ultimately show False
    using cbor_cose_items.encode_signature_protected_inject [OF assms(1,3)] assms(2,4) by blast
qed

text \<open>
  No envelope is accepted with bytes behind it: not by the same provider and limits, nor
  by any other, nor with another manifest.
\<close>

lemma envelope_with_suffix_refused:
  assumes items: "cbor_cose_items mc"
    and "verify_manifest_cose_with_limits mc cr envelope verifier limits = Inr m"
    and "x \<noteq> []" and "length (envelope @ x) < 2 ^ 64"
  shows "verify_manifest_cose_with_limits mc cr' (envelope @ x) verifier' limits' \<noteq> Inr m'"
proof
  assume "verify_manifest_cose_with_limits mc cr' (envelope @ x) verifier' limits' = Inr m'"
  then obtain q where q: "canonical_envelope mc limits' q" "envelope_bytes mc q = Inr (envelope @ x)"
    unfolding cbor_cose_items.verify_manifest_cose_ok [OF items]
      cbor_cose_items.parse_envelope_ok [OF items] by blast
  obtain p where p: "canonical_envelope mc limits p" "envelope_bytes mc p = Inr envelope"
    using assms(2) unfolding cbor_cose_items.verify_manifest_cose_ok [OF items]
      cbor_cose_items.parse_envelope_ok [OF items] by blast
  show False
    using cbor_cose_items.envelope_bytes_inject [OF items p q, of x "[]"] assms(3,4) by simp
qed

text \<open>
  An accepted envelope has no second form: payload, key identifiers and signatures
  determine every byte of it.
\<close>

lemma envelope_form_unique:
  assumes items: "cbor_cose_items mc"
    and p: "parse_envelope mc envelope limits = Inr p"
    and q: "parse_envelope mc envelope' limits' = Inr q"
  shows "envelope = envelope' \<longleftrightarrow>
    payload p = payload q
    \<and> map (\<lambda>s. (ps_kid s, ps_signature s)) (signatures p)
      = map (\<lambda>s. (ps_kid s, ps_signature s)) (signatures q)"
proof
  have cp: "canonical_envelope mc limits p" "envelope_bytes mc p = Inr envelope"
      "\<not> exceeds (length envelope) (max_envelope_bytes limits)"
    and cq: "canonical_envelope mc limits' q" "envelope_bytes mc q = Inr envelope'"
    using p q unfolding cbor_cose_items.parse_envelope_ok [OF items] by blast+
  {
    assume "envelope = envelope'"
    then have "p = q"
      using cbor_cose_items.envelope_bytes_inject [OF items cp(1,2) cq, of "[]" "[]"]
        not_exceeds_bound [OF cp(3)] by simp
    then show "payload p = payload q
      \<and> map (\<lambda>s. (ps_kid s, ps_signature s)) (signatures p)
        = map (\<lambda>s. (ps_kid s, ps_signature s)) (signatures q)" by simp
  }
  assume same: "payload p = payload q
    \<and> map (\<lambda>s. (ps_kid s, ps_signature s)) (signatures p)
      = map (\<lambda>s. (ps_kid s, ps_signature s)) (signatures q)"
  have sig: "s = t" if "canonical_signature mc limits alg s" "canonical_signature mc limits' alg t"
      "ps_kid s = ps_kid t" "ps_signature s = ps_signature t" for alg s t
    using that by (cases s; cases t) (simp add: canonical_signature_def)
  have all: "ss = ts"
    if "list_all2 (canonical_signature mc limits) algs ss"
      "list_all2 (canonical_signature mc limits') algs ts"
      "map (\<lambda>s. (ps_kid s, ps_signature s)) ss = map (\<lambda>s. (ps_kid s, ps_signature s)) ts"
    for algs ss ts
    using that
  proof (induction algs ss arbitrary: ts rule: list_all2_induct)
    case (Cons alg algs s ss)
    then show ?case by (cases ts) (auto intro: sig)
  qed simp
  have "signatures p = signatures q"
    using cp(1) cq(1) all same unfolding canonical_envelope_def by blast
  moreover have "body_protected p = body_protected q"
    using cp(1) cq(1) by (simp add: canonical_envelope_def)
  ultimately show "envelope = envelope'" using cp(2) cq(2) same by (simp add: envelope_bytes_def)
qed

text \<open>
  A manifest without bound keys is never signed: the signer is not asked, whatever it is.
\<close>

lemma unbound_manifest_not_signed:
  assumes "encode_manifest_cbor_with_limits mc cr m (cbor limits) = Inr pl"
    and "validate_fixed_shape_limits limits = Inr ()" and "is_ok (encode_body_protected mc)"
    and "keys m = []"
  shows "sign_manifest_cose_with_limits mc cr m signer limits = Inl HybridBaselineIncomplete"
  using assms
  by (auto simp: sign_manifest_cose_with_limits_def REQUIRED_SIGNATURES_def descriptor_for_def is_ok_iff)

text \<open>
  What the provider says about the first signature is what the caller gets: the envelope
  and the manifest are past every other check, and the answer is the mapped error.
\<close>

lemma provider_error_reported:
  assumes items: "cbor_cose_items mc"
    and "verify_manifest_cose_with_limits mc cr envelope verifier limits = Inr m"
    and "\<And>k msg sig. other Ed25519 k msg sig = Inl e"
  shows "verify_manifest_cose_with_limits mc cr envelope other limits = Inl (map_crypto_error e)"
proof -
  obtain p where p: "parse_envelope mc envelope limits = Inr p"
    and dec: "decode_manifest_cbor mc cr (payload p) (cbor limits) = Inr m"
    and acc: "list_all2 (accepted_by mc verifier m p) REQUIRED_SIGNATURES (signatures p)"
    using assms(2) unfolding cbor_cose_items.verify_manifest_cose_ok [OF items] by blast
  obtain s t where sigs: "signatures p = [s, t]" and s: "accepted_by mc verifier m p Ed25519 s"
    using acc by (auto simp: REQUIRED_SIGNATURES_def list_all2_Cons1)
  have "ps_algorithm s = Ed25519"
    using cbor_cose_items.canonical_signatures_algorithms [OF items p]
    by (simp add: sigs REQUIRED_SIGNATURES_def)
  with s assms(3)
  have "verify_each mc other m p (zip (signatures p) REQUIRED_SIGNATURES) = Inl (map_crypto_error e)"
    by (auto simp: accepted_by_def sigs REQUIRED_SIGNATURES_def)
  with p dec show ?thesis
    by (simp add: verify_manifest_cose_with_limits_def sigs REQUIRED_SIGNATURES_def)
qed

end
