(* ===== verification/Cli_Props.thy ===== *)
theory Cli_Props
  imports Wasm Cose_Props
begin

text \<open>
  What the command-line tool and the WebAssembly exports promise: the language of the
  arguments, exit codes and streams, which envelopes the conformance verifier lets pass, the
  messages, and that both front ends give one verdict on a CBOR manifest.
\<close>

section \<open>The grammar of the arguments\<close>

text \<open>An argument item, and its words on the command line.\<close>

datatype item = Input_Format input_format | Output_Format output_format | Path str

fun output_format_name :: "output_format \<Rightarrow> str" where
  "output_format_name Human = ''human''"
| "output_format_name output_format.Json = ''json''"

fun item_words :: "item \<Rightarrow> str list" where
  "item_words (Input_Format f) = [''--input-format'', input_format_name f]"
| "item_words (Output_Format f) = [''--output-format'', output_format_name f]"
| "item_words (Path p) = [p]"

fun input_formats :: "item list \<Rightarrow> input_format list" where
  "input_formats [] = []"
| "input_formats (Input_Format f # its) = f # input_formats its"
| "input_formats (_ # its) = input_formats its"

fun output_formats :: "item list \<Rightarrow> output_format list" where
  "output_formats [] = []"
| "output_formats (Output_Format f # its) = f # output_formats its"
| "output_formats (_ # its) = output_formats its"

fun paths :: "item list \<Rightarrow> str list" where
  "paths [] = []"
| "paths (Path p # its) = p # paths its"
| "paths (_ # its) = paths its"

definition words_of :: "item list \<Rightarrow> str list" where
  "words_of its = concat (map item_words its)"

definition option_list :: "'a option \<Rightarrow> 'a list" where
  "option_list v = (case v of None \<Rightarrow> [] | Some x \<Rightarrow> [x])"

lemma option_list_simps [simp]: "option_list None = []" "option_list (Some x) = [x]"
  by (simp_all add: option_list_def)

lemma words_of_simps [simp]:
  "words_of [] = []"
  "words_of (i # its) = item_words i @ words_of its"
  by (simp_all add: words_of_def)

lemma parse_input_format_ok: "parse_input_format v = Inr f \<longleftrightarrow> v = input_format_name f"
  by (cases f) (auto simp: parse_input_format_def)

lemma parse_output_format_ok: "parse_output_format v = Inr f \<longleftrightarrow> v = output_format_name f"
  by (cases f) (auto simp: parse_output_format_def)

lemma not_invalid_arguments [simp]: "invalid_arguments t \<noteq> Inr x"
  by (simp add: invalid_arguments_def)

text \<open>What one run of the loop reads: the items of its words, each at most once.\<close>

definition reads :: "parse_state \<Rightarrow> item list \<Rightarrow> parse_state \<Rightarrow> bool" where
  "reads st its st' \<longleftrightarrow>
     option_list (ps_input_format st) @ input_formats its = option_list (ps_input_format st')
     \<and> (if ps_output_seen st then [ps_output_format st] else []) @ output_formats its
         = (if ps_output_seen st' then [ps_output_format st'] else [])
     \<and> (output_formats its = [] \<longrightarrow> ps_output_format st' = ps_output_format st)
     \<and> option_list (ps_path st) @ paths its = option_list (ps_path st')
     \<and> (\<forall>p \<in> set (paths its). \<not> is_option p)"

lemma reads_Nil: "reads st [] st' \<longleftrightarrow> st' = st"
  by (cases st; cases st')
    (auto simp: reads_def option_list_def split: option.splits if_splits)

lemma option_list_append [simp]:
  "option_list v @ x # xs = option_list w \<longleftrightarrow> v = None \<and> xs = [] \<and> w = Some x"
  by (cases v; cases w) auto

lemma reads_Input_Format:
  "reads st (Input_Format f # its) st' \<longleftrightarrow>
     ps_input_format st = None \<and> reads (st\<lparr>ps_input_format := Some f\<rparr>) its st'"
  by (cases "ps_input_format st"; cases "ps_input_format st'") (auto simp: reads_def)

lemma reads_Output_Format:
  "reads st (Output_Format f # its) st' \<longleftrightarrow>
     \<not> ps_output_seen st \<and> reads (st\<lparr>ps_output_format := f, ps_output_seen := True\<rparr>) its st'"
  by (auto simp: reads_def)

lemma reads_Path:
  "reads st (Path p # its) st' \<longleftrightarrow>
     ps_path st = None \<and> \<not> is_option p \<and> reads (st\<lparr>ps_path := Some p\<rparr>) its st'"
  by (cases "ps_path st"; cases "ps_path st'") (auto simp: reads_def)

lemmas reads_simps = reads_Nil reads_Input_Format reads_Output_Format reads_Path

lemma is_option_names [simp]: "is_option ''--input-format''" "is_option ''--output-format''"
  by (simp_all add: is_option_def)

lemma parse_loop_reads:
  "parse_loop st args = Inr st' \<Longrightarrow> \<exists>its. args = words_of its \<and> reads st its st'"
proof (induction st args rule: parse_loop.induct)
  case (1 st)
  have "[] = words_of [] \<and> reads st [] st'" using 1 by (simp add: reads_simps)
  then show ?case by blast
next
  case (2 st a args)
  consider (inp) "a = ''--input-format''" | (out) "a = ''--output-format''"
    | (path) "a \<noteq> ''--input-format''" "a \<noteq> ''--output-format''" by blast
  then show ?case
  proof cases
    case inp
    with 2(4) obtain v rest f where "args = v # rest" "ps_input_format st = None"
      "v = input_format_name f" "parse_loop (st\<lparr>ps_input_format := Some f\<rparr>) rest = Inr st'"
      by (auto simp: result_iff parse_input_format_ok split: if_splits list.splits)
    moreover from this 2(1) inp obtain its where
      "rest = words_of its" "reads (st\<lparr>ps_input_format := Some f\<rparr>) its st'"
      by (auto simp: parse_input_format_ok)
    ultimately have "a # args = words_of (Input_Format f # its) \<and> reads st (Input_Format f # its) st'"
      using inp by (simp add: reads_simps)
    then show ?thesis by blast
  next
    case out
    with 2(4) obtain v rest f where "args = v # rest" "\<not> ps_output_seen st"
      "v = output_format_name f"
      "parse_loop (st\<lparr>ps_output_format := f, ps_output_seen := True\<rparr>) rest = Inr st'"
      by (auto simp: result_iff parse_output_format_ok split: if_splits list.splits)
    moreover from this 2(2) out obtain its where "rest = words_of its"
      "reads (st\<lparr>ps_output_format := f, ps_output_seen := True\<rparr>) its st'"
      by (auto simp: parse_output_format_ok)
    ultimately have "a # args = words_of (Output_Format f # its) \<and> reads st (Output_Format f # its) st'"
      using out by (simp add: reads_simps)
    then show ?thesis by blast
  next
    case path
    with 2(4) have ok: "\<not> is_option a" "ps_path st = None"
      "parse_loop (st\<lparr>ps_path := Some a\<rparr>) args = Inr st'"
      by (auto split: if_splits)
    with 2(3) path obtain its where "args = words_of its" "reads (st\<lparr>ps_path := Some a\<rparr>) its st'"
      by auto
    with ok have "a # args = words_of (Path a # its) \<and> reads st (Path a # its) st'"
      by (simp add: reads_simps)
    then show ?thesis by blast
  qed
qed

lemma reads_parse_loop: "reads st its st' \<Longrightarrow> parse_loop st (words_of its) = Inr st'"
proof (induction its arbitrary: st)
  case Nil
  then show ?case by (simp add: reads_simps)
next
  case (Cons i its)
  then show ?case
  proof (cases i)
    case (Path p)
    with Cons have "\<not> is_option p" by (simp add: reads_simps)
    then have "p \<noteq> ''--input-format''" "p \<noteq> ''--output-format''" by auto
    with Cons Path show ?thesis by (simp add: reads_simps)
  qed (simp_all add: reads_simps parse_input_format_ok [THEN iffD2]
      parse_output_format_ok [THEN iffD2])
qed

lemma parse_loop_ok:
  "parse_loop st args = Inr st' \<longleftrightarrow> (\<exists>its. args = words_of its \<and> reads st its st')"
  using parse_loop_reads reads_parse_loop by blast

text \<open>The items of a configuration.\<close>

definition config_items :: "config \<Rightarrow> item list \<Rightarrow> bool" where
  "config_items cfg its \<longleftrightarrow>
     input_formats its = [input_format cfg]
     \<and> (output_formats its = [output_format cfg]
        \<or> output_formats its = [] \<and> output_format cfg = Human)
     \<and> paths its = [path cfg] \<and> \<not> is_option (path cfg)"

lemma parse_args_ok:
  "parse_args args = Inr cfg \<longleftrightarrow> (\<exists>its. args = ''validate'' # words_of its \<and> config_items cfg its)"
proof -
  have "parse_args args = Inr cfg \<longleftrightarrow> args \<noteq> [] \<and> hd args = ''validate'' \<and>
    (\<exists>st. parse_loop parse_start (tl args) = Inr st \<and> ps_input_format st = Some (input_format cfg)
       \<and> ps_path st = Some (path cfg) \<and> ps_output_format st = output_format cfg)"
    by (cases cfg) (auto simp: parse_args_def result_iff)
  also have "\<dots> \<longleftrightarrow> (\<exists>its. args = ''validate'' # words_of its \<and> config_items cfg its)"
  proof
    show "\<exists>its. args = ''validate'' # words_of its \<and> config_items cfg its"
      if "args \<noteq> [] \<and> hd args = ''validate'' \<and>
        (\<exists>st. parse_loop parse_start (tl args) = Inr st \<and> ps_input_format st = Some (input_format cfg)
          \<and> ps_path st = Some (path cfg) \<and> ps_output_format st = output_format cfg)"
      using that
      by (cases args)
        (auto simp: parse_loop_ok reads_def parse_start_def config_items_def split: if_splits)
  next
    assume "\<exists>its. args = ''validate'' # words_of its \<and> config_items cfg its"
    then obtain its where items: "args = ''validate'' # words_of its" "config_items cfg its" by blast
    let ?st = "\<lparr>ps_input_format = Some (input_format cfg), ps_output_format = output_format cfg,
      ps_output_seen = (output_formats its \<noteq> []), ps_path = Some (path cfg)\<rparr>"
    have "reads parse_start its ?st"
      using items(2) by (auto simp: reads_def parse_start_def config_items_def)
    with items show "args \<noteq> [] \<and> hd args = ''validate'' \<and>
        (\<exists>st. parse_loop parse_start (tl args) = Inr st \<and> ps_input_format st = Some (input_format cfg)
          \<and> ps_path st = Some (path cfg) \<and> ps_output_format st = output_format cfg)"
      by (auto simp: parse_loop_ok intro!: exI [of _ ?st])
  qed
  finally show ?thesis .
qed

text \<open>The hint looks at neighbouring words; on the words of items it finds the JSON item.\<close>

lemma hint_Cons:
  "a \<noteq> ''--output-format'' \<Longrightarrow> output_format_hint (a # args) = output_format_hint args"
  by (cases args) simp_all

lemma hint_value:
  "v \<noteq> ''--output-format'' \<Longrightarrow> output_format_hint (''--output-format'' # v # args) =
     (if v = ''json'' then output_format.Json else output_format_hint args)"
  by (simp add: hint_Cons)

lemma names_are_no_options [simp]:
  "input_format_name f \<noteq> ''--output-format''" "output_format_name g \<noteq> ''--output-format''"
  by (cases f, simp_all) (cases g, simp_all)

lemma hint_words:
  "\<forall>p \<in> set (paths its). \<not> is_option p \<Longrightarrow> output_format_hint (words_of its) =
     (if output_format.Json \<in> set (output_formats its) then output_format.Json else Human)"
proof (induction its)
  case (Cons i its)
  show ?case
  proof (cases i)
    case (Output_Format f)
    with Cons show ?thesis by (cases f) (simp_all add: hint_value hint_Cons)
  next
    case (Path p)
    with Cons.prems have "p \<noteq> ''--output-format''" by auto
    with Cons Path show ?thesis by (simp add: hint_Cons)
  next
    case (Input_Format f)
    have "''--input-format'' \<noteq> ''--output-format''" by simp
    with Cons Input_Format show ?thesis by (simp add: hint_Cons)
  qed
qed simp

section \<open>Verdicts\<close>

text \<open>When the bytes of a file are a valid manifest in a format.\<close>

definition accepted_as ::
  "minicbor \<Rightarrow> crates \<Rightarrow> serde_json_text \<Rightarrow> input_format \<Rightarrow> bytes \<Rightarrow> manifest \<Rightarrow> bool" where
  "accepted_as mc cr sj fmt bs m = (case fmt of
      input_format.Json \<Rightarrow> from_slice sj bs = Inr m \<and> valid_manifest cr m
    | Cbor \<Rightarrow> decode_manifest_cbor mc cr bs default_limits = Inr m
    | Cose \<Rightarrow> verify_manifest_cose mc cr bs fixture_verify = Inr m)"

lemma validate_bytes_ok: "validate_bytes mc cr sj fmt bs = Inr m \<longleftrightarrow> accepted_as mc cr sj fmt bs m"
  by (cases fmt)
    (auto simp: validate_bytes_def accepted_as_def map_err_eq_Inr and_then_eq_Inr validate_ok)

lemma cli_main_cases:
  obtains (arguments) e where "parse_args args = Inl e"
      "cli_main mc cr sj read args = fail_with 2 (format_error sj e (output_format_hint args))"
  | (unreadable) cfg where "parse_args args = Inr cfg" "read (path cfg) = None"
      "cli_main mc cr sj read args = fail_with 1 (format_error sj
         (cli_error_new ''input_read_failed'' ''unable to read input'') (output_format cfg))"
  | (rejected) cfg bs e where "parse_args args = Inr cfg" "read (path cfg) = Some bs"
      "validate_bytes mc cr sj (input_format cfg) bs = Inl e"
      "cli_main mc cr sj read args = fail_with 1 (format_error sj e (output_format cfg))"
  | (accepted) cfg bs m where "parse_args args = Inr cfg" "read (path cfg) = Some bs"
      "validate_bytes mc cr sj (input_format cfg) bs = Inr m"
      "cli_main mc cr sj read args =
         \<lparr>exit_code = 0, stdout = format_success sj cfg @ [LF], stderr = []\<rparr>"
proof (cases "parse_args args")
  case (Inl e)
  then show ?thesis using arguments by (simp add: cli_main_def)
next
  case cfg: (Inr cfg)
  show ?thesis
  proof (cases "read (path cfg)")
    case None
    with cfg show ?thesis using unreadable by (simp add: cli_main_def)
  next
    case (Some bs)
    with cfg show ?thesis
      using rejected accepted
      by (cases "validate_bytes mc cr sj (input_format cfg) bs") (simp_all add: cli_main_def)
  qed
qed

lemma fail_with_simps [simp]:
  "exit_code (fail_with c t) = c" "stdout (fail_with c t) = []" "stderr (fail_with c t) = t @ [LF]"
  by (simp_all add: fail_with_def)

section \<open>The conformance verifier\<close>

definition fixture_key :: "cose_algorithm \<Rightarrow> key_descriptor" where
  "fixture_key alg = \<lparr>
     algorithm = tfws_identifier alg,
     key_id = ''release-1'',
     public_key_uri = ''/.well-known/keys/'' @ tfws_identifier alg @ ''.pem'',
     public_key_sha256 = expected_key_sha256 alg,
     status = ''active'',
     usage = [''release'']\<rparr>"

lemma validate_fixture_binding_ok: "validate_fixture_binding alg k = Inr u \<longleftrightarrow> k = fixture_key alg"
  by (cases k) (auto simp: validate_fixture_binding_def fixture_key_def)

lemma fixture_verify_ok:
  "fixture_verify alg k msg sig = Inr u \<longleftrightarrow> k = fixture_key alg \<and> sig = fixture_signature alg msg"
  by (auto simp: fixture_verify_def result_iff validate_fixture_binding_ok split: if_splits)

lemma length_cycle_take: "xs \<noteq> [] \<Longrightarrow> length (cycle_take n xs) = n"
  by (simp add: cycle_take_def)

lemma length_fixture_signature: "length (fixture_signature alg msg) = expected_signature_len alg"
proof -
  have "sha256 (fixture_prefix alg # msg) \<noteq> []"
    using length_sha256 [of "fixture_prefix alg # msg"] by auto
  then show ?thesis by (simp add: fixture_signature_def length_cycle_take)
qed

text \<open>The signer the conformance vectors are made with.\<close>

definition fixture_signer :: cose_signer where
  "fixture_signer alg k msg =
     and_then (validate_fixture_binding alg k) (\<lambda>_. Inr (fixture_signature alg msg))"

lemma fixture_signer_ok:
  "fixture_signer alg k msg = Inr sig \<longleftrightarrow> k = fixture_key alg \<and> sig = fixture_signature alg msg"
  by (auto simp: fixture_signer_def result_iff validate_fixture_binding_ok)

text \<open>The sample envelope with the signatures of that signer.\<close>

definition fixture_message :: "cose_algorithm \<Rightarrow> bytes" where
  "fixture_message alg = written (encode_sig_structure rfc8949 (body_protected sample_envelope)
     (ps_protected (sample_parsed_signature alg)) manifest_vector)"

definition fixture_parsed_signature :: "cose_algorithm \<Rightarrow> parsed_signature" where
  "fixture_parsed_signature alg = (sample_parsed_signature alg)
     \<lparr>ps_signature := fixture_signature alg (fixture_message alg)\<rparr>"

definition fixture_envelope :: parsed_envelope where
  "fixture_envelope = sample_envelope\<lparr>signatures := map fixture_parsed_signature REQUIRED_SIGNATURES\<rparr>"

definition fixture_bytes :: bytes where
  "fixture_bytes = written (envelope_bytes rfc8949 fixture_envelope)"

lemma fixture_canonical: "canonical_envelope rfc8949 default_cose_limits fixture_envelope"
proof -
  have "canonical_signature rfc8949 default_cose_limits alg (fixture_parsed_signature alg)" for alg
    using sample_signature_canonical [of alg]
    by (simp add: canonical_signature_def fixture_parsed_signature_def length_fixture_signature
        sample_parsed_signature_def sample_signature_def)
  then show ?thesis
    using sample_canonical
    by (simp add: canonical_envelope_def fixture_envelope_def REQUIRED_SIGNATURES_def)
qed

lemma fixture_envelope_written:
  "\<exists>env. envelope_bytes rfc8949 fixture_envelope = Inr env \<and> length env \<le> 5000"
  using sample_body sample_protected
  by (auto simp: envelope_bytes_def encode_envelope_def fixture_envelope_def sample_envelope_def
      REQUIRED_SIGNATURES_def fixture_parsed_signature_def sample_parsed_signature_def to_encoded_def
      written_def rfc_defs head_bytes_def length_fixture_signature ED25519_SIGNATURE_BYTES_def
      ML_DSA_65_SIGNATURE_BYTES_def length_manifest_vector split: sum.splits)

lemma fixture_parsed:
  "parse_envelope rfc8949 fixture_bytes default_cose_limits = Inr fixture_envelope"
  using fixture_envelope_written fixture_canonical
  by (auto simp: fixture_bytes_def written_def rfc.parse_envelope_ok exceeds_def
      default_cose_limits_def)

lemma fixture_keys:
  "sample_key ''ed25519'' ed25519_sha256 = fixture_key Ed25519"
  "sample_key ''ml-dsa-65'' ml_dsa_65_sha256 = fixture_key MlDsa65"
  by (simp_all add: sample_key_def fixture_key_def ed25519_sha256_def ml_dsa_65_sha256_def
      EXPECTED_ED_SHA256_def EXPECTED_ML_SHA256_def)

lemma fixture_message_written:
  "encode_sig_structure rfc8949 (body_protected sample_envelope)
     (ps_protected (sample_parsed_signature alg)) manifest_vector = Inr (fixture_message alg)"
  using sample_message_written [of "body_protected sample_envelope"
      "ps_protected (sample_parsed_signature alg)" manifest_vector]
  unfolding fixture_message_def written_def is_ok_iff by (auto split: sum.splits)

lemma fixture_parts:
  "body_protected fixture_envelope = body_protected sample_envelope"
  "payload fixture_envelope = manifest_vector"
  "ps_protected (fixture_parsed_signature alg) = ps_protected (sample_parsed_signature alg)"
  "ps_signature (fixture_parsed_signature alg) = fixture_signature alg (fixture_message alg)"
  "ps_kid (fixture_parsed_signature alg) = as_bytes (key_id (fixture_key alg))"
  by (simp_all add: fixture_envelope_def fixture_parsed_signature_def sample_envelope_def
      sample_parsed_signature_def sample_kid_def fixture_key_def)

lemma fixture_descriptor: "descriptor_for sample_manifest alg = Inr (fixture_key alg)"
  by (cases alg) (simp_all add: sample_descriptor fixture_keys)

lemma fixture_signed_by:
  "list_all2 (signed_by rfc8949 fixture_signer sample_manifest fixture_envelope)
     REQUIRED_SIGNATURES (signatures fixture_envelope)"
proof -
  have "signed_by rfc8949 fixture_signer sample_manifest fixture_envelope alg
      (fixture_parsed_signature alg)" for alg
    unfolding signed_by_def fixture_parts fixture_descriptor fixture_message_written
    by (simp add: fixture_signer_ok)
  then show ?thesis by (simp add: fixture_envelope_def REQUIRED_SIGNATURES_def)
qed

lemma fixture_signed:
  "sign_manifest_cose rfc8949 reference_crates sample_manifest fixture_signer = Inr fixture_bytes"
  unfolding sign_manifest_cose_def rfc.sign_manifest_cose_ok
  using fixture_parsed fixture_signed_by sample_encoded
  by (auto simp: fixture_envelope_def sample_envelope_def default_cose_limits_def
      encode_manifest_cbor_def)

section \<open>Properties\<close>

text \<open>
  C22: the arguments \<open>parse_args\<close> accepts are exactly \<open>validate\<close> followed by, in any order,
  one \<open>--input-format\<close> with its value, at most one \<open>--output-format\<close> with its value and one
  path that does not start with a dash; the configuration is the one these items name.
\<close>

theorem arguments_accepted_iff:
  "parse_args args = Inr cfg \<longleftrightarrow> (\<exists>its. args = ''validate'' # words_of its
     \<and> input_formats its = [input_format cfg]
     \<and> (output_formats its = [output_format cfg]
        \<or> output_formats its = [] \<and> output_format cfg = Human)
     \<and> paths its = [path cfg] \<and> take 1 (path cfg) \<noteq> ''-'')"
  unfolding parse_args_ok config_items_def is_option_def by simp

text \<open>
  The scan for \<open>--output-format json\<close> that chooses the form of an argument error before
  the arguments are parsed agrees with the parser: on accepted arguments it finds the format
  of the configuration.
\<close>

lemma hint_is_the_chosen_format:
  assumes "parse_args args = Inr cfg"
  shows "output_format_hint args = output_format cfg"
proof -
  obtain its where args: "args = ''validate'' # words_of its" and items: "config_items cfg its"
    using assms unfolding parse_args_ok by blast
  have "output_format_hint args = output_format_hint (words_of its)"
    by (simp add: args hint_Cons)
  also have "\<dots> = output_format cfg"
    using items by (cases "output_format cfg") (auto simp: hint_words config_items_def)
  finally show ?thesis .
qed

text \<open>
  C13: the tool exits with 0 exactly when the arguments name a readable file whose bytes are
  a valid manifest in the chosen format: JSON that deserialises to a manifest of the policy,
  accepted deterministic CBOR, or an envelope the conformance verifier accepts.
\<close>

theorem exit_zero_iff:
  "exit_code (cli_main mc cr sj read args) = 0 \<longleftrightarrow> (\<exists>its cfg bs m.
     args = ''validate'' # words_of its \<and> config_items cfg its
     \<and> read (path cfg) = Some bs \<and> accepted_as mc cr sj (input_format cfg) bs m)"
proof -
  have "exit_code (cli_main mc cr sj read args) = 0 \<longleftrightarrow> (\<exists>cfg bs m.
      parse_args args = Inr cfg \<and> read (path cfg) = Some bs
      \<and> validate_bytes mc cr sj (input_format cfg) bs = Inr m)"
    by (rule cli_main_cases [of args mc cr sj read]) auto
  then show ?thesis unfolding validate_bytes_ok parse_args_ok by auto
qed



text \<open>
  The padding of an input is the smallest number of whole blocks with room for the
  marker byte and the length, starts with the input, and the digest has 32 bytes.
\<close>

lemma padding_and_digest_sizes:
  "length (padding input) = 64 * ((length input + 8) div 64 + 1)
   \<and> take (length input) (padding input) = input \<and> length (sha256 input) = 32"
  by (simp add: padded_length padding_prefix length_sha256)

text \<open>
  C24: the COSE format of the tool never accepts real keys: an accepted envelope carries a
  manifest whose only keys are the two published conformance descriptors, and under each of
  them the conformance signature of the signed bytes.
\<close>

theorem only_conformance_keys_accepted:
  assumes items: "cbor_cose_items mc"
    and "validate_bytes mc cr sj Cose bs = Inr m"
  shows "filter (\<lambda>k. algorithm k = tfws_identifier alg) (keys m) = [fixture_key alg]
    \<and> (\<exists>p s msg. envelope_bytes mc p = Inr bs \<and> s \<in> set (signatures p)
         \<and> encode_sig_structure mc (body_protected p) (ps_protected s) (payload p) = Inr msg
         \<and> ps_signature s = fixture_signature alg msg)"
proof -
  obtain p where p: "envelope_bytes mc p = Inr bs"
    and acc: "list_all2 (accepted_by mc fixture_verify m p) REQUIRED_SIGNATURES (signatures p)"
    using assms(2)
    unfolding validate_bytes_ok accepted_as_def input_format.case verify_manifest_cose_def
      cbor_cose_items.verify_manifest_cose_ok [OF items] cbor_cose_items.parse_envelope_ok [OF items]
    by blast
  have "list_all2 (\<lambda>a s. s \<in> set (signatures p)) REQUIRED_SIGNATURES (signatures p)"
    using acc unfolding list_all2_conv_all_nth by auto
  from list_all2_member [OF acc this algorithm_required] obtain s where
    s: "accepted_by mc fixture_verify m p alg s" "s \<in> set (signatures p)" by blast
  then obtain msg where k: "descriptor_for m alg = Inr (fixture_key alg)"
    and "encode_sig_structure mc (body_protected p) (ps_protected s) (payload p) = Inr msg"
      "ps_signature s = fixture_signature alg msg"
    by (auto simp: accepted_by_def fixture_verify_ok)
  with p s(2) descriptor_for_ok [OF k] show ?thesis by blast
qed

theorem only_conformance_keys_accepted_witness:
  "filter (\<lambda>k. algorithm k = ''ml-dsa-65'') (keys sample_manifest) = [fixture_key MlDsa65]"
proof -
  have "verify_manifest_cose rfc8949 reference_crates fixture_bytes fixture_verify = Inr sample_manifest"
    unfolding verify_manifest_cose_def
    by (rule signed_then_verified [OF rfc.cbor_cose_items_axioms reference.manifest_codec_axioms
          sample_wf _ fixture_signed [unfolded sign_manifest_cose_def]])
      (simp add: fixture_signer_ok fixture_verify_ok)
  then have "validate_bytes rfc8949 reference_crates sj Cose fixture_bytes = Inr sample_manifest" for sj
    by (simp add: validate_bytes_ok accepted_as_def)
  from only_conformance_keys_accepted [OF rfc.cbor_cose_items_axioms this, of MlDsa65]
  show ?thesis by simp
qed

text \<open>
  C25: from signing to the exit code: an envelope signed by the conformance signer and stored
  in the named file is reported valid, with exit code 0 and nothing on the error stream.
\<close>

theorem conformance_envelope_reported_valid:
  assumes items: "cbor_cose_items mc" and codec: "manifest_codec mc cr" and wf: "wf_manifest m"
    and signed: "sign_manifest_cose mc cr m fixture_signer = Inr envelope"
    and readable: "read nm = Some envelope" and no_option: "take 1 nm \<noteq> ''-''"
  shows "cli_main mc cr sj read [''validate'', ''--input-format'', ''cose'', nm] =
    \<lparr>exit_code = 0, stdout = ''valid'' @ [LF], stderr = []\<rparr>"
proof -
  have "verify_manifest_cose mc cr envelope fixture_verify = Inr m"
    unfolding verify_manifest_cose_def
    by (rule signed_then_verified [OF items codec wf _ signed [unfolded sign_manifest_cose_def]])
      (simp add: fixture_signer_ok fixture_verify_ok)
  then have valid: "validate_bytes mc cr sj Cose envelope = Inr m"
    by (simp add: validate_bytes_ok accepted_as_def)
  have args: "parse_args [''validate'', ''--input-format'', ''cose'', nm] =
      Inr \<lparr>input_format = Cose, output_format = Human, path = nm\<rparr>"
    using no_option
    by (auto simp: parse_args_ok config_items_def is_option_def
        intro!: exI [of _ "[Input_Format Cose, Path nm]"])
  show ?thesis by (simp add: cli_main_def args readable valid format_success_def)
qed

theorem conformance_envelope_reported_valid_witness:
  "exit_code (cli_main rfc8949 reference_crates
     \<lparr>from_slice = (\<lambda>_. Inl []), from_str = (\<lambda>_. Inl []), value_to_string = (\<lambda>_. [])\<rparr>
     (\<lambda>_. Some fixture_bytes) [''validate'', ''--input-format'', ''cose'', ''a.cose'']) = 0"
  using conformance_envelope_reported_valid [OF rfc.cbor_cose_items_axioms
      reference.manifest_codec_axioms sample_wf fixture_signed, of "\<lambda>_. Some fixture_bytes" "''a.cose''"]
  by simp


text \<open>
  C36: on a CBOR manifest the WebAssembly export and the tool give one verdict: the report is
  the valid one exactly when the tool accepts the bytes, and otherwise carries the tool's
  error code, with the tool's message unless the code is \<open>resource_limit\<close>.
\<close>

theorem wasm_report_agrees_with_tool:
  "validate_manifest_cbor mc cr sj bs = value_to_string sj
     (case validate_bytes mc cr sj Cbor bs of
        Inr m \<Rightarrow> object_of [(''format'', JString ''cbor''), (''valid'', JBool True)]
      | Inl e \<Rightarrow> object_of [
          (''error'', object_of [
            (''code'', JString (error_code e)),
            (''message'', JString (if error_code e = ''resource_limit''
               then ''input exceeds a CBOR resource limit'' else error_message e))]),
          (''format'', JString ''cbor''), (''valid'', JBool False)])"
proof (cases "decode_manifest_cbor mc cr bs default_limits")
  case (Inl e)
  then show ?thesis
    by (cases e) (simp_all add: validate_manifest_cbor_def validate_bytes_def category_error_def
        cli_error_new_def category_message_def wasm_category_message_def cbor_category_def)
qed (simp add: validate_manifest_cbor_def validate_bytes_def)

text \<open>
  The JSON export answers true exactly for the texts whose bytes the tool accepts as a
  JSON manifest, given that the reader of texts reads their bytes.
\<close>

lemma wasm_json_verdict:
  assumes "\<And>t. from_str sj t = from_slice sj (as_bytes t)"
  shows "validate_manifest cr sj text \<longleftrightarrow>
    (\<exists>m. validate_bytes mc cr sj input_format.Json (as_bytes text) = Inr m)"
  unfolding validate_bytes_ok validate_manifest_def accepted_as_def assms
  by (auto simp: is_ok_iff validate_ok split: sum.split)

end
