(* ===== verification/Std_Text.thy ===== *)
theory Std_Text
  imports Utf8
begin

text \<open>
  The text functions of the standard library that the OpenSSL provider uses, on the UTF-8
  bytes of a text: lossy decoding, characters, words, substring search and replacement,
  lower-case hexadecimal and the display of a signed integer.
\<close>

section \<open>Lossy decoding\<close>

text \<open>
  One step of the decoder on byte values: whether a well-formed sequence starts here, and how
  many bytes it has; of an ill-formed one, how many bytes are replaced together.
\<close>

fun sequence_head :: "nat list \<Rightarrow> bool \<times> nat" where
  "sequence_head [] = (False, 0)"
| "sequence_head (b # bs) =
     (if b < 128 then (True, 1)
      else if 194 \<le> b \<and> b \<le> 223 then
        (case bs of c # _ \<Rightarrow> if continuation c then (True, 2) else (False, 1) | [] \<Rightarrow> (False, 1))
      else if 224 \<le> b \<and> b \<le> 239 then
        (case bs of
           c # r \<Rightarrow>
             if second_of_three b c
             then (case r of d # _ \<Rightarrow> if continuation d then (True, 3) else (False, 2)
                   | [] \<Rightarrow> (False, 2))
             else (False, 1)
         | [] \<Rightarrow> (False, 1))
      else if 240 \<le> b \<and> b \<le> 244 then
        (case bs of
           c # r \<Rightarrow>
             if second_of_four b c
             then (case r of
                 d # r' \<Rightarrow>
                   if continuation d
                   then (case r' of e # _ \<Rightarrow> if continuation e then (True, 4) else (False, 3)
                         | [] \<Rightarrow> (False, 3))
                   else (False, 2)
               | [] \<Rightarrow> (False, 2))
             else (False, 1)
         | [] \<Rightarrow> (False, 1))
      else (False, 1))"

lemma sequence_head_pos: "xs \<noteq> [] \<Longrightarrow> 0 < snd (sequence_head xs)"
  by (cases xs) (auto split: list.split)

lemma sequence_head_shortens:
  "s \<noteq> [] \<Longrightarrow> length s - snd (sequence_head (map f s)) < length s"
  using sequence_head_pos [of "map f s"] by simp

text \<open>U+FFFD, and the horizontal ellipsis U+2026.\<close>

definition REPLACEMENT :: bytes where
  "REPLACEMENT = [0xEF, 0xBF, 0xBD]"

definition ELLIPSIS :: str where
  "ELLIPSIS = text_of [0xE2, 0x80, 0xA6]"

function lossy_bytes :: "bytes \<Rightarrow> bytes" where
  "lossy_bytes bs =
     (if bs = [] then []
      else
        (let h = sequence_head (map unat bs) in
         (if fst h then take (snd h) bs else REPLACEMENT) @ lossy_bytes (drop (snd h) bs)))"
  by auto
termination
  by (relation "measure length") (simp_all add: sequence_head_shortens)

declare lossy_bytes.simps [simp del]

definition from_utf8_lossy :: "bytes \<Rightarrow> str" where
  "from_utf8_lossy bs = text_of (lossy_bytes bs)"

section \<open>Characters and words\<close>

text \<open>The characters of a text, each as its UTF-8 bytes.\<close>

function chars :: "str \<Rightarrow> str list" where
  "chars s =
     (if s = [] then []
      else (let n = snd (sequence_head (map of_char s)) in take n s # chars (drop n s)))"
  by auto
termination
  by (relation "measure length") (simp_all add: sequence_head_shortens)

declare chars.simps [simp del]

text \<open>\<open>split_whitespace\<close>: the maximal runs of characters that are no white space.\<close>

fun runs :: "str \<Rightarrow> str list \<Rightarrow> str list" where
  "runs word [] = (if word = [] then [] else [word])"
| "runs word (c # cs) =
     (if blank c then (if word = [] then [] else [word]) @ runs [] cs
      else runs (word @ c) cs)"

definition split_whitespace :: "str \<Rightarrow> str list" where
  "split_whitespace s = runs [] (chars s)"

fun join_with :: "str \<Rightarrow> str list \<Rightarrow> str" where
  "join_with sep [] = []"
| "join_with sep [w] = w"
| "join_with sep (w # v # ws) = w @ sep @ join_with sep (v # ws)"

section \<open>Search and replacement\<close>

definition starts :: "'a list \<Rightarrow> 'a list \<Rightarrow> bool" where
  "starts pat s \<longleftrightarrow> take (length pat) s = pat"

fun contains :: "'a list \<Rightarrow> 'a list \<Rightarrow> bool" where
  "contains pat [] \<longleftrightarrow> pat = []"
| "contains pat (c # s) \<longleftrightarrow> starts pat (c # s) \<or> contains pat s"

text \<open>\<open>replace\<close> for a pattern that is not empty: leftmost matches that do not overlap.\<close>

function replace_all :: "'a list \<Rightarrow> 'a list \<Rightarrow> 'a list \<Rightarrow> 'a list" where
  "replace_all pat to s =
     (if s = [] \<or> pat = [] then s
      else if starts pat s then to @ replace_all pat to (drop (length pat) s)
      else hd s # replace_all pat to (tl s))"
  by auto
termination
  by (relation "measure (\<lambda>(pat, to, s). length s)") auto

declare replace_all.simps [simp del]

section \<open>Hexadecimal and integers\<close>

definition hex_digit :: "nat \<Rightarrow> char" where
  "hex_digit d = (if d < 10 then char_of (48 + d) else char_of (87 + d))"

definition hex_byte :: "u8 \<Rightarrow> str" where
  "hex_byte b = [hex_digit (unat b div 16), hex_digit (unat b mod 16)]"

definition display_int :: "int \<Rightarrow> str" where
  "display_int i = (if i < 0 then ''-'' @ decimal (nat (- i)) else decimal (nat i))"

section \<open>Facts\<close>

lemma starts_iff: "starts pat s \<longleftrightarrow> (\<exists>r. s = pat @ r)"
  unfolding starts_def
proof
  show "\<exists>r. s = pat @ r" if "take (length pat) s = pat"
    using that append_take_drop_id [of "length pat" s] by metis
qed auto

lemma contains_iff: "contains pat s \<longleftrightarrow> (\<exists>l r. s = l @ pat @ r)"
proof (induction s)
  case (Cons c s)
  have "(\<exists>l r. c # s = l @ pat @ r) \<longleftrightarrow> (\<exists>r. c # s = pat @ r) \<or> (\<exists>l r. s = l @ pat @ r)"
  proof
    assume "\<exists>l r. c # s = l @ pat @ r"
    then obtain l r where "c # s = l @ pat @ r" by blast
    then show "(\<exists>r. c # s = pat @ r) \<or> (\<exists>l r. s = l @ pat @ r)" by (cases l) auto
  next
    show "\<exists>l r. c # s = l @ pat @ r"
      if "(\<exists>r. c # s = pat @ r) \<or> (\<exists>l r. s = l @ pat @ r)"
      using that by (metis append_Cons append_Nil)
  qed
  with Cons show ?case by (simp add: starts_iff)
qed simp

lemma replace_all_Nil [simp]: "replace_all pat to [] = []"
  by (simp add: replace_all.simps)

lemma replace_all_Cons:
  "pat \<noteq> [] \<Longrightarrow> replace_all pat to (c # s) =
     (if starts pat (c # s) then to @ replace_all pat to (drop (length pat) (c # s))
      else c # replace_all pat to s)"
  by (subst replace_all.simps) simp

text \<open>Where a pattern cannot occur: next to text that has none of its characters.\<close>

lemma starts_simps [simp]:
  "starts [] s"
  "\<not> starts (c # q) []"
  "starts (c # q) (d # s) \<longleftrightarrow> c = d \<and> starts q s"
  by (auto simp: starts_def)

lemma contains_behind: "hd p \<notin> set u \<Longrightarrow> p \<noteq> [] \<Longrightarrow> contains p (u @ r) \<longleftrightarrow> contains p r"
  by (induction u) (auto simp: neq_Nil_conv)

lemma starts_before: "set e \<inter> set p = {} \<Longrightarrow> starts p (l @ e) \<longleftrightarrow> starts p l"
proof (induction p arbitrary: l)
  case (Cons c p)
  then show ?case
  proof (cases l)
    case Nil
    with Cons.prems show ?thesis by (cases e) auto
  qed auto
qed simp

lemma contains_before:
  assumes "set e \<inter> set p = {}" and "p \<noteq> []"
  shows "contains p (l @ e) \<longleftrightarrow> contains p l"
proof (induction l)
  case Nil
  have "\<not> contains p e"
    using assms by (auto simp: contains_iff neq_Nil_conv)
  with assms show ?case by simp
next
  case (Cons c l)
  with starts_before [OF assms(1), of "c # l"] show ?case by simp
qed

lemma contains_part: "contains p l \<Longrightarrow> contains p (l @ r)"
  unfolding contains_iff by (metis append_assoc)

lemma contains_drop: "contains p (drop n s) \<Longrightarrow> contains p s"
  by (metis append_take_drop_id append_assoc contains_iff)

text \<open>Replacement by a marker that shares no character with the pattern's begin.\<close>

lemma starts_replaced:
  "t \<notin> set q \<Longrightarrow> starts q (replace_all pat (t # ts) s) \<Longrightarrow> starts q s"
proof (induction q arbitrary: s)
  case (Cons c q)
  show ?case
  proof (cases s)
    case Nil
    with Cons.prems show ?thesis by simp
  next
    case s: (Cons d r)
    with Cons show ?thesis
      by (cases "pat = []") (auto simp: replace_all_Cons replace_all.simps [of "[]"] split: if_splits)
  qed
qed simp

lemma replaced_clean:
  assumes "p \<noteq> []" and "t \<notin> set p" and "hd p \<notin> set (t # ts)"
    and "pat = p \<or> \<not> contains p s"
  shows "\<not> contains p (replace_all pat (t # ts) s)"
  using assms(4)
proof (induction pat "t # ts" s rule: replace_all.induct)
  case (1 pat s)
  show ?case
  proof (cases "s = [] \<or> pat = []")
    case True
    with 1 assms(1) show ?thesis by (auto simp: replace_all.simps [of pat] neq_Nil_conv)
  next
    case False
    then obtain c r where s: "s = c # r" by (cases s) auto
    show ?thesis
    proof (cases "starts pat s")
      case True
      have "\<not> contains p (replace_all pat (t # ts) (drop (length pat) s))"
        using 1 False True contains_drop by blast
      with True False s contains_behind [OF assms(3,1)] show ?thesis
        by (simp add: replace_all_Cons)
    next
      case no: False
      have ih: "\<not> contains p (replace_all pat (t # ts) r)"
        using 1 False no s by auto
      have "\<not> starts p (c # replace_all pat (t # ts) r)"
      proof
        assume st: "starts p (c # replace_all pat (t # ts) r)"
        obtain q where p: "p = c # q" using st assms(1) by (cases p) auto
        with st assms(2) have "starts q r" by (auto dest: starts_replaced)
        with p s have "starts p s" by simp
        with 1(3) no s show False by auto
      qed
      with ih no False s show ?thesis by (simp add: replace_all_Cons)
    qed
  qed
qed

text \<open>Sizes in bytes.\<close>

lemma sequence_head_bound: "snd (sequence_head xs) \<le> 4"
  by (cases xs) (auto split: list.split)

lemma chars_Nil [simp]: "chars [] = []"
  by (simp add: chars.simps)

lemma chars_size: "c \<in> set (chars s) \<Longrightarrow> length c \<le> 4"
proof (induction s rule: chars.induct)
  case (1 s)
  then show ?case
    using sequence_head_bound [of "map of_char s"]
    by (cases "s = []") (auto simp: chars.simps [of s] Let_def)
qed

lemma concat_chars: "concat (chars s) = s"
proof (induction s rule: chars.induct)
  case (1 s)
  then show ?case by (cases "s = []") (simp_all add: chars.simps [of s] Let_def)
qed

text \<open>Lossy decoding leaves what is UTF-8 already.\<close>

lemma utf8_head:
  "utf8_codes xs \<Longrightarrow> xs \<noteq> [] \<Longrightarrow>
   fst (sequence_head xs) \<and> utf8_codes (drop (snd (sequence_head xs)) xs)"
  by (cases xs) (auto split: if_splits list.splits)

lemma lossy_utf8: "utf8_codes (map unat bs) \<Longrightarrow> lossy_bytes bs = bs"
proof (induction bs rule: lossy_bytes.induct)
  case (1 bs)
  show ?case
  proof (cases "bs = []")
    case False
    with utf8_head [OF 1(2)] 1(1) [OF False refl] show ?thesis
      by (simp add: lossy_bytes.simps [of bs] Let_def drop_map)
  qed (simp add: lossy_bytes.simps)
qed

lemma from_utf8_lossy_text: "valid_utf8 s \<Longrightarrow> from_utf8_lossy (as_bytes s) = s"
  by (simp add: from_utf8_lossy_def valid_utf8_def lossy_utf8 map_unat_as_bytes)

end
