(* ===== verification/File_System.thy ===== *)
theory File_System
  imports Std_Text
begin

text \<open>
  The part of \<open>std::fs\<close>, \<open>std::path\<close> and \<open>std::process\<close> that the OpenSSL provider uses, on
  Unix: paths as texts, files and directories as a map, and computations that read and change
  it and may fail.  What the operating system decides is the record \<open>system\<close>: which calls it
  refuses, how symbolic links resolve, the clock, and what a started program does.
\<close>

section \<open>The world\<close>

datatype node = Directory nat | File bytes

record world =
  nodes :: "str \<Rightarrow> node option"
  scratch_sequence :: u64

datatype io_error = AlreadyExists | OtherError str

datatype fs_call = CreateDir | CreateDirAll | WriteFile | ReadFile | SetPermissions | RemoveDirAll

text \<open>\<open>std::process::Output\<close>: no exit code when a signal ended the program.\<close>

record process_output =
  out_code :: "int option"
  out_stdout :: bytes
  out_stderr :: bytes

definition success :: "process_output \<Rightarrow> bool" where
  "success out \<longleftrightarrow> out_code out = Some 0"

record system =
  refuses :: "fs_call \<Rightarrow> str \<Rightarrow> bool"
  os_canonicalize :: "world \<Rightarrow> str \<Rightarrow> io_error + str"
  clock_nanos :: "world \<Rightarrow> nat"
  process_id :: nat
  run_command :: "str \<Rightarrow> str list \<Rightarrow> world \<Rightarrow> (io_error + process_output) \<times> world"

section \<open>Computations\<close>

text \<open>A function that reads and changes the world and returns a \<open>Result\<close>.\<close>

type_synonym ('e, 'a) io = "world \<Rightarrow> ('e + 'a) \<times> world"

definition io_bind :: "('e, 'a) io \<Rightarrow> ('a \<Rightarrow> ('e, 'b) io) \<Rightarrow> ('e, 'b) io" where
  "io_bind f g w = (case f w of (Inl e, w') \<Rightarrow> (Inl e, w') | (Inr x, w') \<Rightarrow> g x w')"

definition io_result :: "'e + 'a \<Rightarrow> ('e, 'a) io" where
  "io_result r w = (r, w)"

definition io_map_err :: "('e \<Rightarrow> 'f) \<Rightarrow> ('e, 'a) io \<Rightarrow> ('f, 'a) io" where
  "io_map_err g f w = (case f w of (r, w') \<Rightarrow> (map_err g r, w'))"

text \<open>A computation that only reads.\<close>

definition io_read :: "(world \<Rightarrow> 'e + 'a) \<Rightarrow> ('e, 'a) io" where
  "io_read f w = (f w, w)"

section \<open>Paths\<close>

fun split_slash :: "str \<Rightarrow> str list" where
  "split_slash [] = [[]]"
| "split_slash (c # s) =
     (if c = CHR ''/'' then [] # split_slash s
      else (case split_slash s of w # ws \<Rightarrow> (c # w) # ws | [] \<Rightarrow> [[c]]))"

definition is_absolute :: "str \<Rightarrow> bool" where
  "is_absolute p \<longleftrightarrow> take 1 p = ''/''"

text \<open>
  \<open>Path::components\<close>: the root of an absolute path, then the names between slashes without
  empty ones and without dots, except a dot at the begin of a relative path.
\<close>

definition names :: "str list \<Rightarrow> str list" where
  "names ws = filter (\<lambda>v. v \<noteq> [] \<and> v \<noteq> ''.'') ws"

definition components :: "str \<Rightarrow> str list" where
  "components p =
     (if is_absolute p then ''/'' # names (split_slash p)
      else (let ws = split_slash p in
        (if hd ws = ''.'' then [''.''] else []) @ names ws))"

definition path_starts_with :: "str \<Rightarrow> str \<Rightarrow> bool" where
  "path_starts_with p base \<longleftrightarrow> starts (components base) (components p)"

text \<open>\<open>Path::join\<close>\<close>

definition join :: "str \<Rightarrow> str \<Rightarrow> str" where
  "join p s =
     (if is_absolute s then s
      else if p = [] \<or> last p = CHR ''/'' then p @ s
      else p @ ''/'' @ s)"

section \<open>Files and directories\<close>

text \<open>Everything below a directory, and the directories above a path.\<close>

definition below :: "str \<Rightarrow> str \<Rightarrow> bool" where
  "below p q \<longleftrightarrow> starts (p @ ''/'') q"

definition ancestors :: "str \<Rightarrow> str list" where
  "ancestors p = filter (\<lambda>q. below q p) (map (\<lambda>n. take n p) [0..<length p])"

definition parent :: "str \<Rightarrow> str" where
  "parent p = rev (drop 1 (dropWhile (\<lambda>c. c \<noteq> CHR ''/'') (rev p)))"

definition is_directory :: "node option \<Rightarrow> bool" where
  "is_directory n = (case n of Some (Directory _) \<Rightarrow> True | _ \<Rightarrow> False)"

definition is_file :: "node option \<Rightarrow> bool" where
  "is_file n = (case n of Some (File _) \<Rightarrow> True | _ \<Rightarrow> False)"

text \<open>The mode of a new directory, \<open>0o777\<close>, before the process's mask.\<close>

definition default_mode :: nat where
  "default_mode = 7 * 64 + 7 * 8 + 7"

definition read_file :: "system \<Rightarrow> str \<Rightarrow> world \<Rightarrow> io_error + bytes" where
  "read_file sys p w =
     (if refuses sys ReadFile p then Inl (OtherError ''refused'')
      else (case nodes w p of
          Some (File bs) \<Rightarrow> Inr bs
        | Some (Directory _) \<Rightarrow> Inl (OtherError ''is a directory'')
        | None \<Rightarrow> Inl (OtherError ''not found'')))"

text \<open>\<open>fs::read_to_string\<close>: the file has to be UTF-8.\<close>

definition read_to_string :: "system \<Rightarrow> str \<Rightarrow> world \<Rightarrow> io_error + str" where
  "read_to_string sys p w =
     and_then (read_file sys p w) (\<lambda>bs. ok_or (OtherError ''invalid data'') (from_utf8 bs))"

definition write_file :: "system \<Rightarrow> str \<Rightarrow> bytes \<Rightarrow> (io_error, unit) io" where
  "write_file sys p bs w =
     (if refuses sys WriteFile p then (Inl (OtherError ''refused''), w)
      else if is_directory (nodes w p) then (Inl (OtherError ''is a directory''), w)
      else if \<not> is_directory (nodes w (parent p)) then (Inl (OtherError ''not found''), w)
      else (Inr (), w\<lparr>nodes := (nodes w)(p \<mapsto> File bs)\<rparr>))"

definition create_dir :: "system \<Rightarrow> str \<Rightarrow> (io_error, unit) io" where
  "create_dir sys p w =
     (if refuses sys CreateDir p then (Inl (OtherError ''refused''), w)
      else if nodes w p \<noteq> None then (Inl AlreadyExists, w)
      else if \<not> is_directory (nodes w (parent p)) then (Inl (OtherError ''not found''), w)
      else (Inr (), w\<lparr>nodes := (nodes w)(p \<mapsto> Directory default_mode)\<rparr>))"

definition create_dir_all :: "system \<Rightarrow> str \<Rightarrow> (io_error, unit) io" where
  "create_dir_all sys p w =
     (let dirs = p # ancestors p in
      if refuses sys CreateDirAll p then (Inl (OtherError ''refused''), w)
      else if list_ex (\<lambda>q. is_file (nodes w q)) dirs then (Inl (OtherError ''not a directory''), w)
      else (Inr (), w\<lparr>nodes := (\<lambda>q.
        if q \<in> set dirs \<and> nodes w q = None then Some (Directory default_mode) else nodes w q)\<rparr>))"

definition set_permissions :: "system \<Rightarrow> str \<Rightarrow> nat \<Rightarrow> (io_error, unit) io" where
  "set_permissions sys p mode w =
     (if refuses sys SetPermissions p then (Inl (OtherError ''refused''), w)
      else (case nodes w p of
          Some (Directory _) \<Rightarrow> (Inr (), w\<lparr>nodes := (nodes w)(p \<mapsto> Directory mode)\<rparr>)
        | Some (File _) \<Rightarrow> (Inr (), w)
        | None \<Rightarrow> (Inl (OtherError ''not found''), w)))"

definition remove_dir_all :: "system \<Rightarrow> str \<Rightarrow> (io_error, unit) io" where
  "remove_dir_all sys p w =
     (if refuses sys RemoveDirAll p then (Inl (OtherError ''refused''), w)
      else if \<not> is_directory (nodes w p) then (Inl (OtherError ''not a directory''), w)
      else (Inr (), w\<lparr>nodes := (\<lambda>q. if q = p \<or> below p q then None else nodes w q)\<rparr>))"

end
