(* ===== verification/Openssl.thy ===== *)
theory Openssl
  imports File_System Cose
begin

text \<open>
  The OpenSSL provider (\<open>crates/tfws-openssl-provider/src/lib.rs\<close>, Unix build): the check of
  a public key against its descriptor, key files found by key identifier, scratch directories,
  and the two commands behind the traits \<open>CoseSigner\<close> and \<open>CoseVerifier\<close>.  The digest of the
  \<open>sha2\<close> crate is the argument \<open>digest\<close>; the operating system and the program are \<open>sys\<close>.
\<close>

section \<open>Constants, errors and the provider\<close>

definition MAX_KEY_ID_BYTES :: nat where
  "MAX_KEY_ID_BYTES = 128"

definition MAX_OPENSSL_DIAGNOSTIC_CHARS :: nat where
  "MAX_OPENSSL_DIAGNOSTIC_CHARS = 1024"

datatype provider_error = Io io_error | OpenSsl

record openssl_provider =
  openssl :: str
  private_key_dir :: str
  public_key_dir :: str
  scratch_root :: str

text \<open>The constructors; \<open>temp_dir\<close> is \<open>env::temp_dir()\<close>.\<close>

definition with_scratch_root :: "str \<Rightarrow> str \<Rightarrow> str \<Rightarrow> str \<Rightarrow> openssl_provider" where
  "with_scratch_root program private_dir public_dir root =
     \<lparr>openssl = program, private_key_dir = private_dir, public_key_dir = public_dir,
      scratch_root = root\<rparr>"

definition provider_new :: "str \<Rightarrow> str \<Rightarrow> str \<Rightarrow> str \<Rightarrow> openssl_provider" where
  "provider_new temp_dir program private_dir public_dir =
     \<lparr>openssl = program, private_key_dir = private_dir, public_key_dir = public_dir,
      scratch_root = temp_dir\<rparr>"

definition operation_error :: "io_error \<Rightarrow> cose_crypto_error" where
  "operation_error e = OperationFailed ''local OpenSSL bridge I/O failed''"

definition lower_hex :: "bytes \<Rightarrow> str" where
  "lower_hex bs = concat (map hex_byte bs)"

text \<open>On Unix the path itself.\<close>

definition external_command_path :: "str \<Rightarrow> str" where
  "external_command_path p = p"

section \<open>Verifying files\<close>

definition verify_args :: "str \<Rightarrow> str \<Rightarrow> str \<Rightarrow> str list" where
  "verify_args public_key message_file signature_file =
     [''pkeyutl'', ''-verify'', ''-pubin'', ''-inkey'', public_key, ''-rawin'', ''-in'',
      message_file, ''-sigfile'', signature_file]"

definition sign_args :: "str \<Rightarrow> str \<Rightarrow> str \<Rightarrow> str list" where
  "sign_args private_key message_file signature_file =
     [''pkeyutl'', ''-sign'', ''-inkey'', private_key, ''-rawin'', ''-in'', message_file,
      ''-out'', signature_file]"

definition require_no_private_key :: "system \<Rightarrow> str \<Rightarrow> world \<Rightarrow> provider_error + unit" where
  "require_no_private_key sys p w =
     and_then (map_err Io (read_to_string sys p w)) (\<lambda>text.
       if contains ''PRIVATE KEY'' text then Inl OpenSsl else Inr ())"

definition verify_files :: "system \<Rightarrow> str \<Rightarrow> str \<Rightarrow> str \<Rightarrow> (provider_error, unit) io" where
  "verify_files sys public_key message_file signature_file =
     io_bind (io_read (require_no_private_key sys public_key)) (\<lambda>_.
     io_bind (io_map_err Io (run_command sys ''openssl''
         (verify_args (external_command_path public_key) (external_command_path message_file)
           (external_command_path signature_file)))) (\<lambda>out.
     io_result (if success out then Inr () else Inl OpenSsl)))"

section \<open>Key files\<close>

definition validate_key_id :: "str \<Rightarrow> cose_crypto_error + unit" where
  "validate_key_id k =
     (if k = [] \<or> MAX_KEY_ID_BYTES < length k
        \<or> \<not> list_all (\<lambda>c. is_ascii_alphanumeric c \<or> c = CHR ''-'' \<or> c = CHR ''_'') k
      then Inl cose_crypto_error.KeyBindingMismatch else Inr ())"

definition resolve_key_path ::
  "system \<Rightarrow> str \<Rightarrow> cose_algorithm \<Rightarrow> str \<Rightarrow> bool \<Rightarrow> world \<Rightarrow> cose_crypto_error + str" where
  "resolve_key_path sys root alg k public_key w =
     and_then (validate_key_id k) (\<lambda>_.
     and_then (map_err (\<lambda>_. if public_key then cose_crypto_error.KeyBindingMismatch
         else OperationFailed ''private key directory is unavailable'')
         (os_canonicalize sys w root)) (\<lambda>canonical_root.
     and_then (map_err (\<lambda>_. if public_key then cose_crypto_error.KeyBindingMismatch
         else OperationFailed ''private key is unavailable'')
         (os_canonicalize sys w (join (join root (tfws_identifier alg)) (k @ ''.pem''))))
       (\<lambda>canonical_candidate.
     if \<not> path_starts_with canonical_candidate canonical_root
     then Inl cose_crypto_error.KeyBindingMismatch
     else Inr canonical_candidate)))"

definition public_key_path ::
  "system \<Rightarrow> openssl_provider \<Rightarrow> cose_algorithm \<Rightarrow> str \<Rightarrow> world \<Rightarrow> cose_crypto_error + str" where
  "public_key_path sys prov alg k w = resolve_key_path sys (public_key_dir prov) alg k True w"

definition private_key_path ::
  "system \<Rightarrow> openssl_provider \<Rightarrow> cose_algorithm \<Rightarrow> str \<Rightarrow> world \<Rightarrow> cose_crypto_error + str" where
  "private_key_path sys prov alg k w = resolve_key_path sys (private_key_dir prov) alg k False w"

text \<open>The bytes of the public key, once they are bound to the descriptor.\<close>

definition validate_public_key_binding ::
  "system \<Rightarrow> (bytes \<Rightarrow> bytes) \<Rightarrow> openssl_provider \<Rightarrow> cose_algorithm \<Rightarrow> key_descriptor \<Rightarrow> world
     \<Rightarrow> cose_crypto_error + bytes" where
  "validate_public_key_binding sys digest prov alg k w =
     (if algorithm k \<noteq> tfws_identifier alg \<or> key_id k = [] \<or> status k \<noteq> ''active''
        \<or> length (usage k) \<noteq> 1 \<or> usage k ! 0 \<noteq> ''release''
        \<or> public_key_uri k \<noteq> ''/.well-known/keys/'' @ tfws_identifier alg @ ''.pem''
      then Inl cose_crypto_error.KeyBindingMismatch
      else
        and_then (public_key_path sys prov alg (key_id k) w) (\<lambda>p.
        and_then (map_err (\<lambda>_. cose_crypto_error.KeyBindingMismatch) (read_file sys p w)) (\<lambda>pem.
        let text = from_utf8_lossy pem in
        if contains ''PRIVATE KEY'' text \<or> \<not> contains ''PUBLIC KEY'' text
        then Inl cose_crypto_error.KeyBindingMismatch
        else if lower_hex (digest pem) \<noteq> public_key_sha256 k
        then Inl cose_crypto_error.KeyBindingMismatch
        else Inr pem)))"

definition validated_private_key ::
  "system \<Rightarrow> openssl_provider \<Rightarrow> cose_algorithm \<Rightarrow> str \<Rightarrow> world \<Rightarrow> cose_crypto_error + str" where
  "validated_private_key sys prov alg k w =
     and_then (private_key_path sys prov alg k w) (\<lambda>p.
     and_then (map_err (\<lambda>_. OperationFailed ''private key is unavailable'')
         (read_to_string sys p w)) (\<lambda>text.
     if \<not> contains ''PRIVATE KEY'' text
     then Inl (OperationFailed ''private key file is invalid'')
     else Inr p))"

section \<open>Diagnostics\<close>

definition redact :: "str list \<Rightarrow> str \<Rightarrow> str" where
  "redact candidates text =
     foldl (\<lambda>t p. let candidate = from_utf8_lossy (as_bytes p) in
       if candidate \<noteq> [] then replace_all candidate ''<path>'' t else t) text candidates"

definition sanitize_openssl_diagnostic :: "bytes \<Rightarrow> str list \<Rightarrow> str" where
  "sanitize_openssl_diagnostic bs redacted_paths =
     (let diagnostic = redact
          (concat (map (\<lambda>p. [p, external_command_path p]) redacted_paths))
          (join_with '' '' (split_whitespace (from_utf8_lossy bs)));
        characters = chars diagnostic;
        bounded = concat (take MAX_OPENSSL_DIAGNOSTIC_CHARS characters) in
      if drop MAX_OPENSSL_DIAGNOSTIC_CHARS characters \<noteq> [] then bounded @ ELLIPSIS else bounded)"

definition openssl_operation_error ::
  "str \<Rightarrow> process_output \<Rightarrow> str list \<Rightarrow> cose_crypto_error" where
  "openssl_operation_error operation out redacted_paths =
     (let state = (case out_code out of
            None \<Rightarrow> ''terminated without an exit code''
          | Some code \<Rightarrow> ''exit code '' @ display_int code);
        diagnostic = sanitize_openssl_diagnostic
          (if out_stderr out = [] then out_stdout out else out_stderr out) redacted_paths in
      OperationFailed
        (if diagnostic = [] then ''OpenSSL '' @ operation @ '' failed ('' @ state @ '')''
         else ''OpenSSL '' @ operation @ '' failed ('' @ state @ ''): '' @ diagnostic))"

section \<open>Scratch directories\<close>

definition scratch_name :: "nat \<Rightarrow> nat \<Rightarrow> u64 \<Rightarrow> str" where
  "scratch_name process timestamp sequence =
     ''tfws-openssl-'' @ decimal process @ ''-'' @ decimal timestamp @ ''-''
       @ decimal (unat sequence)"

text \<open>\<open>SCRATCH_SEQUENCE.fetch_add(1)\<close>, which wraps.\<close>

definition next_sequence :: "('e, u64) io" where
  "next_sequence w = (Inr (scratch_sequence w), w\<lparr>scratch_sequence := scratch_sequence w + 1\<rparr>)"

text \<open>Mode \<open>0o700\<close>.\<close>

definition private_mode :: nat where
  "private_mode = 7 * 64"

definition set_private_directory_permissions :: "system \<Rightarrow> str \<Rightarrow> (io_error, unit) io" where
  "set_private_directory_permissions sys p = set_permissions sys p private_mode"

text \<open>The body of the loop, with the number of attempts left.\<close>

fun scratch_attempts :: "nat \<Rightarrow> system \<Rightarrow> str \<Rightarrow> (io_error, str) io" where
  "scratch_attempts 0 sys root w = (Inl AlreadyExists, w)"
| "scratch_attempts (Suc n) sys root w =
     io_bind next_sequence (\<lambda>sequence w1.
       let p = join root (scratch_name (process_id sys) (clock_nanos sys w1) sequence) in
       case create_dir sys p w1 of
         (Inr _, w2) \<Rightarrow>
           (case set_private_directory_permissions sys p w2 of
              (Inl e, w3) \<Rightarrow> (Inl e, snd (remove_dir_all sys p w3))
            | (Inr _, w3) \<Rightarrow> (Inr p, w3))
       | (Inl AlreadyExists, w2) \<Rightarrow> scratch_attempts n sys root w2
       | (Inl e, w2) \<Rightarrow> (Inl e, w2)) w"

definition scratch_new :: "system \<Rightarrow> str \<Rightarrow> (io_error, str) io" where
  "scratch_new sys root = io_bind (create_dir_all sys root) (\<lambda>_. scratch_attempts 64 sys root)"

text \<open>\<open>Drop\<close>: however the body ends, the directory is removed; the result is ignored.\<close>

definition with_scratch :: "system \<Rightarrow> str \<Rightarrow> ('e, 'a) io \<Rightarrow> ('e, 'a) io" where
  "with_scratch sys scratch body w =
     (case body w of (r, w') \<Rightarrow> (r, snd (remove_dir_all sys scratch w')))"

section \<open>Signing and verifying bytes\<close>

definition op :: "(io_error, 'a) io \<Rightarrow> (cose_crypto_error, 'a) io" where
  "op f = io_map_err operation_error f"

definition sign_in_scratch ::
  "system \<Rightarrow> openssl_provider \<Rightarrow> cose_algorithm \<Rightarrow> str \<Rightarrow> bytes \<Rightarrow> bytes \<Rightarrow> str
     \<Rightarrow> (cose_crypto_error, bytes) io" where
  "sign_in_scratch sys prov alg private_key public_key_bytes msg scratch =
     (let message_path = join scratch ''message.bin'';
          signature_path = join scratch ''signature.bin'';
          public_key_file = join scratch ''public-key.pem'' in
      io_bind (op (write_file sys message_path msg)) (\<lambda>_.
      io_bind (op (write_file sys public_key_file public_key_bytes)) (\<lambda>_.
      io_bind (op (run_command sys (openssl prov)
          (sign_args (external_command_path private_key) (external_command_path message_path)
            (external_command_path signature_path)))) (\<lambda>out.
      if \<not> success out
      then io_result (Inl (openssl_operation_error ''signing'' out [private_key, scratch]))
      else
      io_bind (op (io_read (read_file sys signature_path))) (\<lambda>sig.
      if length sig \<noteq> expected_signature_len alg
      then io_result (Inl cose_crypto_error.SignatureInvalid)
      else
      io_bind (op (run_command sys (openssl prov)
          (verify_args (external_command_path public_key_file)
            (external_command_path message_path) (external_command_path signature_path))))
        (\<lambda>verification.
      io_result (if \<not> success verification then Inl cose_crypto_error.SignatureInvalid
        else Inr sig)))))))"

definition sign_bytes ::
  "system \<Rightarrow> openssl_provider \<Rightarrow> cose_algorithm \<Rightarrow> str \<Rightarrow> bytes \<Rightarrow> bytes
     \<Rightarrow> (cose_crypto_error, bytes) io" where
  "sign_bytes sys prov alg private_key public_key_bytes msg =
     io_bind (op (scratch_new sys (scratch_root prov))) (\<lambda>scratch.
     with_scratch sys scratch
       (sign_in_scratch sys prov alg private_key public_key_bytes msg scratch))"

definition verify_in_scratch ::
  "system \<Rightarrow> openssl_provider \<Rightarrow> bytes \<Rightarrow> bytes \<Rightarrow> bytes \<Rightarrow> str
     \<Rightarrow> (cose_crypto_error, unit) io" where
  "verify_in_scratch sys prov public_key_bytes msg sig scratch =
     (let message_path = join scratch ''message.bin'';
          signature_path = join scratch ''signature.bin'';
          public_key_file = join scratch ''public-key.pem'' in
      io_bind (op (write_file sys message_path msg)) (\<lambda>_.
      io_bind (op (write_file sys signature_path sig)) (\<lambda>_.
      io_bind (op (write_file sys public_key_file public_key_bytes)) (\<lambda>_.
      io_bind (op (run_command sys (openssl prov)
          (verify_args (external_command_path public_key_file)
            (external_command_path message_path) (external_command_path signature_path))))
        (\<lambda>out.
      io_result (if success out then Inr () else Inl cose_crypto_error.SignatureInvalid))))))"

definition verify_bytes ::
  "system \<Rightarrow> openssl_provider \<Rightarrow> cose_algorithm \<Rightarrow> bytes \<Rightarrow> bytes \<Rightarrow> bytes
     \<Rightarrow> (cose_crypto_error, unit) io" where
  "verify_bytes sys prov alg public_key_bytes msg sig =
     (if length sig \<noteq> expected_signature_len alg
      then io_result (Inl cose_crypto_error.SignatureInvalid)
      else
        io_bind (op (scratch_new sys (scratch_root prov))) (\<lambda>scratch.
        with_scratch sys scratch (verify_in_scratch sys prov public_key_bytes msg sig scratch)))"

text \<open>The traits.\<close>

definition provider_sign ::
  "system \<Rightarrow> (bytes \<Rightarrow> bytes) \<Rightarrow> openssl_provider \<Rightarrow> cose_algorithm \<Rightarrow> key_descriptor \<Rightarrow> bytes
     \<Rightarrow> (cose_crypto_error, bytes) io" where
  "provider_sign sys digest prov alg k msg =
     io_bind (io_read (validate_public_key_binding sys digest prov alg k)) (\<lambda>public_key.
     io_bind (io_read (validated_private_key sys prov alg (key_id k))) (\<lambda>private_key.
     sign_bytes sys prov alg private_key public_key msg))"

definition provider_verify ::
  "system \<Rightarrow> (bytes \<Rightarrow> bytes) \<Rightarrow> openssl_provider \<Rightarrow> cose_algorithm \<Rightarrow> key_descriptor \<Rightarrow> bytes
     \<Rightarrow> bytes \<Rightarrow> (cose_crypto_error, unit) io" where
  "provider_verify sys digest prov alg k msg sig =
     io_bind (io_read (validate_public_key_binding sys digest prov alg k)) (\<lambda>public_key.
     verify_bytes sys prov alg public_key msg sig)"

end
