(* ===== verification/Openssl_Laws.thy ===== *)
theory Openssl_Laws
  imports Openssl
begin

text \<open>
  The facts behind the properties of the OpenSSL provider: computations that succeed, paths
  inside a scratch directory, the file system as a tree, and what every step leaves behind.
\<close>

section \<open>Computations\<close>

lemma io_bind_Inr [result_iff]:
  "io_bind f g w = (Inr y, w') \<longleftrightarrow> (\<exists>x w1. f w = (Inr x, w1) \<and> g x w1 = (Inr y, w'))"
  by (cases "f w") (auto simp: io_bind_def split: sum.splits)

lemma io_map_err_Inr [result_iff]: "io_map_err h f w = (Inr y, w') \<longleftrightarrow> f w = (Inr y, w')"
  by (cases "f w") (auto simp: io_map_err_def map_err_eq_Inr)

lemma io_read_eq [result_iff]: "io_read f w = (r, w') \<longleftrightarrow> f w = r \<and> w' = w"
  by (auto simp: io_read_def)

lemma io_result_eq [result_iff]: "io_result r w = (s, w') \<longleftrightarrow> r = s \<and> w' = w"
  by (auto simp: io_result_def)

lemma op_Inr [result_iff]: "op f w = (Inr y, w') \<longleftrightarrow> f w = (Inr y, w')"
  by (simp add: op_def io_map_err_Inr)

lemma snd_op [simp]: "snd (op f w) = snd (f w)"
  by (simp add: op_def io_map_err_def case_prod_beta)

lemma with_scratch_Inr [result_iff]:
  "with_scratch sys p f w = (Inr y, w') \<longleftrightarrow>
     (\<exists>w1. f w = (Inr y, w1) \<and> w' = snd (remove_dir_all sys p w1))"
  by (cases "f w") (auto simp: with_scratch_def)

section \<open>Paths in a directory\<close>

definition plain_name :: "str \<Rightarrow> bool" where
  "plain_name s \<longleftrightarrow> s \<noteq> [] \<and> s \<noteq> ''.'' \<and> CHR ''/'' \<notin> set s"

lemma plain_not_absolute: "plain_name s \<Longrightarrow> \<not> is_absolute s"
  by (cases s) (auto simp: plain_name_def is_absolute_def)

lemma split_slash_not_Nil [simp]: "split_slash s \<noteq> []"
  by (induction s) (auto split: list.splits)

lemma split_slash_plain: "CHR ''/'' \<notin> set s \<Longrightarrow> split_slash s = [s]"
  by (induction s) auto

lemma split_slash_append: "split_slash (p @ CHR ''/'' # s) = split_slash p @ split_slash s"
  by (induction p) (auto split: list.splits simp: neq_Nil_conv)

lemma names_append [simp]: "names (vs @ ws) = names vs @ names ws"
  by (simp add: names_def)

lemma is_absolute_append: "p \<noteq> [] \<Longrightarrow> is_absolute (p @ s) \<longleftrightarrow> is_absolute p"
  by (cases p) (simp_all add: is_absolute_def)

text \<open>Joining a plain name adds that one component.\<close>

lemma components_join:
  assumes "plain_name s"
  shows "components (join p s) = components p @ [s]"
proof -
  have rel: "\<not> is_absolute s" and split: "split_slash s = [s]" and keep: "names [s] = [s]"
    using assms plain_not_absolute by (auto simp: split_slash_plain plain_name_def names_def)
  consider "p = []" | q where "p = q @ [CHR ''/'']" | "p \<noteq> []" "last p \<noteq> CHR ''/''"
    by (cases p rule: rev_cases) auto
  then show ?thesis
  proof cases
    case 1
    with assms rel split keep show ?thesis
      by (simp add: join_def components_def is_absolute_def names_def plain_name_def)
  next
    case 2
    have "components (q @ CHR ''/'' # s) = components (q @ [CHR ''/'']) @ [s]"
      using split_slash_append [of q s] split_slash_append [of q "[]"] split keep
        is_absolute_append [of "q @ [CHR ''/'']" s]
      by (cases "split_slash q") (auto simp: components_def names_def Let_def)
    with 2 rel show ?thesis by (simp add: join_def)
  next
    case 3
    have "components (p @ CHR ''/'' # s) = components p @ [s]"
      using 3(1) split_slash_append [of p s] split keep is_absolute_append [of p]
      by (cases "split_slash p") (auto simp: components_def names_def Let_def)
    with 3 rel show ?thesis by (simp add: join_def)
  qed
qed

lemma join_inject: "plain_name s \<Longrightarrow> plain_name t \<Longrightarrow> join p s = join p t \<longleftrightarrow> s = t"
  by (auto simp: join_def plain_not_absolute)

lemma below_join:
  "plain_name s \<Longrightarrow> p \<noteq> [] \<Longrightarrow> last p \<noteq> CHR ''/'' \<Longrightarrow> below p (join p s)"
  by (auto simp: below_def join_def plain_not_absolute starts_iff)

lemma below_trans: "below p q \<Longrightarrow> below q r \<Longrightarrow> below p r"
  by (auto simp: below_def starts_iff)

lemma below_not_refl: "\<not> below p p"
  by (auto simp: below_def starts_iff dest: arg_cong [of _ _ length])

lemma ancestors_below: "q \<in> set (ancestors p) \<longleftrightarrow> below q p"
proof
  assume "below q p"
  then obtain r where "p = q @ CHR ''/'' # r" by (auto simp: below_def starts_iff)
  then have "q = take (length q) p" "length q < length p" by simp_all
  with \<open>below q p\<close> show "q \<in> set (ancestors p)" unfolding ancestors_def by force
qed (auto simp: ancestors_def)

section \<open>The file system as a tree\<close>

text \<open>The invariant of every file system: what exists is in a directory, and so are those.\<close>

definition wf_world :: "world \<Rightarrow> bool" where
  "wf_world w \<longleftrightarrow> (\<forall>p q. below p q \<longrightarrow> nodes w q \<noteq> None \<longrightarrow> is_directory (nodes w p))"

lemma wf_worldD: "wf_world w \<Longrightarrow> below p q \<Longrightarrow> nodes w q \<noteq> None \<Longrightarrow> is_directory (nodes w p)"
  unfolding wf_world_def by blast

lemma is_directory_simps [simp]:
  "is_directory (Some (Directory m))" "\<not> is_directory (Some (File bs))" "\<not> is_directory None"
  by (simp_all add: is_directory_def)

lemma create_dir_all_wf:
  assumes wf: "wf_world w"
  shows "wf_world (snd (create_dir_all sys root w))"
proof (cases "create_dir_all sys root w")
  case (Pair r w')
  show ?thesis
  proof (cases "w' = w")
    case True
    with Pair wf show ?thesis by simp
  next
    case False
    with Pair have nofile: "\<And>q. q = root \<or> below q root \<Longrightarrow> \<not> is_file (nodes w q)"
      and w': "nodes w' = (\<lambda>q. if (q = root \<or> below q root) \<and> nodes w q = None
        then Some (Directory default_mode) else nodes w q)"
      by (auto simp: create_dir_all_def Let_def ancestors_below list_ex_iff split: if_splits)
    have dir: "is_directory (nodes w' q)" if "q = root \<or> below q root" for q
      using nofile [OF that] that
      by (cases "nodes w q") (auto simp: w' is_file_def is_directory_def split: node.splits)
    show ?thesis
      unfolding wf_world_def Pair snd_conv
    proof (intro allI impI)
      fix p q assume pq: "below p q" and "nodes w' q \<noteq> None"
      show "is_directory (nodes w' p)"
      proof (cases "q = root \<or> below q root")
        case True
        with pq below_trans have "below p root" by blast
        then show ?thesis by (simp add: dir)
      next
        case False
        with \<open>nodes w' q \<noteq> None\<close> have "nodes w q \<noteq> None" by (auto simp: w')
        from wf_worldD [OF wf pq this] have "is_directory (nodes w p)" .
        then show ?thesis by (cases "nodes w p") (auto simp: w')
      qed
    qed
  qed
qed

section \<open>Scratch directories\<close>

text \<open>What happens below a directory stays there, and the directory stays one.\<close>

definition only_inside :: "str \<Rightarrow> world \<Rightarrow> world \<Rightarrow> bool" where
  "only_inside p w w' \<longleftrightarrow>
     (\<forall>q. \<not> (q = p \<or> below p q) \<longrightarrow> nodes w' q = nodes w q) \<and> is_directory (nodes w' p)"

lemma scratch_name_plain: "plain_name (scratch_name i t s)"
  by (auto simp: plain_name_def scratch_name_def dest!: decimal_digits)

lemma decimal_not_Nil [simp]: "decimal n \<noteq> []"
  by (subst decimal.simps) auto

lemma last_scratch: "last (join root (scratch_name i t s)) \<noteq> CHR ''/''"
proof -
  have "last (decimal (unat s)) \<noteq> CHR ''/''"
    using decimal_digits [of "last (decimal (unat s))" "unat s"] by auto
  then show ?thesis
    using plain_not_absolute [OF scratch_name_plain, of i t s] by (simp add: join_def scratch_name_def)
qed

lemma join_not_Nil: "plain_name s \<Longrightarrow> join p s \<noteq> []"
  by (auto simp: join_def plain_name_def)

text \<open>The names of different attempts differ: the sequence number is behind the last dash.\<close>

lemma split_at_dash:
  assumes "CHR ''-'' \<notin> set a" and "CHR ''-'' \<notin> set b"
  shows "a @ CHR ''-'' # r = b @ CHR ''-'' # t \<longleftrightarrow> a = b \<and> r = t"
  using assms separator_inject [of "CHR ''-''" a b r t] by blast

lemma no_dash_decimal: "CHR ''-'' \<notin> set (decimal n)"
  using decimal_digits [of "CHR ''-''" n] by auto

lemma scratch_name_inject:
  "scratch_name i t s = scratch_name i' t' s' \<longleftrightarrow> i = i' \<and> t = t' \<and> s = s'"
  by (auto simp: scratch_name_def split_at_dash no_dash_decimal decimal_inject word_unat_eq_iff)

lemma scratch_attempts_new:
  "scratch_attempts n sys root w = (Inr p, w') \<Longrightarrow>
     nodes w p = None \<and> nodes w' = (nodes w)(p \<mapsto> Directory private_mode)
     \<and> (\<exists>k < n. \<exists>t. p = join root (scratch_name (process_id sys) t (scratch_sequence w + of_nat k)))"
proof (induction n arbitrary: w)
  case (Suc n)
  let ?w1 = "w\<lparr>scratch_sequence := scratch_sequence w + 1\<rparr>"
  let ?p = "join root (scratch_name (process_id sys) (clock_nanos sys ?w1) (scratch_sequence w))"
  obtain r w2 where c: "create_dir sys ?p ?w1 = (r, w2)" by (cases "create_dir sys ?p ?w1")
  show ?case
  proof (cases r)
    case (Inr u)
    with c have new: "nodes w ?p = None" "w2 = ?w1\<lparr>nodes := (nodes w)(?p \<mapsto> Directory default_mode)\<rparr>"
      by (auto simp: create_dir_def split: if_splits)
    with Suc.prems c Inr have "p = ?p \<and> nodes w' = (nodes w)(?p \<mapsto> Directory private_mode)"
      by (auto simp: io_bind_def next_sequence_def Let_def set_private_directory_permissions_def
          set_permissions_def split: if_splits sum.splits)
    moreover have "?p = join root (scratch_name (process_id sys) (clock_nanos sys ?w1)
        (scratch_sequence w + of_nat 0))" by simp
    ultimately show ?thesis using new(1) by blast
  next
    case (Inl e)
    with Suc.prems c have e: "e = AlreadyExists" and rest: "scratch_attempts n sys root w2 = (Inr p, w')"
      by (cases e; auto simp: io_bind_def next_sequence_def Let_def)+
    from c Inl have w2: "w2 = ?w1" by (auto simp: create_dir_def split: if_splits)
    have ih: "nodes w p = None \<and> nodes w' = (nodes w)(p \<mapsto> Directory private_mode)
        \<and> (\<exists>k < n. \<exists>t. p = join root
            (scratch_name (process_id sys) t (scratch_sequence w + 1 + of_nat k)))"
      using Suc.IH [OF rest] unfolding w2 by (simp add: fun_upd_def)
    then obtain k t where "k < n"
        and "p = join root (scratch_name (process_id sys) t (scratch_sequence w + 1 + of_nat k))"
      by blast
    then have "Suc k < Suc n"
        and "p = join root (scratch_name (process_id sys) t (scratch_sequence w + of_nat (Suc k)))"
      by (simp_all add: ac_simps)
    with ih show ?thesis by blast
  qed
qed simp

lemma remove_dir_all_nodes:
  assumes "\<And>p. \<not> refuses sys RemoveDirAll p" and "is_directory (nodes w p)"
  shows "nodes (snd (remove_dir_all sys p w)) = (\<lambda>q. if q = p \<or> below p q then None else nodes w q)"
  using assms by (simp add: remove_dir_all_def)

text \<open>
  Removing a directory that was not there before, with everything in it, restores the files.
\<close>

lemma scratch_removed:
  assumes ok: "\<And>p. \<not> refuses sys RemoveDirAll p" and wf: "wf_world w" and new: "nodes w p = None"
    and inside: "only_inside p (w\<lparr>nodes := (nodes w)(p \<mapsto> Directory m)\<rparr>) w'"
  shows "nodes (snd (remove_dir_all sys p w')) = nodes w"
proof -
  have empty: "nodes w q = None" if "below p q" for q
    using wf_worldD [OF wf that] new by (cases "nodes w q") auto
  have "is_directory (nodes w' p)" using inside by (simp add: only_inside_def)
  then have "nodes (snd (remove_dir_all sys p w')) =
      (\<lambda>q. if q = p \<or> below p q then None else nodes w' q)"
    by (rule remove_dir_all_nodes [OF ok])
  then show ?thesis
    using inside new empty by (auto simp: fun_eq_iff only_inside_def)
qed

lemma scratch_attempts_failed:
  assumes "\<And>p. \<not> refuses sys RemoveDirAll p"
  shows "wf_world w \<Longrightarrow> scratch_attempts n sys root w = (Inl e, w') \<Longrightarrow> nodes w' = nodes w"
proof (induction n arbitrary: w)
  case (Suc n)
  let ?w1 = "w\<lparr>scratch_sequence := scratch_sequence w + 1\<rparr>"
  let ?p = "join root (scratch_name (process_id sys) (clock_nanos sys ?w1) (scratch_sequence w))"
  obtain r w2 where c: "create_dir sys ?p ?w1 = (r, w2)" by (cases "create_dir sys ?p ?w1")
  show ?case
  proof (cases r)
    case (Inr u)
    with c have new: "nodes w ?p = None" "w2 = ?w1\<lparr>nodes := (nodes w)(?p \<mapsto> Directory default_mode)\<rparr>"
      by (auto simp: create_dir_def split: if_splits)
    from Suc.prems(2) c Inr new have "w' = snd (remove_dir_all sys ?p w2)"
      by (auto simp: io_bind_def next_sequence_def Let_def set_private_directory_permissions_def
          set_permissions_def split: if_splits sum.splits)
    moreover have "only_inside ?p (w\<lparr>nodes := (nodes w)(?p \<mapsto> Directory default_mode)\<rparr>) w2"
      by (simp add: only_inside_def new(2))
    ultimately show ?thesis
      using scratch_removed [OF assms Suc.prems(1) new(1)] by blast
  next
    case (Inl f)
    from c Inl have w2: "w2 = ?w1" by (auto simp: create_dir_def split: if_splits)
    show ?thesis
    proof (cases f)
      case AlreadyExists
      with Suc.prems(2) c Inl have "scratch_attempts n sys root ?w1 = (Inl e, w')"
        by (simp add: io_bind_def next_sequence_def Let_def w2)
      from Suc.IH [OF _ this] Suc.prems(1) show ?thesis by (simp add: wf_world_def)
    next
      case (OtherError x)
      with Suc.prems(2) c Inl w2 show ?thesis by (auto simp: io_bind_def next_sequence_def Let_def)
    qed
  qed
qed simp

section \<open>What the commands may do\<close>

text \<open>
  The documented behaviour of \<open>openssl pkeyutl\<close> as hypotheses on \<open>run_command\<close>: an accepted
  verification is of the bytes in the three named files, verifying changes no file, and
  signing changes none but its output file.
\<close>

definition sound_verification ::
  "system \<Rightarrow> str \<Rightarrow> (bytes \<Rightarrow> bytes \<Rightarrow> bytes \<Rightarrow> bool) \<Rightarrow> bool" where
  "sound_verification sys exe genuine \<longleftrightarrow> (\<forall>pkp mp sp w out w' pk msg sig.
     run_command sys exe (verify_args pkp mp sp) w = (Inr out, w') \<longrightarrow> success out \<longrightarrow>
     nodes w pkp = Some (File pk) \<longrightarrow> nodes w mp = Some (File msg) \<longrightarrow>
     nodes w sp = Some (File sig) \<longrightarrow> genuine pk msg sig)"

definition quiet_verification :: "system \<Rightarrow> str \<Rightarrow> bool" where
  "quiet_verification sys exe \<longleftrightarrow> (\<forall>pkp mp sp w.
     nodes (snd (run_command sys exe (verify_args pkp mp sp) w)) = nodes w)"

definition quiet_signing :: "system \<Rightarrow> str \<Rightarrow> bool" where
  "quiet_signing sys exe \<longleftrightarrow> (\<forall>key mp sp w q. q \<noteq> sp \<longrightarrow>
     nodes (snd (run_command sys exe (sign_args key mp sp) w)) q = nodes w q)"

section \<open>Steps inside a scratch directory\<close>

definition directory_path :: "str \<Rightarrow> bool" where
  "directory_path p \<longleftrightarrow> p \<noteq> [] \<and> last p \<noteq> CHR ''/''"

lemma file_names_plain [simp]:
  "plain_name ''message.bin''" "plain_name ''signature.bin''" "plain_name ''public-key.pem''"
  by (simp_all add: plain_name_def)

lemma join_below: "directory_path p \<Longrightarrow> plain_name s \<Longrightarrow> below p (join p s)"
  by (simp add: directory_path_def below_join)

lemma join_neq: "directory_path p \<Longrightarrow> plain_name s \<Longrightarrow> join p s \<noteq> p"
  using join_below below_not_refl by metis

lemma write_inside:
  assumes "directory_path p" and "plain_name s" and "only_inside p w w1"
  shows "only_inside p w (snd (write_file sys (join p s) bs w1))"
  using assms join_below [OF assms(1,2)] join_neq [OF assms(1,2)]
  by (auto simp: only_inside_def write_file_def)

lemma verify_command_inside:
  assumes "quiet_verification sys exe" and "only_inside p w w1"
  shows "only_inside p w (snd (run_command sys exe (verify_args a b c) w1))"
  using assms by (simp add: only_inside_def quiet_verification_def)

lemma sign_command_inside:
  assumes "quiet_signing sys exe" and "directory_path p" and "plain_name s" and "only_inside p w w1"
  shows "only_inside p w (snd (run_command sys exe (sign_args a b (join p s)) w1))"
proof -
  have "nodes (snd (run_command sys exe (sign_args a b (join p s)) w1)) q = nodes w1 q"
    if "q \<noteq> join p s" for q
    using assms(1) that by (simp add: quiet_signing_def)
  with assms(4) join_below [OF assms(2,3)] join_neq [OF assms(2,3)] show ?thesis
    unfolding only_inside_def by metis
qed

lemma io_read_inside: "only_inside p w w1 \<Longrightarrow> only_inside p w (snd (io_read f w1))"
  by (simp add: io_read_def)

lemma io_result_inside: "only_inside p w w1 \<Longrightarrow> only_inside p w (snd (io_result r w1))"
  by (simp add: io_result_def)

lemma io_bind_inside:
  assumes "only_inside p w (snd (f w1))"
    and "\<And>x w2. only_inside p w w2 \<Longrightarrow> only_inside p w (snd (g x w2))"
  shows "only_inside p w (snd (io_bind f g w1))"
  using assms by (cases "f w1") (auto simp: io_bind_def split: sum.splits)

lemma if_inside:
  "only_inside p w (snd (f w1)) \<Longrightarrow> only_inside p w (snd (g w1)) \<Longrightarrow>
   only_inside p w (snd ((if c then f else g) w1))"
  by simp

lemma only_inside_refl: "is_directory (nodes w p) \<Longrightarrow> only_inside p w w"
  by (simp add: only_inside_def)

lemma verify_in_scratch_inside:
  assumes "quiet_verification sys (openssl prov)" and "directory_path p" and "is_directory (nodes w p)"
  shows "only_inside p w (snd (verify_in_scratch sys prov pk msg sig p w))"
  unfolding verify_in_scratch_def Let_def external_command_path_def
  by (intro io_bind_inside io_result_inside; (simp only: snd_op)?;
      (intro write_inside verify_command_inside assms file_names_plain only_inside_refl)?; assumption?)

lemma sign_in_scratch_inside:
  assumes "quiet_verification sys (openssl prov)" and "quiet_signing sys (openssl prov)"
    and "directory_path p" and "is_directory (nodes w p)"
  shows "only_inside p w (snd (sign_in_scratch sys prov alg key pk msg p w))"
  unfolding sign_in_scratch_def Let_def external_command_path_def
  by (intro io_bind_inside io_result_inside if_inside; (simp only: snd_op)?;
      (intro write_inside verify_command_inside sign_command_inside io_read_inside assms
        file_names_plain only_inside_refl)?; assumption?)

text \<open>A whole session restores the files, but for the root directory it may have made.\<close>

lemma scratch_path: "scratch_attempts n sys root w = (Inr p, w') \<Longrightarrow> directory_path p"
  using scratch_attempts_new [of n sys root w p w'] last_scratch join_not_Nil [OF scratch_name_plain]
  by (auto simp: directory_path_def)

lemma scratch_session:
  assumes ok: "\<And>p. \<not> refuses sys RemoveDirAll p" and wf: "wf_world w"
    and body: "\<And>p w1. directory_path p \<Longrightarrow> is_directory (nodes w1 p) \<Longrightarrow>
      only_inside p w1 (snd (body p w1))"
  shows "nodes (snd (io_bind (op (scratch_new sys root)) (\<lambda>p. with_scratch sys p (body p)) w)) =
    nodes (snd (create_dir_all sys root w))"
proof (cases "create_dir_all sys root w")
  case (Pair r w1)
  have wf1: "wf_world w1" using create_dir_all_wf [OF wf, of sys root] by (simp add: Pair)
  show ?thesis
  proof (cases r)
    case (Inl e)
    with Pair show ?thesis
      by (simp add: io_bind_def op_def io_map_err_def scratch_new_def)
  next
    case (Inr u)
    obtain q w2 where a: "scratch_attempts 64 sys root w1 = (q, w2)"
      by (cases "scratch_attempts 64 sys root w1")
    have start: "op (scratch_new sys root) w = (map_err operation_error q, w2)"
      using Pair Inr a by (simp add: op_def io_map_err_def scratch_new_def io_bind_def)
    show ?thesis
    proof (cases q)
      case (Inl e)
      with start a scratch_attempts_failed [OF ok wf1, of 64 root e w2] Pair show ?thesis
        by (simp add: io_bind_def)
    next
      case (Inr p)
      with a have new: "nodes w1 p = None" "nodes w2 = (nodes w1)(p \<mapsto> Directory private_mode)"
        and dir: "directory_path p"
        using scratch_attempts_new [of 64 sys root w1 p w2] scratch_path [of 64 sys root w1 p w2]
        by auto
      have "only_inside p w2 (snd (body p w2))"
        by (rule body [OF dir]) (simp add: new(2))
      then have "only_inside p (w1\<lparr>nodes := (nodes w1)(p \<mapsto> Directory private_mode)\<rparr>) (snd (body p w2))"
        by (simp add: only_inside_def new(2))
      from scratch_removed [OF ok wf1 new(1) this] start Inr Pair show ?thesis
        by (simp add: io_bind_def with_scratch_def case_prod_beta)
    qed
  qed
qed

section \<open>What an accepted signature means\<close>

lemma write_file_Inr:
  "write_file sys p bs w = (Inr u, w') \<Longrightarrow> nodes w' = (nodes w)(p \<mapsto> File bs)"
  by (auto simp: write_file_def split: if_splits)

lemma read_file_Inr: "read_file sys p w = Inr bs \<Longrightarrow> nodes w p = Some (File bs)"
  by (auto simp: read_file_def split: if_splits option.splits node.splits)

lemma file_names_differ [simp]:
  "join p ''message.bin'' \<noteq> join p ''signature.bin''"
  "join p ''signature.bin'' \<noteq> join p ''message.bin''"
  "join p ''message.bin'' \<noteq> join p ''public-key.pem''"
  "join p ''public-key.pem'' \<noteq> join p ''message.bin''"
  "join p ''signature.bin'' \<noteq> join p ''public-key.pem''"
  "join p ''public-key.pem'' \<noteq> join p ''signature.bin''"
  using file_names_plain by (simp_all add: join_inject)

lemma if_result: "(if c then Inl e else Inr x) = Inr y \<longleftrightarrow> \<not> c \<and> x = y"
  "(if c then Inr x else Inl e) = Inr y \<longleftrightarrow> c \<and> x = y"
  by auto

lemma accepted_is_genuine:
  assumes "sound_verification sys exe genuine"
    and "run_command sys exe (verify_args pkp mp sp) w = (Inr out, w')" and "success out"
    and "nodes w pkp = Some (File pk)" and "nodes w mp = Some (File msg)"
    and "nodes w sp = Some (File sig)"
  shows "genuine pk msg sig"
  using assms unfolding sound_verification_def by blast

lemma verify_in_scratch_genuine:
  assumes sound: "sound_verification sys (openssl prov) genuine"
    and ok: "verify_in_scratch sys prov pk msg sig p w = (Inr u, w')"
  shows "genuine pk msg sig"
proof -
  obtain w1 w2 w3 out where
    1: "write_file sys (join p ''message.bin'') msg w = (Inr (), w1)" and
    2: "write_file sys (join p ''signature.bin'') sig w1 = (Inr (), w2)" and
    3: "write_file sys (join p ''public-key.pem'') pk w2 = (Inr (), w3)" and
    run: "run_command sys (openssl prov) (verify_args (join p ''public-key.pem'')
        (join p ''message.bin'') (join p ''signature.bin'')) w3 = (Inr out, w')" and
    out: "success out"
    using ok
    by (auto simp: verify_in_scratch_def Let_def external_command_path_def io_bind_Inr op_Inr
        io_result_eq if_result)
  have "nodes w3 = (nodes w)(join p ''message.bin'' \<mapsto> File msg, join p ''signature.bin'' \<mapsto> File sig,
      join p ''public-key.pem'' \<mapsto> File pk)"
    using write_file_Inr [OF 1] write_file_Inr [OF 2] write_file_Inr [OF 3] by simp
  then show ?thesis by (intro accepted_is_genuine [OF sound run out]) simp_all
qed

lemma sign_in_scratch_genuine:
  assumes sound: "sound_verification sys (openssl prov) genuine"
    and quiet: "quiet_signing sys (openssl prov)"
    and ok: "sign_in_scratch sys prov alg key pk msg p w = (Inr sig, w')"
  shows "genuine pk msg sig \<and> length sig = expected_signature_len alg"
proof -
  let ?m = "join p ''message.bin''" and ?s = "join p ''signature.bin''"
    and ?k = "join p ''public-key.pem''"
  obtain w1 w2 w3 out0 out where
    1: "write_file sys ?m msg w = (Inr (), w1)" and
    2: "write_file sys ?k pk w1 = (Inr (), w2)" and
    3: "run_command sys (openssl prov) (sign_args key ?m ?s) w2 = (Inr out0, w3)" and
    4: "read_file sys ?s w3 = Inr sig" and
    len: "length sig = expected_signature_len alg" and
    run: "run_command sys (openssl prov) (verify_args ?k ?m ?s) w3 = (Inr out, w')" and
    out: "success out"
    using ok
    by (auto simp: sign_in_scratch_def Let_def external_command_path_def io_bind_Inr op_Inr
        io_result_eq io_read_eq if_result split: if_splits)
  have "nodes w3 q = nodes w2 q" if "q \<noteq> ?s" for q
    using quiet that 3 unfolding quiet_signing_def by (metis snd_conv)
  then have "nodes w3 ?k = Some (File pk)" "nodes w3 ?m = Some (File msg)"
    using write_file_Inr [OF 1] write_file_Inr [OF 2] by simp_all
  with accepted_is_genuine [OF sound run out] read_file_Inr [OF 4] len show ?thesis by blast
qed

section \<open>The binding of a public key\<close>

lemma validate_public_key_binding_ok:
  "validate_public_key_binding sys digest prov alg k w = Inr pem \<longleftrightarrow>
     algorithm k = tfws_identifier alg \<and> key_id k \<noteq> [] \<and> status k = ''active''
     \<and> usage k = [''release'']
     \<and> public_key_uri k = ''/.well-known/keys/'' @ tfws_identifier alg @ ''.pem''
     \<and> (\<exists>p. public_key_path sys prov alg (key_id k) w = Inr p \<and> read_file sys p w = Inr pem)
     \<and> \<not> contains ''PRIVATE KEY'' (from_utf8_lossy pem)
     \<and> contains ''PUBLIC KEY'' (from_utf8_lossy pem)
     \<and> lower_hex (digest pem) = public_key_sha256 k"
proof -
  have one: "length (usage k) \<noteq> 1 \<or> usage k ! 0 \<noteq> ''release'' \<longleftrightarrow> usage k \<noteq> [''release'']"
    by (auto simp: length_Suc_conv)
  have checks: "(algorithm k \<noteq> tfws_identifier alg \<or> key_id k = [] \<or> status k \<noteq> ''active''
        \<or> length (usage k) \<noteq> 1 \<or> usage k ! 0 \<noteq> ''release'' \<or> u) \<longleftrightarrow>
      (algorithm k \<noteq> tfws_identifier alg \<or> key_id k = [] \<or> status k \<noteq> ''active''
        \<or> usage k \<noteq> [''release''] \<or> u)" for u
    using one by blast
  show ?thesis
    unfolding validate_public_key_binding_def checks Let_def
    by (auto simp: result_iff split: if_splits)
qed

section \<open>Verification that always gets an answer\<close>

definition complete_verification ::
  "system \<Rightarrow> str \<Rightarrow> (bytes \<Rightarrow> bytes \<Rightarrow> bytes \<Rightarrow> bool) \<Rightarrow> bool" where
  "complete_verification sys exe genuine \<longleftrightarrow> (\<forall>pkp mp sp w pk msg sig.
     nodes w pkp = Some (File pk) \<longrightarrow> nodes w mp = Some (File msg) \<longrightarrow>
     nodes w sp = Some (File sig) \<longrightarrow>
     (\<exists>out. run_command sys exe (verify_args pkp mp sp) w = (Inr out, w)
        \<and> (success out \<longleftrightarrow> genuine pk msg sig)))"

text \<open>The path the first attempt of the next scratch directory tries.\<close>

definition next_scratch :: "system \<Rightarrow> str \<Rightarrow> world \<Rightarrow> str" where
  "next_scratch sys root w = join root (scratch_name (process_id sys)
     (clock_nanos sys (w\<lparr>scratch_sequence := scratch_sequence w + 1\<rparr>)) (scratch_sequence w))"

lemma dropWhile_plain: "CHR ''/'' \<notin> set s \<Longrightarrow> dropWhile (\<lambda>c. c \<noteq> CHR ''/'') (rev s @ r) =
    dropWhile (\<lambda>c. c \<noteq> CHR ''/'') r"
  by (rule dropWhile_append2) auto

lemma parent_join: "directory_path p \<Longrightarrow> plain_name s \<Longrightarrow> parent (join p s) = p"
  by (simp add: parent_def join_def plain_not_absolute directory_path_def dropWhile_plain plain_name_def)

lemma create_dir_all_existing:
  assumes "\<not> refuses sys CreateDirAll p" and wf: "wf_world w" and dir: "is_directory (nodes w p)"
  shows "create_dir_all sys p w = (Inr (), w)"
proof -
  have dirs: "is_directory (nodes w q)" if "q = p \<or> below q p" for q
    using that dir wf_worldD [OF wf, of q p] by (cases "nodes w p") auto
  have nofile: "\<not> is_file (nodes w q)" if "q = p \<or> below q p" for q
    using dirs [OF that] by (cases "nodes w q") (auto simp: is_file_def split: node.splits)
  have "(\<lambda>q. if (q = p \<or> below q p) \<and> nodes w q = None then Some (Directory default_mode)
      else nodes w q) = nodes w"
    using dirs by (fastforce simp: fun_eq_iff)
  then show ?thesis
    using assms(1) nofile
    by (auto simp: create_dir_all_def Let_def ancestors_below list_ex_iff)
qed

lemma scratch_attempts_first:
  assumes free: "\<And>c p. \<not> refuses sys c p" and root: "directory_path root" "is_directory (nodes w root)"
    and fresh: "nodes w (next_scratch sys root w) = None"
  shows "\<exists>w'. scratch_attempts (Suc n) sys root w = (Inr (next_scratch sys root w), w')
    \<and> nodes w' = (nodes w)(next_scratch sys root w \<mapsto> Directory private_mode)"
proof -
  let ?w1 = "w\<lparr>scratch_sequence := scratch_sequence w + 1\<rparr>" and ?p = "next_scratch sys root w"
  have "parent ?p = root"
    unfolding next_scratch_def by (rule parent_join [OF root(1) scratch_name_plain])
  with free root(2) fresh
  have "create_dir sys ?p ?w1 = (Inr (), ?w1\<lparr>nodes := (nodes w)(?p \<mapsto> Directory default_mode)\<rparr>)"
    by (simp add: create_dir_def)
  then show ?thesis
    using free unfolding scratch_attempts.simps io_bind_def next_sequence_def
    by (simp add: Let_def next_scratch_def [symmetric] set_private_directory_permissions_def
        set_permissions_def)
qed

lemma write_file_succeeds:
  assumes "\<And>c p. \<not> refuses sys c p" and "directory_path p" and "plain_name s"
    and "is_directory (nodes w p)" and "\<not> is_directory (nodes w (join p s))"
  shows "write_file sys (join p s) bs w = (Inr (), w\<lparr>nodes := (nodes w)(join p s \<mapsto> File bs)\<rparr>)"
  using assms parent_join [OF assms(2,3)] by (simp add: write_file_def)

lemma verify_in_scratch_complete:
  assumes complete: "complete_verification sys (openssl prov) genuine"
    and free: "\<And>c p. \<not> refuses sys c p" and p: "directory_path p" "is_directory (nodes w p)"
    and empty: "\<And>q. below p q \<Longrightarrow> nodes w q = None"
  shows "fst (verify_in_scratch sys prov pk msg sig p w) =
    (if genuine pk msg sig then Inr () else Inl cose_crypto_error.SignatureInvalid)"
proof -
  let ?m = "join p ''message.bin''" and ?s = "join p ''signature.bin''"
    and ?k = "join p ''public-key.pem''"
  have none: "nodes w ?m = None" "nodes w ?s = None" "nodes w ?k = None"
    using empty join_below [OF p(1)] by simp_all
  note neq = join_neq [OF p(1)]
  let ?w1 = "w\<lparr>nodes := (nodes w)(?m \<mapsto> File msg)\<rparr>"
  let ?w2 = "?w1\<lparr>nodes := (nodes ?w1)(?s \<mapsto> File sig)\<rparr>"
  let ?w3 = "?w2\<lparr>nodes := (nodes ?w2)(?k \<mapsto> File pk)\<rparr>"
  have 1: "write_file sys ?m msg w = (Inr (), ?w1)"
    by (rule write_file_succeeds [OF free p(1) _ p(2)]) (simp_all add: none)
  have 2: "write_file sys ?s sig ?w1 = (Inr (), ?w2)"
    by (rule write_file_succeeds [OF free p(1)])
      (use p(2) none neq [symmetric] in simp_all)
  have 3: "write_file sys ?k pk ?w2 = (Inr (), ?w3)"
    by (rule write_file_succeeds [OF free p(1)])
      (use p(2) none neq [symmetric] in simp_all)
  have "nodes ?w3 ?k = Some (File pk)" "nodes ?w3 ?m = Some (File msg)" "nodes ?w3 ?s = Some (File sig)"
    by simp_all
  then obtain out where run: "run_command sys (openssl prov) (verify_args ?k ?m ?s) ?w3 = (Inr out, ?w3)"
      and out: "success out \<longleftrightarrow> genuine pk msg sig"
    using complete unfolding complete_verification_def by blast
  show ?thesis
    unfolding verify_in_scratch_def Let_def external_command_path_def io_bind_def op_def
      io_map_err_def 1 prod.case map_err_simps sum.case 2 3 run
    using out by (simp add: io_result_def)
qed

lemma scratch_new_first:
  assumes free: "\<And>c p. \<not> refuses sys c p" and wf: "wf_world w"
    and root: "directory_path root" "is_directory (nodes w root)"
    and fresh: "nodes w (next_scratch sys root w) = None"
  obtains w1 where "scratch_new sys root w = (Inr (next_scratch sys root w), w1)"
    and "nodes w1 = (nodes w)(next_scratch sys root w \<mapsto> Directory private_mode)"
    and "directory_path (next_scratch sys root w)"
    and "\<forall>q. below (next_scratch sys root w) q \<longrightarrow> nodes w1 q = None"
proof -
  let ?p = "next_scratch sys root w"
  obtain w1 where a: "scratch_attempts 64 sys root w = (Inr ?p, w1)"
    and w1: "nodes w1 = (nodes w)(?p \<mapsto> Directory private_mode)"
    using scratch_attempts_first [OF free root fresh, of 63] by auto
  have start: "scratch_new sys root w = (Inr ?p, w1)"
    using create_dir_all_existing [OF free wf root(2)] a by (simp add: scratch_new_def io_bind_def)
  have "nodes w1 q = None" if "below ?p q" for q
    using wf_worldD [OF wf that] fresh that below_not_refl
    by (cases "nodes w q") (auto simp: w1)
  then show thesis using that [OF start w1 scratch_path [OF a]] by blast
qed

lemma provider_verify_complete:
  assumes complete: "complete_verification sys (openssl prov) genuine"
    and free: "\<And>c p. \<not> refuses sys c p" and wf: "wf_world w"
    and root: "directory_path (scratch_root prov)" "is_directory (nodes w (scratch_root prov))"
    and fresh: "nodes w (next_scratch sys (scratch_root prov) w) = None"
    and bound: "validate_public_key_binding sys digest prov alg k w = Inr pem"
    and len: "length sig = expected_signature_len alg"
  shows "fst (provider_verify sys digest prov alg k msg sig w) =
    (if genuine pem msg sig then Inr () else Inl cose_crypto_error.SignatureInvalid)"
proof -
  let ?p = "next_scratch sys (scratch_root prov) w"
  obtain w1 where start: "scratch_new sys (scratch_root prov) w = (Inr ?p, w1)"
    and w1: "nodes w1 = (nodes w)(?p \<mapsto> Directory private_mode)"
    and p: "directory_path ?p" and empty: "\<forall>q. below ?p q \<longrightarrow> nodes w1 q = None"
    by (rule scratch_new_first [OF free wf root fresh])
  have "fst (verify_in_scratch sys prov pem msg sig ?p w1) =
      (if genuine pem msg sig then Inr () else Inl cose_crypto_error.SignatureInvalid)"
    by (rule verify_in_scratch_complete [OF complete free p _ empty [rule_format]]) (simp_all add: w1)
  with start bound len show ?thesis
    by (simp add: provider_verify_def io_bind_def io_read_def verify_bytes_def op_def io_map_err_def
        with_scratch_def case_prod_beta)
qed

section \<open>Signing that always gets an answer\<close>

text \<open>The program signs with every key file it is given, and writes its output file only.\<close>

definition complete_signing ::
  "system \<Rightarrow> str \<Rightarrow> (bytes \<Rightarrow> bytes \<Rightarrow> bytes \<Rightarrow> bool) \<Rightarrow> bool" where
  "complete_signing sys exe made \<longleftrightarrow> (\<forall>key mp sp w sk msg.
     nodes w key = Some (File sk) \<longrightarrow> nodes w mp = Some (File msg) \<longrightarrow>
     (\<exists>out sig w'. run_command sys exe (sign_args key mp sp) w = (Inr out, w') \<and> success out
        \<and> nodes w' = (nodes w)(sp \<mapsto> File sig) \<and> made sk msg sig))"

lemma complete_signing_run:
  assumes "complete_signing sys exe made"
    and "nodes w key = Some (File sk)" and "nodes w mp = Some (File msg)"
  obtains out sig w' where "run_command sys exe (sign_args key mp sp) w = (Inr out, w')"
    and "success out" and "nodes w' = (nodes w)(sp \<mapsto> File sig)" and "made sk msg sig"
  using assms unfolding complete_signing_def by metis

lemma sign_in_scratch_complete:
  assumes signs: "complete_signing sys (openssl prov) made"
    and verifies: "complete_verification sys (openssl prov) genuine"
    and free: "\<And>c p. \<not> refuses sys c p" and p: "directory_path p" "is_directory (nodes w p)"
    and empty: "\<And>q. below p q \<Longrightarrow> nodes w q = None" and key: "nodes w key = Some (File sk)"
    and good: "\<And>sig. made sk msg sig \<Longrightarrow> length sig = expected_signature_len alg \<and> genuine pk msg sig"
  shows "\<exists>sig. fst (sign_in_scratch sys prov alg key pk msg p w) = Inr sig \<and> made sk msg sig"
proof -
  let ?m = "join p ''message.bin''" and ?s = "join p ''signature.bin''"
    and ?k = "join p ''public-key.pem''"
  have none: "nodes w ?m = None" "nodes w ?s = None" "nodes w ?k = None"
    using empty join_below [OF p(1)] by simp_all
  then have other: "key \<noteq> ?m" "key \<noteq> ?k" using key by auto
  note neq = join_neq [OF p(1)]
  let ?w1 = "w\<lparr>nodes := (nodes w)(?m \<mapsto> File msg)\<rparr>"
  let ?w2 = "?w1\<lparr>nodes := (nodes ?w1)(?k \<mapsto> File pk)\<rparr>"
  have 1: "write_file sys ?m msg w = (Inr (), ?w1)"
    by (rule write_file_succeeds [OF free p(1) _ p(2)]) (simp_all add: none)
  have 2: "write_file sys ?k pk ?w1 = (Inr (), ?w2)"
    by (rule write_file_succeeds [OF free p(1)]) (use p(2) none neq [symmetric] in simp_all)
  have "nodes ?w2 key = Some (File sk)" "nodes ?w2 ?m = Some (File msg)" using key other by simp_all
  from complete_signing_run [OF signs this, of ?s] obtain out sig w3 where
    3: "run_command sys (openssl prov) (sign_args key ?m ?s) ?w2 = (Inr out, w3)"
    and out: "success out" and w3: "nodes w3 = (nodes ?w2)(?s \<mapsto> File sig)" and made: "made sk msg sig"
    by blast
  have 4: "read_file sys ?s w3 = Inr sig" using free by (simp add: read_file_def w3)
  have "nodes w3 ?k = Some (File pk)" "nodes w3 ?m = Some (File msg)" "nodes w3 ?s = Some (File sig)"
    by (simp_all add: w3)
  then obtain out' where 5: "run_command sys (openssl prov) (verify_args ?k ?m ?s) w3 = (Inr out', w3)"
      and "success out' \<longleftrightarrow> genuine pk msg sig"
    using verifies unfolding complete_verification_def by blast
  with good [OF made] have ok: "success out'" "length sig = expected_signature_len alg" by simp_all
  have "fst (sign_in_scratch sys prov alg key pk msg p w) = Inr sig"
    unfolding sign_in_scratch_def Let_def external_command_path_def io_bind_def op_def
      io_map_err_def io_read_def 1 prod.case map_err_simps sum.case 2 3
    using out ok 4 5 by (simp add: io_result_def)
  with made show ?thesis by blast
qed

text \<open>A key that is bound, and whose private half is at hand, signs.\<close>

lemma provider_sign_complete:
  assumes signs: "complete_signing sys (openssl prov) made"
    and verifies: "complete_verification sys (openssl prov) genuine"
    and free: "\<And>c p. \<not> refuses sys c p" and wf: "wf_world w"
    and root: "directory_path (scratch_root prov)" "is_directory (nodes w (scratch_root prov))"
    and fresh: "nodes w (next_scratch sys (scratch_root prov) w) = None"
    and bound: "validate_public_key_binding sys digest prov alg k w = Inr pem"
    and secret: "validated_private_key sys prov alg (key_id k) w = Inr key"
      "nodes w key = Some (File sk)"
    and good: "\<And>sig. made sk msg sig \<Longrightarrow> length sig = expected_signature_len alg \<and> genuine pem msg sig"
  shows "\<exists>sig. fst (provider_sign sys digest prov alg k msg w) = Inr sig \<and> made sk msg sig"
proof -
  let ?p = "next_scratch sys (scratch_root prov) w"
  obtain w1 where start: "scratch_new sys (scratch_root prov) w = (Inr ?p, w1)"
    and w1: "nodes w1 = (nodes w)(?p \<mapsto> Directory private_mode)"
    and p: "directory_path ?p" and empty: "\<forall>q. below ?p q \<longrightarrow> nodes w1 q = None"
    by (rule scratch_new_first [OF free wf root fresh])
  have "nodes w1 key = Some (File sk)" using secret(2) fresh by (auto simp: w1)
  from sign_in_scratch_complete [OF signs verifies free p _ empty [rule_format] this good] obtain sig where
    "fst (sign_in_scratch sys prov alg key pem msg ?p w1) = Inr sig" "made sk msg sig"
    by (auto simp: w1)
  with start bound secret(1) show ?thesis
    by (simp add: provider_sign_def io_bind_def io_read_def sign_bytes_def op_def io_map_err_def
        with_scratch_def case_prod_beta)
qed

section \<open>Diagnostics\<close>

text \<open>An absolute path that shares no character with the marker or the ellipsis.\<close>

definition redactable :: "str \<Rightarrow> bool" where
  "redactable p \<longleftrightarrow>
     valid_utf8 p \<and> is_absolute p \<and> CHR ''<'' \<notin> set p \<and> set ELLIPSIS \<inter> set p = {}"

lemma redactable_begin: "redactable p \<Longrightarrow> p \<noteq> [] \<and> hd p = CHR ''/''"
  by (cases p) (auto simp: redactable_def is_absolute_def)

lemma redact_clean:
  assumes p: "redactable p"
  shows "p \<in> set ps \<or> \<not> contains p t \<Longrightarrow> \<not> contains p (redact ps t)"
proof (induction ps arbitrary: t)
  case (Cons q ps)
  let ?c = "from_utf8_lossy (as_bytes q)"
  let ?t = "if ?c \<noteq> [] then replace_all ?c ''<path>'' t else t"
  have whole: "from_utf8_lossy (as_bytes p) = p" using p by (simp add: redactable_def from_utf8_lossy_text)
  have clean: "\<not> contains p (replace_all c ''<path>'' t)" if "c = p \<or> \<not> contains p t" for c
    by (rule replaced_clean [OF _ _ _ that]) (use p redactable_begin [OF p] in \<open>auto simp: redactable_def\<close>)
  have "p \<in> set ps \<or> \<not> contains p ?t"
    using Cons.prems clean whole redactable_begin [OF p] by (cases "q = p") auto
  from Cons.IH [OF this] show ?case by (simp add: redact_def Let_def)
qed (simp add: redact_def)

lemma concat_take_chars: "\<exists>r. s = concat (take n (chars s)) @ r"
proof
  show "s = concat (take n (chars s)) @ concat (drop n (chars s))"
    by (simp add: concat_append [symmetric] concat_chars del: concat_append)
qed

lemma if_both: "P x \<Longrightarrow> P y \<Longrightarrow> P (if c then x else y)"
  by simp

lemma length_ellipsis: "length ELLIPSIS = 3"
  by (simp add: ELLIPSIS_def text_of_def)

lemma sanitize_clean:
  assumes "redactable p" and "p \<in> set paths"
  shows "\<not> contains p (sanitize_openssl_diagnostic bs paths)"
proof -
  define d where "d = redact (concat (map (\<lambda>p. [p, external_command_path p]) paths))
    (join_with '' '' (split_whitespace (from_utf8_lossy bs)))"
  have "\<not> contains p d"
    unfolding d_def by (rule redact_clean [OF assms(1)]) (use assms(2) in auto)
  moreover obtain r where "d = concat (take MAX_OPENSSL_DIAGNOSTIC_CHARS (chars d)) @ r"
    using concat_take_chars by blast
  ultimately have part: "\<not> contains p (concat (take MAX_OPENSSL_DIAGNOSTIC_CHARS (chars d)))"
    using contains_part by metis
  have "set ELLIPSIS \<inter> set p = {}" "p \<noteq> []"
    using assms(1) redactable_begin by (auto simp: redactable_def)
  from contains_before [OF this] part show ?thesis
    unfolding sanitize_openssl_diagnostic_def Let_def d_def [symmetric]
    by (intro if_both [of "\<lambda>t. \<not> contains p t"]) (simp_all only: not_False_eq_True)
qed

lemma concat_bound: "(\<And>x. x \<in> set xs \<Longrightarrow> length x \<le> 4) \<Longrightarrow> length (concat xs) \<le> 4 * length xs"
proof (induction xs)
  case (Cons x xs)
  then have "length x \<le> 4" "length (concat xs) \<le> 4 * length xs" by simp_all
  then show ?case by simp
qed simp

lemma sanitize_bound: "length (sanitize_openssl_diagnostic bs paths) \<le> 4 * 1024 + 3"
proof -
  have cut: "length (concat (take 1024 (chars d))) \<le> 4 * 1024" for d
  proof -
    have "length (concat (take 1024 (chars d))) \<le> 4 * length (take 1024 (chars d))"
      by (rule concat_bound) (auto dest: in_set_takeD chars_size)
    then show ?thesis by simp
  qed
  show ?thesis
    unfolding sanitize_openssl_diagnostic_def Let_def MAX_OPENSSL_DIAGNOSTIC_CHARS_def
    by (intro if_both [of "\<lambda>t. length t \<le> 4 * 1024 + 3"])
      (use cut in \<open>simp_all only: length_append length_ellipsis add_le_mono trans_le_add1 order_refl\<close>)
qed

lemma display_int_chars: "c \<in> set (display_int i) \<Longrightarrow> c \<noteq> CHR ''/''"
  by (auto simp: display_int_def dest: decimal_digits split: if_splits)

lemma operation_error_clean:
  assumes p: "redactable p" "p \<in> set paths" and operation: "CHR ''/'' \<notin> set operation"
  shows "\<exists>text. openssl_operation_error operation out paths = OperationFailed text \<and> \<not> contains p text"
proof -
  let ?d = "sanitize_openssl_diagnostic
    (if out_stderr out = [] then out_stdout out else out_stderr out) paths"
  define state where "state = (case out_code out of None \<Rightarrow> ''terminated without an exit code''
    | Some code \<Rightarrow> ''exit code '' @ display_int code)"
  have state: "CHR ''/'' \<notin> set state"
    by (cases "out_code out") (auto simp: state_def dest: display_int_chars)
  have eq: "openssl_operation_error operation out paths = OperationFailed
      (if ?d = [] then ''OpenSSL '' @ operation @ '' failed ('' @ state @ '')''
       else (''OpenSSL '' @ operation @ '' failed ('' @ state @ ''): '') @ ?d)"
    by (simp add: openssl_operation_error_def Let_def state_def)
  note slash = redactable_begin [OF p(1)]
  have "\<not> contains p (''OpenSSL '' @ operation @ '' failed ('' @ state @ '')'')"
    using contains_behind [of p "''OpenSSL '' @ operation @ '' failed ('' @ state @ '')''" "[]"]
      slash operation state by auto
  moreover have "\<not> contains p ((''OpenSSL '' @ operation @ '' failed ('' @ state @ ''): '') @ ?d)"
    by (subst contains_behind) (use slash operation state sanitize_clean [OF p] in auto)
  ultimately show ?thesis unfolding eq by (auto simp del: append_assoc)
qed

end
