(* ===== verification/Openssl_Props.thy ===== *)
theory Openssl_Props
  imports Openssl_Laws Cose_Props
begin

text \<open>
  What the OpenSSL provider promises, for any operating system and any \<open>openssl\<close> program that
  behaves as documented: accepted signatures are genuine under the key the descriptor names,
  key files come from the key directory, scratch directories are new, private and removed,
  and diagnostics are short and free of paths.
\<close>

section \<open>A sample system\<close>

text \<open>
  Two key directories, a directory for scratch files, and a program for which the signatures
  of zeros are the genuine ones, written in the size that goes with the private key; the digests
  of the two public keys are those of the sample manifest.
\<close>

definition zero_signature :: "bytes \<Rightarrow> bytes \<Rightarrow> bytes \<Rightarrow> bool" where
  "zero_signature pk msg sig \<longleftrightarrow> list_all (\<lambda>b. b = 0) sig"

definition file_bytes :: "node option \<Rightarrow> bytes" where
  "file_bytes n = (case n of Some (File bs) \<Rightarrow> bs | _ \<Rightarrow> [])"

definition exit_with :: "bool \<Rightarrow> process_output" where
  "exit_with ok = \<lparr>out_code = Some (if ok then 0 else 1), out_stdout = [], out_stderr = []\<rparr>"

definition sample_output :: "bytes \<Rightarrow> bytes" where
  "sample_output sk = replicate (if sk = as_bytes ''PRIVATE KEY 2'' then 3309 else 64) 0"

definition sample_program :: "str \<Rightarrow> str list \<Rightarrow> world \<Rightarrow> (io_error + process_output) \<times> world" where
  "sample_program exe args w =
     (if args ! 1 = ''-verify''
      then (Inr (exit_with (zero_signature (file_bytes (nodes w (args ! 4)))
        (file_bytes (nodes w (args ! 7))) (file_bytes (nodes w (args ! 9))))), w)
      else (Inr (exit_with True), w\<lparr>nodes := (nodes w)(args ! 8 \<mapsto> File (sample_output (file_bytes (nodes w (args ! 3)))))\<rparr>))"

definition sample_system :: system where
  "sample_system = \<lparr>
     refuses = (\<lambda>c p. False),
     os_canonicalize = (\<lambda>w p. Inr p),
     clock_nanos = (\<lambda>w. 1700000000),
     process_id = 42,
     run_command = sample_program\<rparr>"

definition sample_provider :: openssl_provider where
  "sample_provider = provider_new ''/tmp'' ''openssl'' ''/private'' ''/public''"

fun sample_pem :: "cose_algorithm \<Rightarrow> bytes" where
  "sample_pem Ed25519 = as_bytes ''PUBLIC KEY 1''"
| "sample_pem MlDsa65 = as_bytes ''PUBLIC KEY 2''"

definition sample_digest :: "bytes \<Rightarrow> bytes" where
  "sample_digest bs =
     (if bs = sample_pem Ed25519
      then [0x7f, 0xe6, 0x47, 0x28, 0xf1, 0xa7, 0xbb, 0x8c, 0x6c, 0x10, 0x3f, 0x49, 0xc0, 0xe2, 0xed,
        0x0e, 0x99, 0x96, 0x78, 0x22, 0x92, 0x56, 0xc7, 0xaa, 0xb8, 0x13, 0x63, 0x4c, 0xc6, 0xc8,
        0x5b, 0xa9]
      else [0x85, 0xac, 0xf5, 0x1b, 0xf7, 0x26, 0x0b, 0xc7, 0x00, 0x9f, 0x1b, 0x3d, 0x6b, 0x8a, 0x4f,
        0x6d, 0x04, 0x42, 0xbf, 0x21, 0xea, 0x91, 0xa8, 0x6f, 0xe7, 0xcb, 0xb2, 0x82, 0xed, 0xb3,
        0x17, 0xcb])"

definition sample_tree :: "(str \<times> node) list" where
  "sample_tree = [
     ([], Directory default_mode),
     (''/tmp'', Directory default_mode),
     (''/public'', Directory default_mode),
     (''/public/ed25519'', Directory default_mode),
     (''/public/ml-dsa-65'', Directory default_mode),
     (''/private'', Directory private_mode),
     (''/private/ed25519'', Directory private_mode),
     (''/private/ml-dsa-65'', Directory private_mode),
     (''/public/ed25519/release-1.pem'', File (sample_pem Ed25519)),
     (''/public/ml-dsa-65/release-1.pem'', File (sample_pem MlDsa65)),
     (''/private/ed25519/release-1.pem'', File (as_bytes ''PRIVATE KEY'')),
     (''/private/ml-dsa-65/release-1.pem'', File (as_bytes ''PRIVATE KEY 2''))]"

definition sample_world :: world where
  "sample_world = \<lparr>nodes = map_of sample_tree, scratch_sequence = 0\<rparr>"

fun sample_descriptor_of :: "cose_algorithm \<Rightarrow> key_descriptor" where
  "sample_descriptor_of Ed25519 = sample_key ''ed25519'' ed25519_sha256"
| "sample_descriptor_of MlDsa65 = sample_key ''ml-dsa-65'' ml_dsa_65_sha256"

lemma sample_tree_wf:
  "list_all (\<lambda>(q, n). list_all (\<lambda>p. is_directory (map_of sample_tree p)) (ancestors q)) sample_tree"
  by code_simp

lemma sample_world_wf: "wf_world sample_world"
  unfolding wf_world_def
proof (intro allI impI)
  fix p q assume "below p q" and "nodes sample_world q \<noteq> None"
  then obtain n where "(q, n) \<in> set sample_tree" and "p \<in> set (ancestors q)"
    by (auto simp: sample_world_def ancestors_below dest: map_of_SomeD)
  with sample_tree_wf show "is_directory (nodes sample_world p)"
    by (fastforce simp: list_all_iff sample_world_def)
qed

lemma sample_bound_each:
  "validate_public_key_binding sample_system sample_digest sample_provider Ed25519
     (sample_descriptor_of Ed25519) sample_world = Inr (sample_pem Ed25519)"
  "validate_public_key_binding sample_system sample_digest sample_provider MlDsa65
     (sample_descriptor_of MlDsa65) sample_world = Inr (sample_pem MlDsa65)"
  by code_simp+

lemma sample_bound:
  "validate_public_key_binding sample_system sample_digest sample_provider alg
     (sample_descriptor_of alg) sample_world = Inr (sample_pem alg)"
  using sample_bound_each by (cases alg) simp_all

lemma sample_refuses [simp]: "\<not> refuses sample_system c p"
  by (simp add: sample_system_def)

lemma sample_program_verifies:
  "run_command sample_system exe (verify_args pkp mp sp) w =
     (Inr (exit_with (zero_signature (file_bytes (nodes w pkp)) (file_bytes (nodes w mp))
        (file_bytes (nodes w sp)))), w)"
  by (simp add: sample_system_def sample_program_def verify_args_def)

lemma sample_program_signs:
  "run_command sample_system exe (sign_args key mp sp) w =
     (Inr (exit_with True), w\<lparr>nodes := (nodes w)(sp \<mapsto> File (sample_output (file_bytes (nodes w key))))\<rparr>)"
  by (simp add: sample_system_def sample_program_def sign_args_def)

lemma success_exit_with [simp]: "success (exit_with ok) \<longleftrightarrow> ok"
  by (simp add: success_def exit_with_def)

lemma sample_program_documented:
  "sound_verification sample_system exe zero_signature"
  "complete_verification sample_system exe zero_signature"
  "quiet_verification sample_system exe" "quiet_signing sample_system exe"
  by (auto simp: sound_verification_def complete_verification_def quiet_verification_def
      quiet_signing_def sample_program_verifies sample_program_signs file_bytes_def)

lemma sample_scratch:
  "directory_path (scratch_root sample_provider)"
  "is_directory (nodes sample_world (scratch_root sample_provider))"
  "nodes sample_world (next_scratch sample_system (scratch_root sample_provider) sample_world) = None"
  by code_simp+

lemma sample_verifies:
  "fst (provider_verify sample_system sample_digest sample_provider alg (sample_descriptor_of alg)
     msg (sample_signature alg) sample_world) = Inr ()"
proof -
  have "length (sample_signature alg) = expected_signature_len alg"
    by (simp add: sample_signature_def)
  from provider_verify_complete [OF sample_program_documented(2) sample_refuses sample_world_wf
      sample_scratch sample_bound this]
  show ?thesis by (simp add: zero_signature_def sample_signature_def list_all_iff)
qed

lemma sample_signs:
  "fst (provider_sign sample_system sample_digest sample_provider Ed25519
     (sample_descriptor_of Ed25519) [1, 2, 3] sample_world) = Inr (replicate 64 0)"
  by code_simp

section \<open>Accepted means genuine\<close>

lemma verify_bytes_genuine:
  assumes "sound_verification sys (openssl prov) genuine"
    and "verify_bytes sys prov alg pem msg sig w = (Inr u, w')"
  shows "genuine pem msg sig \<and> length sig = expected_signature_len alg"
  using assms(2) verify_in_scratch_genuine [OF assms(1)]
  by (auto simp: verify_bytes_def io_bind_Inr op_Inr with_scratch_Inr io_result_eq split: if_splits)

lemma bound_key_file:
  assumes "validate_public_key_binding sys digest prov alg k w = Inr pem"
  shows "\<exists>p. public_key_path sys prov alg (key_id k) w = Inr p \<and> nodes w p = Some (File pem)
    \<and> lower_hex (digest pem) = public_key_sha256 k
    \<and> \<not> contains ''PRIVATE KEY'' (from_utf8_lossy pem)"
  using assms read_file_Inr unfolding validate_public_key_binding_ok by blast

lemma provider_verify_genuine:
  assumes "sound_verification sys (openssl prov) genuine"
    and "fst (provider_verify sys digest prov alg k msg sig w) = Inr ()"
  shows "\<exists>pem. validate_public_key_binding sys digest prov alg k w = Inr pem
    \<and> length sig = expected_signature_len alg \<and> genuine pem msg sig"
proof -
  obtain w' where "provider_verify sys digest prov alg k msg sig w = (Inr (), w')"
    using assms(2) by (cases "provider_verify sys digest prov alg k msg sig w") simp
  then obtain pem where "validate_public_key_binding sys digest prov alg k w = Inr pem"
    and "verify_bytes sys prov alg pem msg sig w = (Inr (), w')"
    by (auto simp: provider_verify_def io_bind_Inr io_read_eq)
  with verify_bytes_genuine [OF assms(1)] show ?thesis by blast
qed

text \<open>
  C9: whatever calls the operating system refuses, a signature the provider accepts has the
  length of its algorithm and is genuine for the message under a public key file whose digest
  is the one of the descriptor, read from the provider's key directory, and no private key.
\<close>

theorem provider_acceptance_is_genuine:
  assumes "sound_verification sys (openssl prov) genuine"
    and "fst (provider_verify sys digest prov alg k msg sig w) = Inr ()"
  shows "\<exists>p pem. public_key_path sys prov alg (key_id k) w = Inr p
    \<and> nodes w p = Some (File pem) \<and> lower_hex (digest pem) = public_key_sha256 k
    \<and> \<not> contains ''PRIVATE KEY'' (from_utf8_lossy pem)
    \<and> length sig = expected_signature_len alg \<and> genuine pem msg sig"
  using provider_verify_genuine [OF assms] bound_key_file by blast

theorem provider_acceptance_is_genuine_witness:
  "\<exists>p pem. nodes sample_world p = Some (File pem) \<and> lower_hex (sample_digest pem) = ml_dsa_65_sha256
     \<and> zero_signature pem [1, 2, 3] (sample_signature MlDsa65)"
proof -
  from provider_acceptance_is_genuine [OF sample_program_documented(1) sample_verifies,
      of MlDsa65 "[1, 2, 3]"]
  have "\<exists>p pem. nodes sample_world p = Some (File pem)
      \<and> lower_hex (sample_digest pem) = public_key_sha256 (sample_descriptor_of MlDsa65)
      \<and> zero_signature pem [1, 2, 3] (sample_signature MlDsa65)"
    by blast
  then show ?thesis by (simp add: sample_key_def)
qed

lemma provider_sign_genuine:
  assumes "sound_verification sys (openssl prov) genuine" and "quiet_signing sys (openssl prov)"
    and "fst (provider_sign sys digest prov alg k msg w) = Inr sig"
  shows "\<exists>pem. validate_public_key_binding sys digest prov alg k w = Inr pem
    \<and> length sig = expected_signature_len alg \<and> genuine pem msg sig"
proof -
  obtain w' where "provider_sign sys digest prov alg k msg w = (Inr sig, w')"
    using assms(3) by (cases "provider_sign sys digest prov alg k msg w") simp
  then obtain pem key where "validate_public_key_binding sys digest prov alg k w = Inr pem"
    and "sign_bytes sys prov alg key pem msg w = (Inr sig, w')"
    by (auto simp: provider_sign_def io_bind_Inr io_read_eq)
  then show ?thesis
    using sign_in_scratch_genuine [OF assms(1,2)]
    by (auto simp: sign_bytes_def io_bind_Inr op_Inr with_scratch_Inr)
qed

text \<open>
  C10: the provider returns no signature that does not verify: what it signs has the length
  of the algorithm and is genuine for the message under the public key bound to the
  descriptor, although the private key comes from another directory.
\<close>

theorem provider_signature_is_genuine:
  assumes "sound_verification sys (openssl prov) genuine" and "quiet_signing sys (openssl prov)"
    and "fst (provider_sign sys digest prov alg k msg w) = Inr sig"
  shows "\<exists>p pem. public_key_path sys prov alg (key_id k) w = Inr p
    \<and> nodes w p = Some (File pem) \<and> lower_hex (digest pem) = public_key_sha256 k
    \<and> length sig = expected_signature_len alg \<and> genuine pem msg sig"
  using provider_sign_genuine [OF assms] bound_key_file by blast

theorem provider_signature_is_genuine_witness:
  "\<exists>p pem. nodes sample_world p = Some (File pem) \<and> lower_hex (sample_digest pem) = ed25519_sha256
     \<and> zero_signature pem [1, 2, 3] (replicate 64 0)"
proof -
  from provider_signature_is_genuine [OF sample_program_documented(1,4) sample_signs]
  have "\<exists>p pem. nodes sample_world p = Some (File pem)
      \<and> lower_hex (sample_digest pem) = public_key_sha256 (sample_descriptor_of Ed25519)
      \<and> zero_signature pem [1, 2, 3] (replicate 64 0)"
    by blast
  then show ?thesis by (simp add: sample_key_def)
qed

lemma sample_envelope_by_provider:
  "verify_manifest_cose_with_limits rfc8949 reference_crates sample_bytes
     (\<lambda>alg k msg sig. fst (provider_verify sample_system sample_digest sample_provider alg k msg sig
        sample_world)) default_cose_limits = Inr sample_manifest"
proof -
  have "list_all2 (accepted_by rfc8949 (\<lambda>alg k msg sig. fst (provider_verify sample_system
      sample_digest sample_provider alg k msg sig sample_world)) sample_manifest sample_envelope)
      REQUIRED_SIGNATURES (signatures sample_envelope)"
    using sample_message_written sample_verifies [of Ed25519] sample_verifies [of MlDsa65]
    by (simp add: sample_envelope_def REQUIRED_SIGNATURES_def accepted_by_def sample_descriptor
        sample_parsed_signature_def sample_kid_def sample_key_def is_ok_iff)
  then show ?thesis
    unfolding rfc.verify_manifest_cose_ok
    using sample_parsed sample_decoded by (auto simp: sample_envelope_def default_cose_limits_def)
qed



section \<open>What is left behind\<close>

lemma leaves_no_files:
  assumes ok: "\<And>p. \<not> refuses sys RemoveDirAll p" and wf: "wf_world w"
    and quiet: "quiet_verification sys (openssl prov)" "quiet_signing sys (openssl prov)"
  shows "nodes (snd (provider_verify sys digest prov alg k msg sig w))
      \<in> {nodes w, nodes (snd (create_dir_all sys (scratch_root prov) w))}
    \<and> nodes (snd (provider_sign sys digest prov alg k msg w))
      \<in> {nodes w, nodes (snd (create_dir_all sys (scratch_root prov) w))}"
proof (rule conjI)
  let ?root = "scratch_root prov"
  have verify: "nodes (snd (verify_bytes sys prov alg pem msg sig w))
      \<in> {nodes w, nodes (snd (create_dir_all sys ?root w))}" for pem
    using scratch_session [OF ok wf, of "verify_in_scratch sys prov pem msg sig" ?root]
      verify_in_scratch_inside [OF quiet(1)]
    by (simp add: verify_bytes_def io_result_def)
  show "nodes (snd (provider_verify sys digest prov alg k msg sig w))
      \<in> {nodes w, nodes (snd (create_dir_all sys ?root w))}"
    using verify
    by (cases "validate_public_key_binding sys digest prov alg k w")
      (simp_all add: provider_verify_def io_bind_def io_read_def)
  have sign: "nodes (snd (sign_bytes sys prov alg key pem msg w))
      \<in> {nodes w, nodes (snd (create_dir_all sys ?root w))}" for key pem
    using scratch_session [OF ok wf, of "sign_in_scratch sys prov alg key pem msg" ?root]
      sign_in_scratch_inside [OF quiet]
    by (simp add: sign_bytes_def)
  show "nodes (snd (provider_sign sys digest prov alg k msg w))
      \<in> {nodes w, nodes (snd (create_dir_all sys ?root w))}"
    using sign
    by (cases "validate_public_key_binding sys digest prov alg k w";
        cases "validated_private_key sys prov alg (key_id k) w")
      (simp_all add: provider_sign_def io_bind_def io_read_def)
qed

text \<open>
  C20: signing and verifying leave no file behind, whether they succeed or fail at any step:
  afterwards every path holds what it held before, apart from the scratch root and its parents,
  which are created when they are missing.
\<close>

theorem provider_leaves_no_files:
  assumes ok: "\<And>p. \<not> refuses sys RemoveDirAll p" and wf: "wf_world w"
    and quiet: "quiet_verification sys (openssl prov)" "quiet_signing sys (openssl prov)"
  shows "nodes (snd (provider_verify sys digest prov alg k msg sig w))
      \<in> {nodes w, nodes (snd (create_dir_all sys (scratch_root prov) w))}
    \<and> nodes (snd (provider_sign sys digest prov alg k msg w))
      \<in> {nodes w, nodes (snd (create_dir_all sys (scratch_root prov) w))}"
  by (rule leaves_no_files [OF assms])

theorem provider_leaves_no_files_witness:
  "nodes (snd (provider_sign sample_system sample_digest sample_provider Ed25519
     (sample_descriptor_of Ed25519) [1, 2, 3] sample_world)) = nodes sample_world"
proof -
  have "create_dir_all sample_system (scratch_root sample_provider) sample_world = (Inr (), sample_world)"
    by (rule create_dir_all_existing [OF sample_refuses sample_world_wf sample_scratch(2)])
  with provider_leaves_no_files [OF sample_refuses sample_world_wf sample_program_documented(3,4),
      where prov = sample_provider and digest = sample_digest and alg = Ed25519
        and k = "sample_descriptor_of Ed25519" and msg = "[1, 2, 3]"]
  show ?thesis by simp
qed

text \<open>
  C30: a scratch directory is a path where nothing was, in the scratch root, with mode 0700
  and nothing else changed but the root; its name is one of at most 64 attempts, whose names
  all differ.
\<close>

theorem scratch_directory_is_fresh:
  assumes "scratch_new sys root w = (Inr p, w')"
  shows "nodes w p = None
    \<and> nodes w' = (nodes (snd (create_dir_all sys root w)))(p \<mapsto> Directory 448)
    \<and> (\<exists>n < 64. \<exists>t. p = join root (scratch_name (process_id sys) t (scratch_sequence w + of_nat n)))
    \<and> (\<forall>m n t u. m < 64 \<and> n < 64 \<and> m \<noteq> n \<longrightarrow>
         scratch_name (process_id sys) t (scratch_sequence w + of_nat m)
         \<noteq> scratch_name (process_id sys) u (scratch_sequence w + of_nat n))"
proof -
  obtain w1 where dir: "create_dir_all sys root w = (Inr (), w1)"
    and a: "scratch_attempts 64 sys root w1 = (Inr p, w')"
    using assms by (auto simp: scratch_new_def io_bind_Inr)
  have keep: "nodes w1 p = None \<Longrightarrow> nodes w p = None" and seq: "scratch_sequence w1 = scratch_sequence w"
    using dir by (auto simp: create_dir_all_def Let_def split: if_splits)
  have names: "scratch_name i t (s + of_nat m) \<noteq> scratch_name i u (s + of_nat n)"
    if "m < 64" "n < 64" "m \<noteq> n" for i t u s and m n :: nat
  proof -
    have "(of_nat m :: u64) \<noteq> of_nat n"
    proof
      assume "(of_nat m :: u64) = of_nat n"
      then have "m mod 2 ^ 64 = n mod 2 ^ 64" by (simp add: word_of_nat_eq_iff take_bit_eq_mod)
      with that show False by simp
    qed
    then show ?thesis by (simp add: scratch_name_inject)
  qed
  show ?thesis
    using scratch_attempts_new [OF a] keep names
    by (simp add: dir seq private_mode_def)
qed

theorem scratch_directory_is_fresh_witness:
  "nodes sample_world (next_scratch sample_system ''/tmp'' sample_world) = None"
proof -
  obtain w' where a: "scratch_attempts 64 sample_system ''/tmp'' sample_world
      = (Inr (next_scratch sample_system ''/tmp'' sample_world), w')"
    using scratch_attempts_first [OF sample_refuses sample_scratch, of 63]
    by (auto simp: sample_provider_def provider_new_def)
  have "create_dir_all sample_system ''/tmp'' sample_world = (Inr (), sample_world)"
    using create_dir_all_existing [OF sample_refuses sample_world_wf sample_scratch(2)]
    by (simp add: sample_provider_def provider_new_def)
  with a have "scratch_new sample_system ''/tmp'' sample_world
      = (Inr (next_scratch sample_system ''/tmp'' sample_world), w')"
    by (simp add: scratch_new_def io_bind_def)
  from scratch_directory_is_fresh [OF this] show ?thesis by blast
qed

section \<open>Keys and diagnostics\<close>

text \<open>
  C27: a key identifier cannot lead out of the key directory: the resolved file is in the
  resolved directory, and the path looked up is the directory, the algorithm and one file
  name, with no other component, for an identifier of at most 128 bytes.
\<close>

theorem key_file_inside_directory:
  assumes "resolve_key_path sys root alg k public_key w = Inr p"
  shows "\<exists>base candidate. os_canonicalize sys w root = Inr base \<and> path_starts_with p base
    \<and> os_canonicalize sys w candidate = Inr p
    \<and> components candidate = components root @ [tfws_identifier alg, k @ ''.pem'']
    \<and> length k \<le> 128"
proof -
  obtain base where key: "validate_key_id k = Inr ()" and base: "os_canonicalize sys w root = Inr base"
    and c: "os_canonicalize sys w (join (join root (tfws_identifier alg)) (k @ ''.pem'')) = Inr p"
    and inside: "path_starts_with p base"
    using assms by (auto simp: resolve_key_path_def result_iff split: if_splits)
  have "plain_name (tfws_identifier alg)" by (cases alg) (simp_all add: plain_name_def)
  moreover have "CHR ''/'' \<notin> set k" "length k \<le> 128" "k \<noteq> []"
    using key by (auto simp: validate_key_id_def list_all_iff is_ascii_alphanumeric_def
        MAX_KEY_ID_BYTES_def split: if_splits)
  then have "plain_name (k @ ''.pem'')" by (auto simp: plain_name_def append_eq_Cons_conv)
  ultimately have "components (join (join root (tfws_identifier alg)) (k @ ''.pem''))
      = components root @ [tfws_identifier alg, k @ ''.pem'']"
    by (simp add: components_join)
  with base c inside \<open>length k \<le> 128\<close> show ?thesis by blast
qed

theorem key_file_inside_directory_witness:
  "path_starts_with ''/public/ed25519/release-1.pem'' ''/public''"
proof -
  have "resolve_key_path sample_system ''/public'' Ed25519 ''release-1'' True sample_world
      = Inr ''/public/ed25519/release-1.pem''"
    by code_simp
  from key_file_inside_directory [OF this] show ?thesis by (simp add: sample_system_def)
qed



text \<open>
  Verifying with files never starts OpenSSL on a private key: a key file that is not
  UTF-8 text without the words PRIVATE KEY gives an error and changes nothing.
\<close>

lemma private_key_never_passed_on:
  assumes "\<And>t. read_to_string sys public_key w = Inr t \<Longrightarrow> contains ''PRIVATE KEY'' t"
  shows "\<not> is_ok (fst (verify_files sys public_key message_file signature_file w))
    \<and> snd (verify_files sys public_key message_file signature_file w) = w"
  using assms
  by (cases "read_to_string sys public_key w")
    (auto simp: verify_files_def require_no_private_key_def io_bind_def io_read_def)

end
