(* ===== verification/Envelope_Calls.thy ===== *)
theory Envelope_Calls
  imports Openssl_Props
begin

text \<open>
  Signing and verifying an envelope with a provider that has effects.  \<open>Cose\<close> takes
  \<open>CoseSigner\<close> and \<open>CoseVerifier\<close> as functions; here they are computations that change the
  world, and the calls of one envelope are made one after the other, as the loops of
  \<open>sign_manifest_cose_with_limits\<close> and \<open>verify_manifest_cose_with_limits\<close> make them.  With
  signers and verifiers that are functions it is the same code.
\<close>

section \<open>The loops, with effects\<close>

type_synonym signer_io = "cose_algorithm \<Rightarrow> key_descriptor \<Rightarrow> bytes \<Rightarrow> (cose_crypto_error, bytes) io"
type_synonym verifier_io =
  "cose_algorithm \<Rightarrow> key_descriptor \<Rightarrow> bytes \<Rightarrow> bytes \<Rightarrow> (cose_crypto_error, unit) io"

text \<open>What is computed without the world.\<close>

definition io_then :: "'e + 'a \<Rightarrow> ('a \<Rightarrow> ('e, 'b) io) \<Rightarrow> ('e, 'b) io" where
  "io_then r f = io_bind (io_result r) f"

fun sign_each_io ::
  "minicbor \<Rightarrow> signer_io \<Rightarrow> cose_limits \<Rightarrow> manifest \<Rightarrow> bytes \<Rightarrow> bytes \<Rightarrow> cose_algorithm list
     \<Rightarrow> (cose_envelope_error, encoded_signature list) io" where
  "sign_each_io mc signer limits m body pl [] = io_result (Inr [])"
| "sign_each_io mc signer limits m body pl (alg # rest) =
     io_then (descriptor_for m alg) (\<lambda>descriptor.
     io_then (encode_signature_protected mc alg (as_bytes (key_id descriptor))) (\<lambda>prot.
     io_then (encode_sig_structure mc body prot pl) (\<lambda>message.
     io_bind (io_map_err map_crypto_error (signer alg descriptor message)) (\<lambda>sig.
     io_then (validate_signature_length alg (length sig)) (\<lambda>_.
     if exceeds (length sig) (max_string_bytes (cbor limits))
     then io_result (Inl (ResourceLimit ''signature bytes''))
     else
     io_bind (sign_each_io mc signer limits m body pl rest) (\<lambda>ss.
     io_result (Inr (\<lparr>es_protected = prot, es_signature = sig\<rparr> # ss))))))))"

definition sign_manifest_io ::
  "minicbor \<Rightarrow> crates \<Rightarrow> manifest \<Rightarrow> signer_io \<Rightarrow> cose_limits \<Rightarrow> (cose_envelope_error, bytes) io" where
  "sign_manifest_io mc cr m signer limits =
     io_then (validate_fixed_shape_limits limits) (\<lambda>_.
     io_then (map_err ManifestCbor
         (encode_manifest_cbor_with_limits mc cr m (cbor limits))) (\<lambda>pl.
     io_then (encode_body_protected mc) (\<lambda>body.
     io_bind (sign_each_io mc signer limits m body pl REQUIRED_SIGNATURES) (\<lambda>sigs.
     io_then (encode_envelope mc body pl sigs) (\<lambda>encoded.
     io_result
       (if exceeds (length encoded) (max_envelope_bytes limits)
        then Inl (ResourceLimit ''complete envelope bytes'')
        else and_then (parse_envelope mc encoded limits) (\<lambda>_. Inr encoded)))))))"

fun verify_each_io ::
  "minicbor \<Rightarrow> verifier_io \<Rightarrow> manifest \<Rightarrow> parsed_envelope
     \<Rightarrow> (parsed_signature \<times> cose_algorithm) list \<Rightarrow> (cose_envelope_error, unit) io" where
  "verify_each_io mc verifier m p [] = io_result (Inr ())"
| "verify_each_io mc verifier m p ((s, expected) # rest) =
     (if ps_algorithm s \<noteq> expected then io_result (Inl InvalidAlgorithm)
      else
        io_then (descriptor_for m expected) (\<lambda>descriptor.
        if ps_kid s \<noteq> as_bytes (key_id descriptor) then io_result (Inl InvalidKid)
        else
        io_then (encode_sig_structure mc (body_protected p) (ps_protected s) (payload p))
          (\<lambda>message.
        io_bind (io_map_err map_crypto_error
            (verifier expected descriptor message (ps_signature s))) (\<lambda>_.
        verify_each_io mc verifier m p rest))))"

definition verify_manifest_io ::
  "minicbor \<Rightarrow> crates \<Rightarrow> bytes \<Rightarrow> verifier_io \<Rightarrow> cose_limits \<Rightarrow> (cose_envelope_error, manifest) io" where
  "verify_manifest_io mc cr envelope verifier limits =
     io_then (parse_envelope mc envelope limits) (\<lambda>parsed.
     io_then (map_err ManifestCbor
         (decode_manifest_cbor mc cr (payload parsed) (cbor limits))) (\<lambda>m.
     if length (signatures parsed) \<noteq> length REQUIRED_SIGNATURES
     then io_result (Inl HybridBaselineIncomplete)
     else
     io_bind (verify_each_io mc verifier m parsed (zip (signatures parsed) REQUIRED_SIGNATURES))
       (\<lambda>_. io_result (Inr m))))"

section \<open>Computations with a fixed answer\<close>

text \<open>
  In every world of \<open>I\<close> the computation answers \<open>r\<close> and stays in \<open>I\<close>.  What is put together from
  such computations answers what the same code makes of their answers.
\<close>

definition answers :: "(world \<Rightarrow> bool) \<Rightarrow> ('e, 'a) io \<Rightarrow> 'e + 'a \<Rightarrow> bool" where
  "answers I f r \<longleftrightarrow> (\<forall>w. I w \<longrightarrow> fst (f w) = r \<and> I (snd (f w)))"

lemma answersD: "answers I f r \<Longrightarrow> I w \<Longrightarrow> fst (f w) = r \<and> I (snd (f w))"
  by (simp add: answers_def)

lemma answers_result: "answers I (io_result r) r"
  by (simp add: answers_def io_result_def)

lemma answers_bind:
  assumes "answers I f r" and "\<And>x. r = Inr x \<Longrightarrow> answers I (g x) (h x)"
  shows "answers I (io_bind f g) (and_then r h)"
  using assms by (cases r) (auto simp: answers_def io_bind_def case_prod_beta)

lemma answers_then: "(\<And>x. r = Inr x \<Longrightarrow> answers I (g x) (h x)) \<Longrightarrow> answers I (io_then r g) (and_then r h)"
  unfolding io_then_def by (rule answers_bind [OF answers_result])

lemma answers_map_err: "answers I f r \<Longrightarrow> answers I (io_map_err e f) (map_err e r)"
  by (auto simp: answers_def io_map_err_def case_prod_beta)

lemma answers_if:
  "(c \<Longrightarrow> answers I f r) \<Longrightarrow> (\<not> c \<Longrightarrow> answers I g s) \<Longrightarrow>
   answers I (if c then f else g) (if c then r else s)"
  by simp

lemmas answers_steps = answers_then answers_bind answers_map_err answers_if answers_result

lemma sign_each_answers:
  assumes "\<And>alg k msg. descriptor_for m alg = Inr k \<Longrightarrow> answers I (signer_io alg k msg) (signer alg k msg)"
  shows "answers I (sign_each_io mc signer_io limits m body pl algs)
    (sign_each mc signer limits m body pl algs)"
  by (induction algs) (simp_all only: sign_each_io.simps sign_each.simps, (intro answers_steps assms; simp)+)

lemma sign_manifest_answers:
  assumes "\<And>alg k msg. descriptor_for m alg = Inr k \<Longrightarrow> answers I (signer_io alg k msg) (signer alg k msg)"
  shows "answers I (sign_manifest_io mc cr m signer_io limits)
    (sign_manifest_cose_with_limits mc cr m signer limits)"
  unfolding sign_manifest_io_def sign_manifest_cose_with_limits_def
  by (intro answers_steps sign_each_answers assms)

lemma verify_each_answers:
  assumes "\<And>alg k msg sig. answers I (verifier_io alg k msg sig) (verifier alg k msg sig)"
  shows "answers I (verify_each_io mc verifier_io m p ss) (verify_each mc verifier m p ss)"
proof (induction ss)
  case (Cons s ss)
  then show ?case
    by (cases s) (simp only: verify_each_io.simps verify_each.simps, intro answers_steps assms)
qed (simp add: answers_result)

lemma verify_manifest_answers:
  assumes "\<And>alg k msg sig. answers I (verifier_io alg k msg sig) (verifier alg k msg sig)"
  shows "answers I (verify_manifest_io mc cr envelope verifier_io limits)
    (verify_manifest_cose_with_limits mc cr envelope verifier limits)"
  unfolding verify_manifest_io_def verify_manifest_cose_with_limits_def
  by (intro answers_steps verify_each_answers assms)

text \<open>With functions it is the code of \<open>Cose\<close>.\<close>

lemma envelope_calls_of_functions:
  "sign_manifest_io mc cr m (\<lambda>alg k msg. io_result (signer alg k msg)) limits w
   = (sign_manifest_cose_with_limits mc cr m signer limits, w)"
  "verify_manifest_io mc cr envelope (\<lambda>alg k msg sig. io_result (verifier alg k msg sig)) limits w
   = (verify_manifest_cose_with_limits mc cr envelope verifier limits, w)"
proof -
  have "answers (\<lambda>v. v = w) (sign_manifest_io mc cr m (\<lambda>alg k msg. io_result (signer alg k msg)) limits)
      (sign_manifest_cose_with_limits mc cr m signer limits)"
    by (rule sign_manifest_answers [OF answers_result])
  then show "sign_manifest_io mc cr m (\<lambda>alg k msg. io_result (signer alg k msg)) limits w
      = (sign_manifest_cose_with_limits mc cr m signer limits, w)"
    by (simp add: answers_def prod_eq_iff)
  have "answers (\<lambda>v. v = w)
      (verify_manifest_io mc cr envelope (\<lambda>alg k msg sig. io_result (verifier alg k msg sig)) limits)
      (verify_manifest_cose_with_limits mc cr envelope verifier limits)"
    by (rule verify_manifest_answers [OF answers_result])
  then show "verify_manifest_io mc cr envelope (\<lambda>alg k msg sig. io_result (verifier alg k msg sig)) limits w
      = (verify_manifest_cose_with_limits mc cr envelope verifier limits, w)"
    by (simp add: answers_def prod_eq_iff)
qed

section \<open>What a result tells of the calls\<close>

text \<open>
  Without any assumption on the provider: an envelope that is accepted would be accepted by
  the function that accepts whatever the provider accepts in some world.
\<close>

definition accepts_somewhere :: "verifier_io \<Rightarrow> cose_verifier" where
  "accepts_somewhere verifier alg k msg sig =
     (if \<exists>w. fst (verifier alg k msg sig w) = Inr () then Inr ()
      else Inl cose_crypto_error.SignatureInvalid)"

lemma accepts_somewhereI:
  "verifier alg k msg sig w = (Inr u, w') \<Longrightarrow> accepts_somewhere verifier alg k msg sig = Inr ()"
  by (auto simp: accepts_somewhere_def) (metis fst_conv old.unit.exhaust)

lemma accepts_somewhereD:
  "accepts_somewhere verifier alg k msg sig = Inr () \<Longrightarrow> \<exists>w. fst (verifier alg k msg sig w) = Inr ()"
  by (auto simp: accepts_somewhere_def split: if_splits)

lemma io_then_Inr [result_iff]: "io_then r f w = (Inr y, w') \<longleftrightarrow> (\<exists>x. r = Inr x \<and> f x w = (Inr y, w'))"
  by (auto simp: io_then_def io_bind_Inr io_result_eq)

lemma verify_each_accepted:
  "verify_each_io mc verifier m p ss w = (Inr (), w') \<Longrightarrow>
   verify_each mc (accepts_somewhere verifier) m p ss = Inr ()"
proof (induction ss arbitrary: w)
  case (Cons s ss)
  then show ?case
    by (cases s) (auto simp: io_then_Inr io_bind_Inr io_map_err_Inr io_result_eq
        dest: accepts_somewhereI split: if_splits)
qed simp

lemma verify_manifest_accepted:
  assumes "verify_manifest_io mc cr envelope verifier limits w = (Inr m, w')"
  shows "verify_manifest_cose_with_limits mc cr envelope (accepts_somewhere verifier) limits = Inr m"
  using assms
  by (auto simp: verify_manifest_io_def verify_manifest_cose_with_limits_def io_then_Inr io_bind_Inr
      io_result_eq dest: verify_each_accepted split: if_splits)

text \<open>
  And a signed envelope is one that a function signs, which for each algorithm returns the
  signature the provider returned in one of the worlds of an invariant.
\<close>

definition signs_within :: "(world \<Rightarrow> bool) \<Rightarrow> signer_io \<Rightarrow> cose_signer \<Rightarrow> bool" where
  "signs_within I signer_io signer \<longleftrightarrow> (\<forall>alg k msg sig. signer alg k msg = Inr sig \<longrightarrow>
     (\<exists>w. I w \<and> fst (signer_io alg k msg w) = Inr sig))"

lemma sign_each_signer_cong:
  "(\<And>alg. alg \<in> set algs \<Longrightarrow> signer alg = signer' alg) \<Longrightarrow>
   sign_each mc signer limits m body pl algs = sign_each mc signer' limits m body pl algs"
proof (induction algs)
  case (Cons a algs)
  then have "signer a = signer' a" and "sign_each mc signer limits m body pl algs
      = sign_each mc signer' limits m body pl algs" by simp_all
  then show ?case by (simp only: sign_each.simps)
qed simp

lemma sign_each_signed:
  assumes keep: "\<And>alg k msg w. I w \<Longrightarrow> I (snd (signer_io alg k msg w))"
  shows "sign_each_io mc signer_io limits m body pl algs w = (Inr ss, w') \<Longrightarrow> distinct algs \<Longrightarrow> I w \<Longrightarrow>
    I w' \<and> (\<exists>signer. signs_within I signer_io signer
      \<and> sign_each mc signer limits m body pl algs = Inr ss)"
proof (induction algs arbitrary: ss w)
  case Nil
  then show ?case
    by (auto simp: io_result_eq signs_within_def intro!: exI [of _ "\<lambda>_ _ _. Inl undefined"])
next
  case (Cons alg algs)
  from Cons.prems(1) obtain k prot msg sig w1 ts where
    k: "descriptor_for m alg = Inr k" and
    prot: "encode_signature_protected mc alg (as_bytes (key_id k)) = Inr prot" and
    msg: "encode_sig_structure mc body prot pl = Inr msg" and
    sig: "signer_io alg k msg w = (Inr sig, w1)" and
    len: "validate_signature_length alg (length sig) = Inr ()"
      "\<not> exceeds (length sig) (max_string_bytes (cbor limits))" and
    rest: "sign_each_io mc signer_io limits m body pl algs w1 = (Inr ts, w')" and
    ss: "ss = \<lparr>es_protected = prot, es_signature = sig\<rparr> # ts"
    by (auto simp: io_then_Inr io_bind_Inr io_map_err_Inr io_result_eq split: if_splits)
  have "I w1" using keep [OF Cons.prems(3), of alg k msg] sig by simp
  then obtain signer where signer: "signs_within I signer_io signer"
      "sign_each mc signer limits m body pl algs = Inr ts" and "I w'"
    using Cons.IH [OF rest] Cons.prems(2) by auto
  define signer' where "signer' = (\<lambda>a k' msg'. if a = alg
    then if k' = k \<and> msg' = msg then Inr sig else Inl cose_crypto_error.SignatureInvalid
    else signer a k' msg')"
  have "signs_within I signer_io signer'"
    using signer(1) sig Cons.prems(3) by (force simp: signs_within_def signer'_def)
  moreover have "signer' a = signer a" if "a \<in> set algs" for a
    using that Cons.prems(2) by (auto simp: signer'_def fun_eq_iff)
  then have "sign_each mc signer' limits m body pl algs = Inr ts"
    using signer(2) sign_each_signer_cong [of algs signer' signer mc limits m body pl] by simp
  then have "sign_each mc signer' limits m body pl (alg # algs) = Inr ss"
    using k prot msg len by (simp add: ss signer'_def)
  ultimately show ?case using \<open>I w'\<close> by blast
qed

lemma sign_manifest_signed:
  assumes "\<And>alg k msg w. I w \<Longrightarrow> I (snd (signer_io alg k msg w))"
    and "sign_manifest_io mc cr m signer_io limits w = (Inr envelope, w')" and "I w"
  shows "I w' \<and> (\<exists>signer. signs_within I signer_io signer
    \<and> sign_manifest_cose_with_limits mc cr m signer limits = Inr envelope)"
proof -
  from assms(2) obtain pl body ss where parts: "validate_fixed_shape_limits limits = Inr ()"
      "encode_manifest_cbor_with_limits mc cr m (cbor limits) = Inr pl"
      "encode_body_protected mc = Inr body"
    and ss: "sign_each_io mc signer_io limits m body pl REQUIRED_SIGNATURES w = (Inr ss, w')"
    and rest: "encode_envelope mc body pl ss = Inr envelope"
      "\<not> exceeds (length envelope) (max_envelope_bytes limits)"
      "is_ok (parse_envelope mc envelope limits)"
    by (auto simp: sign_manifest_io_def io_then_Inr io_bind_Inr io_result_eq result_iff is_ok_iff
        split: if_splits)
  have "distinct REQUIRED_SIGNATURES" by (simp add: REQUIRED_SIGNATURES_def)
  from sign_each_signed [of I, OF assms(1) ss this assms(3)]
  obtain signer where "signs_within I signer_io signer" "I w'"
    and "sign_each mc signer limits m body pl REQUIRED_SIGNATURES = Inr ss" by blast
  with parts rest have "sign_manifest_cose_with_limits mc cr m signer limits = Inr envelope"
    by (auto simp: sign_manifest_cose_with_limits_def is_ok_iff)
  with \<open>signs_within I signer_io signer\<close> \<open>I w'\<close> show ?thesis by blast
qed

section \<open>The OpenSSL provider\<close>

text \<open>
  Conditions under which the calls of an envelope do not disturb each other: the system
  refuses nothing, the scratch root is an existing directory in which no scratch name is taken,
  and how a path resolves depends on the files only.
\<close>

definition files_decide_paths :: "system \<Rightarrow> bool" where
  "files_decide_paths sys \<longleftrightarrow>
     (\<forall>w v p. nodes w = nodes v \<longrightarrow> os_canonicalize sys w p = os_canonicalize sys v p)"

definition undisturbed :: "system \<Rightarrow> openssl_provider \<Rightarrow> world \<Rightarrow> bool" where
  "undisturbed sys prov w \<longleftrightarrow>
     (\<forall>c p. \<not> refuses sys c p) \<and> wf_world w
     \<and> directory_path (scratch_root prov) \<and> is_directory (nodes w (scratch_root prov))
     \<and> (\<forall>t s. nodes w (join (scratch_root prov) (scratch_name (process_id sys) t s)) = None)
     \<and> files_decide_paths sys"

definition same_files :: "world \<Rightarrow> world \<Rightarrow> bool" where
  "same_files w v \<longleftrightarrow> nodes v = nodes w"

lemma undisturbed_same: "undisturbed sys prov w \<Longrightarrow> same_files w v \<Longrightarrow> undisturbed sys prov v"
  unfolding undisturbed_def same_files_def wf_world_def by simp

lemma undisturbedD:
  assumes "undisturbed sys prov w"
  shows "\<not> refuses sys c p" "wf_world w" "directory_path (scratch_root prov)"
    "is_directory (nodes w (scratch_root prov))"
    "nodes w (next_scratch sys (scratch_root prov) w) = None"
  using assms by (simp_all add: undisturbed_def next_scratch_def)

lemma same_reads:
  assumes "undisturbed sys prov w" and "same_files w v"
  shows "os_canonicalize sys v = os_canonicalize sys w" and "read_file sys p v = read_file sys p w"
proof -
  have same: "nodes v = nodes w" using assms(2) by (simp add: same_files_def)
  moreover have "files_decide_paths sys" using assms(1) by (simp add: undisturbed_def)
  ultimately show "os_canonicalize sys v = os_canonicalize sys w"
    unfolding files_decide_paths_def by (intro ext) blast
  show "read_file sys p v = read_file sys p w" by (simp add: read_file_def same)
qed

lemma binding_same_files:
  assumes "undisturbed sys prov w" and "same_files w v"
  shows "validate_public_key_binding sys digest prov alg k v
    = validate_public_key_binding sys digest prov alg k w"
  by (simp add: validate_public_key_binding_def public_key_path_def resolve_key_path_def
      same_reads [OF assms])

lemma private_key_same_files:
  assumes "undisturbed sys prov w" and "same_files w v"
  shows "validated_private_key sys prov alg k v = validated_private_key sys prov alg k w"
  by (simp add: validated_private_key_def private_key_path_def resolve_key_path_def
      read_to_string_def same_reads [OF assms])

text \<open>The provider keeps the files, so any number of calls stays undisturbed.\<close>

lemma provider_keeps_files:
  assumes "undisturbed sys prov w" and "quiet_verification sys (openssl prov)"
    and "quiet_signing sys (openssl prov)" and v: "same_files w v"
  shows "same_files w (snd (provider_verify sys digest prov alg k msg sig v))"
    and "same_files w (snd (provider_sign sys digest prov alg k msg v))"
proof -
  note ok = undisturbedD [OF undisturbed_same [OF assms(1) v]]
  have "create_dir_all sys (scratch_root prov) v = (Inr (), v)"
    by (rule create_dir_all_existing [OF ok(1,2,4)])
  with leaves_no_files [OF ok(1,2) assms(2,3), of digest alg k msg sig] v
  show "same_files w (snd (provider_verify sys digest prov alg k msg sig v))"
    and "same_files w (snd (provider_sign sys digest prov alg k msg v))"
    by (simp_all add: same_files_def)
qed

lemma complete_is_sound: "complete_verification sys exe genuine \<Longrightarrow> sound_verification sys exe genuine"
  unfolding complete_verification_def sound_verification_def by fastforce

lemma provider_verify_answer:
  assumes w: "undisturbed sys prov w" and complete: "complete_verification sys (openssl prov) genuine"
  shows "same_files w v \<Longrightarrow> fst (provider_verify sys digest prov alg k msg sig v) =
    (case validate_public_key_binding sys digest prov alg k w of
       Inl e \<Rightarrow> Inl e
     | Inr pem \<Rightarrow> if length sig = expected_signature_len alg \<and> genuine pem msg sig then Inr ()
                else Inl cose_crypto_error.SignatureInvalid)"
proof -
  assume v: "same_files w v"
  note ok = undisturbedD [OF undisturbed_same [OF w v]]
  note same = binding_same_files [OF w v, of digest alg k]
  show ?thesis
  proof (cases "validate_public_key_binding sys digest prov alg k w")
    case (Inl e)
    with same show ?thesis by (simp add: provider_verify_def io_bind_def io_read_def)
  next
    case (Inr pem)
    with same have bound: "validate_public_key_binding sys digest prov alg k v = Inr pem" by simp
    show ?thesis
    proof (cases "length sig = expected_signature_len alg")
      case True
      from provider_verify_complete [OF complete ok(1-5) bound True, of msg] Inr True
      show ?thesis by simp
    next
      case False
      with Inr bound show ?thesis
        by (simp add: provider_verify_def io_bind_def io_read_def verify_bytes_def io_result_def)
    qed
  qed
qed

lemma provider_answers:
  assumes w: "undisturbed sys prov w" and complete: "complete_verification sys (openssl prov) genuine"
    and quiet: "quiet_verification sys (openssl prov)" "quiet_signing sys (openssl prov)"
  shows "answers (same_files w) (provider_verify sys digest prov alg k msg sig)
    (fst (provider_verify sys digest prov alg k msg sig w))"
proof -
  have "same_files w w" by (simp add: same_files_def)
  with provider_verify_answer [OF w complete] provider_keeps_files(1) [OF w quiet]
  show ?thesis by (simp add: answers_def)
qed

section \<open>Properties\<close>

text \<open>
  C28: the calls of one verification do not disturb each other: made one after the other, each
  in the world the ones before it left, they give the verdict they give when each is made in
  the first world, and the files are as before.
\<close>

theorem verification_call_by_call:
  assumes "undisturbed sys prov w" and "complete_verification sys (openssl prov) genuine"
    and "quiet_verification sys (openssl prov)" and "quiet_signing sys (openssl prov)"
  shows "fst (verify_manifest_io mc cr envelope (provider_verify sys digest prov) limits w)
      = verify_manifest_cose_with_limits mc cr envelope
          (\<lambda>alg k msg sig. fst (provider_verify sys digest prov alg k msg sig w)) limits
    \<and> nodes (snd (verify_manifest_io mc cr envelope (provider_verify sys digest prov) limits w))
      = nodes w"
  using answersD [OF verify_manifest_answers [OF provider_answers [OF assms]], of w] 
  by (simp add: same_files_def)

lemma sample_undisturbed: "undisturbed sample_system sample_provider sample_world"
proof -
  have "nodes sample_world (join (scratch_root sample_provider) (scratch_name i t s)) = None" for i t s
  proof -
    have "take 13 (scratch_name i t s) = ''tfws-openssl-''" by (simp add: scratch_name_def)
    then have "take 18 (join ''/tmp'' (scratch_name i t s)) = ''/tmp/tfws-openssl-''"
      by (simp add: join_def plain_not_absolute [OF scratch_name_plain])
    moreover have "list_all (\<lambda>(q, n). take 18 q \<noteq> ''/tmp/tfws-openssl-'') sample_tree" by code_simp
    ultimately show ?thesis
      by (auto simp: sample_world_def sample_provider_def provider_new_def map_of_eq_None_iff
          list_all_iff)
  qed
  moreover have "files_decide_paths sample_system"
    by (simp add: files_decide_paths_def sample_system_def)
  ultimately show ?thesis
    using sample_scratch sample_world_wf by (simp add: undisturbed_def)
qed

lemma sample_verified_in_sequence:
  "fst (verify_manifest_io rfc8949 reference_crates sample_bytes
     (provider_verify sample_system sample_digest sample_provider) default_cose_limits sample_world)
   = Inr sample_manifest"
  using answersD [OF verify_manifest_answers [OF provider_answers [OF sample_undisturbed
      sample_program_documented(2-4)]], of sample_world] sample_envelope_by_provider
  by (simp add: same_files_def)

theorem verification_call_by_call_witness:
  "nodes (snd (verify_manifest_io rfc8949 reference_crates sample_bytes
     (provider_verify sample_system sample_digest sample_provider) default_cose_limits sample_world))
   = nodes sample_world"
  using verification_call_by_call [OF sample_undisturbed sample_program_documented(2-4)] by blast

text \<open>
  C12: the envelope verifier over the OpenSSL provider, whatever the system refuses and whatever
  happens to the files between the calls: in an accepted envelope, for each algorithm, the
  manifest has one descriptor, and a genuine signature of the signed bytes of the envelope
  under a key file with the descriptor's digest.
\<close>

theorem provider_envelope_is_genuine:
  assumes items: "cbor_cose_items mc" and sound: "sound_verification sys (openssl prov) genuine"
    and "fst (verify_manifest_io mc cr envelope (provider_verify sys digest prov) limits w) = Inr m"
  shows "\<exists>k pem p s msg. filter (\<lambda>k. algorithm k = tfws_identifier alg) (keys m) = [k]
    \<and> lower_hex (digest pem) = public_key_sha256 k
    \<and> envelope_bytes mc p = Inr envelope \<and> s \<in> set (signatures p)
    \<and> encode_sig_structure mc (body_protected p) (ps_protected s) (payload p) = Inr msg
    \<and> genuine pem msg (ps_signature s)"
proof -
  let ?v = "accepts_somewhere (provider_verify sys digest prov)"
  have "verify_manifest_cose_with_limits mc cr envelope ?v limits = Inr m"
    using assms(3) by (intro verify_manifest_accepted) (simp add: prod_eq_iff)
  then obtain p where p: "envelope_bytes mc p = Inr envelope"
    and acc: "list_all2 (accepted_by mc ?v m p) REQUIRED_SIGNATURES (signatures p)"
    unfolding cbor_cose_items.verify_manifest_cose_ok [OF items]
      cbor_cose_items.parse_envelope_ok [OF items]
    by blast
  have "list_all2 (\<lambda>a s. s \<in> set (signatures p)) REQUIRED_SIGNATURES (signatures p)"
    using acc unfolding list_all2_conv_all_nth by auto
  from list_all2_member [OF acc this algorithm_required] obtain s where
    s: "accepted_by mc ?v m p alg s" "s \<in> set (signatures p)" by blast
  then obtain k msg where k: "descriptor_for m alg = Inr k"
    and msg: "encode_sig_structure mc (body_protected p) (ps_protected s) (payload p) = Inr msg"
    and ok: "?v alg k msg (ps_signature s) = Inr ()"
    by (auto simp: accepted_by_def)
  obtain v pem where "validate_public_key_binding sys digest prov alg k v = Inr pem"
    and "genuine pem msg (ps_signature s)"
    using accepts_somewhereD [OF ok] provider_verify_genuine [OF sound] by blast
  with bound_key_file p s(2) msg descriptor_for_ok [OF k] show ?thesis by blast
qed

theorem provider_envelope_is_genuine_witness:
  "\<exists>p s msg pem. envelope_bytes rfc8949 p = Inr sample_bytes \<and> s \<in> set (signatures p)
     \<and> zero_signature pem msg (ps_signature s)"
  using provider_envelope_is_genuine [OF rfc.cbor_cose_items_axioms sample_program_documented(1)
      sample_verified_in_sequence] by blast

lemma openssl_signed_then_verified:
  assumes items: "cbor_cose_items mc" and codec: "manifest_codec mc cr" and wf: "wf_manifest m"
    and w: "undisturbed sys prov w"
    and complete: "complete_verification sys (openssl prov) genuine"
    and quiet: "quiet_verification sys (openssl prov)" "quiet_signing sys (openssl prov)"
    and signed: "sign_manifest_io mc cr m (provider_sign sys digest prov) limits w = (Inr envelope, w')"
    and v: "nodes v = nodes w"
  shows "nodes w' = nodes w
    \<and> fst (verify_manifest_io mc cr envelope (provider_verify sys digest prov) limits v) = Inr m
    \<and> nodes (snd (verify_manifest_io mc cr envelope (provider_verify sys digest prov) limits v))
      = nodes w"
proof -
  let ?verify = "\<lambda>alg k msg sig. fst (provider_verify sys digest prov alg k msg sig w)"
  note sound = complete_is_sound [OF complete]
  have "same_files w (snd (provider_sign sys digest prov alg k msg u))" if "same_files w u" for alg k msg u
    by (rule provider_keeps_files(2) [OF w quiet that])
  from sign_manifest_signed [of "same_files w", OF this signed]
  obtain signer where kept: "same_files w w'"
    and signer: "signs_within (same_files w) (provider_sign sys digest prov) signer"
    and made: "sign_manifest_cose_with_limits mc cr m signer limits = Inr envelope"
    by (auto simp: same_files_def)
  have "?verify alg k msg sig = Inr ()" if sig: "signer alg k msg = Inr sig" for alg k msg sig
  proof -
    obtain u where u: "same_files w u" "fst (provider_sign sys digest prov alg k msg u) = Inr sig"
      using signer sig unfolding signs_within_def by blast
    from provider_sign_genuine [OF sound quiet(2) u(2)] obtain pem
      where "validate_public_key_binding sys digest prov alg k w = Inr pem"
        "length sig = expected_signature_len alg" "genuine pem msg sig"
      using binding_same_files [OF w u(1)] by auto
    then show ?thesis
      using provider_verify_answer [OF w complete, of w] by (simp add: same_files_def)
  qed
  from signed_then_verified [OF items codec wf this made]
  have "verify_manifest_cose_with_limits mc cr envelope ?verify limits = Inr m" .
  with answersD [OF verify_manifest_answers [OF provider_answers [OF w complete quiet]], of v] v kept
  show ?thesis by (simp add: same_files_def)
qed

text \<open>
  C15: what the OpenSSL provider signed, the OpenSSL provider verifies: an envelope signed call
  by call in an undisturbed world is accepted call by call in any world with the same files,
  and neither leaves a file behind.
\<close>

theorem openssl_signed_envelope_verifies:
  assumes items: "cbor_cose_items mc" and codec: "manifest_codec mc cr" and wf: "wf_manifest m"
    and w: "undisturbed sys prov w"
    and complete: "complete_verification sys (openssl prov) genuine"
    and quiet: "quiet_verification sys (openssl prov)" "quiet_signing sys (openssl prov)"
    and signed: "sign_manifest_io mc cr m (provider_sign sys digest prov) limits w = (Inr envelope, w')"
    and v: "nodes v = nodes w"
  shows "nodes w' = nodes w
    \<and> fst (verify_manifest_io mc cr envelope (provider_verify sys digest prov) limits v) = Inr m
    \<and> nodes (snd (verify_manifest_io mc cr envelope (provider_verify sys digest prov) limits v))
      = nodes w"
  by (rule openssl_signed_then_verified [OF assms])

lemma sample_program_makes:
  "complete_signing sample_system exe (\<lambda>sk msg sig. sig = sample_output sk)"
  by (simp add: complete_signing_def sample_program_signs file_bytes_def)

lemma sample_private_keys:
  "validated_private_key sample_system sample_provider Ed25519 ''release-1'' sample_world
   = Inr ''/private/ed25519/release-1.pem''"
  "validated_private_key sample_system sample_provider MlDsa65 ''release-1'' sample_world
   = Inr ''/private/ml-dsa-65/release-1.pem''"
  "nodes sample_world ''/private/ed25519/release-1.pem'' = Some (File (as_bytes ''PRIVATE KEY''))"
  "nodes sample_world ''/private/ml-dsa-65/release-1.pem'' = Some (File (as_bytes ''PRIVATE KEY 2''))"
  by code_simp+

lemma sample_private_key:
  "\<exists>p sk. validated_private_key sample_system sample_provider alg
       (key_id (sample_descriptor_of alg)) sample_world = Inr p
     \<and> nodes sample_world p = Some (File sk) \<and> sample_output sk = sample_signature alg"
  using sample_private_keys
  by (cases alg) (auto simp: sample_key_def sample_output_def signature_sizes as_bytes_def)

lemma sample_signs_each:
  assumes v: "same_files sample_world v"
  shows "fst (provider_sign sample_system sample_digest sample_provider alg (sample_descriptor_of alg)
     msg v) = Inr (sample_signature alg)"
proof -
  note ok = undisturbedD [OF undisturbed_same [OF sample_undisturbed v]]
  have bound: "validate_public_key_binding sample_system sample_digest sample_provider alg
      (sample_descriptor_of alg) v = Inr (sample_pem alg)"
    using binding_same_files [OF sample_undisturbed v] sample_bound by simp
  obtain p sk where "validated_private_key sample_system sample_provider alg
       (key_id (sample_descriptor_of alg)) v = Inr p" "nodes v p = Some (File sk)"
    and sk: "sample_output sk = sample_signature alg"
    using sample_private_key [of alg] private_key_same_files [OF sample_undisturbed v] v
    by (auto simp: same_files_def)
  from provider_sign_complete [OF sample_program_makes sample_program_documented(2) ok(1-5) bound this(1,2),
      of msg] sk
  show ?thesis by (auto simp: sample_signature_def zero_signature_def list_all_iff)
qed

lemma sample_signed_in_sequence:
  obtains w where "sign_manifest_io rfc8949 reference_crates sample_manifest
     (provider_sign sample_system sample_digest sample_provider) default_cose_limits sample_world
   = (Inr sample_bytes, w)"
proof -
  have descriptor: "k = sample_descriptor_of alg" if "descriptor_for sample_manifest alg = Inr k" for alg k
    using that sample_descriptor by (cases alg) simp_all
  have "answers (same_files sample_world)
      (sign_manifest_io rfc8949 reference_crates sample_manifest
        (provider_sign sample_system sample_digest sample_provider) default_cose_limits)
      (sign_manifest_cose_with_limits rfc8949 reference_crates sample_manifest sample_signer
        default_cose_limits)"
  proof (rule sign_manifest_answers)
    fix alg k msg assume "descriptor_for sample_manifest alg = Inr k"
    then have "k = sample_descriptor_of alg" by (rule descriptor)
    then show "answers (same_files sample_world)
        (provider_sign sample_system sample_digest sample_provider alg k msg) (sample_signer alg k msg)"
      using sample_signs_each provider_keeps_files(2) [OF sample_undisturbed sample_program_documented(3,4)]
      by (simp add: answers_def sample_signer_def)
  qed
  from answersD [OF this, of sample_world] sample_signed that show thesis
    by (metis prod.collapse same_files_def)
qed

theorem openssl_signed_envelope_verifies_witness:
  "fst (verify_manifest_io rfc8949 reference_crates sample_bytes
     (provider_verify sample_system sample_digest sample_provider) default_cose_limits
     (sample_world\<lparr>scratch_sequence := 7\<rparr>)) = Inr sample_manifest"
proof -
  obtain w where signed: "sign_manifest_io rfc8949 reference_crates sample_manifest
      (provider_sign sample_system sample_digest sample_provider) default_cose_limits sample_world
    = (Inr sample_bytes, w)"
    by (rule sample_signed_in_sequence)
  from openssl_signed_envelope_verifies [OF rfc.cbor_cose_items_axioms
      reference.manifest_codec_axioms sample_wf sample_undisturbed sample_program_documented(2-4) signed,
      of "sample_world\<lparr>scratch_sequence := 7\<rparr>"]
  show ?thesis by simp
qed

end
