(* ===== verification/Signing_Total.thy ===== *)
theory Signing_Total
  imports Envelope_Calls
begin

text \<open>
  Signing that succeeds.  An envelope around a manifest that the codec writes fits the default
  limits, so a provider that signs for both keys leads to an envelope, and the provider accepts
  it.  The sizes come from one more law of the CBOR library: heads are at most nine bytes long.
\<close>

section \<open>Sizes\<close>




section \<open>Signing call by call\<close>








end
