(* ===== verification/Scratch_Sessions.thy ===== *)
theory Scratch_Sessions
  imports Openssl_Props
begin

text \<open>
  Many signing and verifying calls at once: every thread of a process goes through the steps
  of \<open>ScratchDirectory\<close> in its own order, and they share the file system and the sequence
  counter.  The steps are those of \<open>scratch_attempts\<close> and \<open>with_scratch\<close>, one system call each.
\<close>

section \<open>Steps\<close>

datatype session = Idle | Chosen str | Made str | Holding str

record shared =
  the_world :: world
  sessions :: "nat \<Rightarrow> session"

definition move :: "shared \<Rightarrow> nat \<Rightarrow> session \<Rightarrow> world \<Rightarrow> shared" where
  "move s i st w = s\<lparr>the_world := w, sessions := (sessions s)(i := st)\<rparr>"

lemma move_simps [simp]:
  "the_world (move s i st w) = w"
  "sessions (move s i st w) j = (if j = i then st else sessions s j)"
  by (simp_all add: move_def)

text \<open>
  The root is made when it is missing; a name is chosen with any timestamp; a failed creation
  leads back to the choice, or out of the loop; with a directory in hand the thread writes
  files in it and runs commands that change nothing outside it, until it is dropped.
\<close>

inductive session_step :: "system \<Rightarrow> str \<Rightarrow> nat \<Rightarrow> shared \<Rightarrow> shared \<Rightarrow> bool"
  for sys :: system and root :: str and i :: nat where
  ensure_root: "sessions s i = Idle \<Longrightarrow> create_dir_all sys root (the_world s) = (r, w) \<Longrightarrow>
    session_step sys root i s (move s i Idle w)"
| choose_name: "sessions s i = Idle \<Longrightarrow> next_sequence (the_world s) = (Inr n :: io_error + u64, w) \<Longrightarrow>
    session_step sys root i s
      (move s i (Chosen (join root (scratch_name (process_id sys) t n))) w)"
| create: "sessions s i = Chosen p \<Longrightarrow> create_dir sys p (the_world s) = (Inr u, w) \<Longrightarrow>
    session_step sys root i s (move s i (Made p) w)"
| not_created: "sessions s i = Chosen p \<Longrightarrow> create_dir sys p (the_world s) = (Inl e, w) \<Longrightarrow>
    session_step sys root i s (move s i Idle w)"
| restrict: "sessions s i = Made p \<Longrightarrow>
    set_private_directory_permissions sys p (the_world s) = (Inr u, w) \<Longrightarrow>
    session_step sys root i s (move s i (Holding p) w)"
| not_restricted: "sessions s i = Made p \<Longrightarrow>
    set_private_directory_permissions sys p (the_world s) = (Inl e, w) \<Longrightarrow>
    session_step sys root i s (move s i Idle (snd (remove_dir_all sys p w)))"
| write_inside_it: "sessions s i = Holding p \<Longrightarrow> plain_name f \<Longrightarrow>
    write_file sys (join p f) bs (the_world s) = (r, w) \<Longrightarrow>
    session_step sys root i s (move s i (Holding p) w)"
| run_inside_it: "sessions s i = Holding p \<Longrightarrow> run_command sys exe args (the_world s) = (q, w) \<Longrightarrow>
    only_inside p (the_world s) w \<Longrightarrow>
    session_step sys root i s (move s i (Holding p) w)"
| release: "sessions s i = Holding p \<Longrightarrow>
    session_step sys root i s (move s i Idle (snd (remove_dir_all sys p (the_world s))))"

inductive reachable :: "system \<Rightarrow> str \<Rightarrow> shared \<Rightarrow> bool" for sys :: system and root :: str where
  start: "(\<And>i. sessions s i = Idle) \<Longrightarrow> reachable sys root s"
| step: "reachable sys root s \<Longrightarrow> session_step sys root i s s' \<Longrightarrow> reachable sys root s'"

section \<open>Ownership\<close>

fun owned :: "session \<Rightarrow> str option" where
  "owned (Made p) = Some p"
| "owned (Holding p) = Some p"
| "owned _ = None"

fun path_of :: "session \<Rightarrow> str option" where
  "path_of (Chosen p) = Some p"
| "path_of st = owned st"

definition inside :: "str \<Rightarrow> str \<Rightarrow> bool" where
  "inside p x \<longleftrightarrow> x = p \<or> below p x"

text \<open>
  What holds in every reachable state: the path of a session is a scratch name in the root,
  an owned path is an existing directory, and no path is owned twice.
\<close>

definition sessions_ok :: "str \<Rightarrow> shared \<Rightarrow> bool" where
  "sessions_ok root s \<longleftrightarrow>
     (\<forall>i p. path_of (sessions s i) = Some p \<longrightarrow> (\<exists>f. plain_name f \<and> p = join root f) \<and> directory_path p)
     \<and> (\<forall>i p. owned (sessions s i) = Some p \<longrightarrow> is_directory (nodes (the_world s) p))
     \<and> (\<forall>i j p. owned (sessions s i) = Some p \<longrightarrow> owned (sessions s j) = Some p \<longrightarrow> i = j)"

lemma owned_path: "owned st = Some p \<Longrightarrow> path_of st = Some p"
  by (cases st) simp_all

lemma sessions_ok_path:
  "sessions_ok root s \<Longrightarrow> path_of (sessions s i) = Some p \<Longrightarrow> directory_path p"
  by (simp add: sessions_ok_def)

text \<open>Two names in one directory have nothing below them in common.\<close>

lemma join_prefix: "\<exists>base. \<forall>f. plain_name f \<longrightarrow> join root f = base @ f"
  by (auto simp: join_def plain_not_absolute
      intro: exI [of _ root] exI [of _ "root @ ''/''"])

lemma inside_disjoint:
  assumes "plain_name f" and "plain_name g" and "f \<noteq> g"
    and "inside (join root f) x" and "inside (join root g) x"
  shows False
proof -
  obtain base where base: "join root f = base @ f" "join root g = base @ g"
    using join_prefix [of root] assms(1,2) by blast
  have no: "CHR ''/'' \<notin> set f" "CHR ''/'' \<notin> set g" using assms(1,2) by (simp_all add: plain_name_def)
  have tail: "\<exists>r. x = p @ r \<and> (r = [] \<or> (\<exists>r'. r = CHR ''/'' # r'))" if "inside p x" for p
    using that by (auto simp: inside_def below_def starts_iff)
  obtain r where r: "x = base @ f @ r" "r = [] \<or> (\<exists>r'. r = CHR ''/'' # r')"
    using tail [OF assms(4)] by (auto simp: base)
  obtain t where t: "x = base @ g @ t" "t = [] \<or> (\<exists>t'. t = CHR ''/'' # t')"
    using tail [OF assms(5)] by (auto simp: base)
  note ends = r(2) t(2)
  have "f @ r = g @ t" using r(1) t(1) by simp
  then have "f = g"
    using ends no by (elim disjE exE) (auto dest: separator_inject [OF no])
  with assms(3) show False by simp
qed

text \<open>The root and the directories above it are not inside a directory in it.\<close>

lemma join_longer: "plain_name f \<Longrightarrow> length root < length (join root f)"
  by (simp add: join_def plain_not_absolute plain_name_def)

lemma root_outside:
  assumes "plain_name f" and "x = root \<or> below x root"
  shows "\<not> inside (join root f) x"
proof
  assume "inside (join root f) x"
  then have "length (join root f) \<le> length x" by (auto simp: inside_def below_def starts_iff)
  moreover have "length x \<le> length root" using assms(2) by (auto simp: below_def starts_iff)
  ultimately show False using join_longer [OF assms(1), of root] by simp
qed

lemma create_dir_all_frame:
  "create_dir_all sys root w = (r, w') \<Longrightarrow> \<not> (x = root \<or> below x root) \<Longrightarrow> nodes w' x = nodes w x"
  "create_dir_all sys root w = (r, w') \<Longrightarrow> nodes w x \<noteq> None \<Longrightarrow> nodes w' x = nodes w x"
  by (auto simp: create_dir_all_def Let_def ancestors_below split: if_splits)

text \<open>
  A step of one thread changes only paths inside the one path it works on, but for the root
  and the directories above it.
\<close>

lemma step_frame:
  assumes "session_step sys root i s s'" and "sessions_ok root s"
  shows "(\<forall>j. j \<noteq> i \<longrightarrow> sessions s' j = sessions s j)
    \<and> ((\<forall>x. \<not> (x = root \<or> below x root) \<longrightarrow> nodes (the_world s') x = nodes (the_world s) x)
       \<or> (\<exists>p. path_of (sessions s i) = Some p
            \<and> (owned (sessions s i) = None \<longrightarrow> nodes (the_world s) p = None)
            \<and> (\<forall>x. \<not> inside p x \<longrightarrow> nodes (the_world s') x = nodes (the_world s) x)))"
  using assms(1)
proof cases
  case (ensure_root r w)
  then show ?thesis by (simp add: create_dir_all_frame)
next
  case (choose_name n w t)
  then show ?thesis by (auto simp: next_sequence_def)
next
  case (create p u w)
  then show ?thesis by (auto simp: create_dir_def inside_def split: if_splits)
next
  case (not_created p e w)
  then show ?thesis by (auto simp: create_dir_def split: if_splits)
next
  case (restrict p u w)
  then show ?thesis
    by (auto simp: set_private_directory_permissions_def set_permissions_def inside_def
        split: if_splits option.splits node.splits)
next
  case (not_restricted p e w)
  then have "w = the_world s"
    by (auto simp: set_private_directory_permissions_def set_permissions_def
        split: if_splits option.splits node.splits)
  with not_restricted show ?thesis by (auto simp: remove_dir_all_def inside_def)
next
  case (write_inside_it p f bs r w)
  then have "directory_path p" using sessions_ok_path [OF assms(2), of i p] by simp
  with write_inside_it join_below [of p f] show ?thesis
    by (auto simp: write_file_def inside_def split: if_splits)
next
  case (run_inside_it p exe args q w)
  then show ?thesis by (auto simp: only_inside_def inside_def)
next
  case (release p)
  then show ?thesis by (auto simp: remove_dir_all_def inside_def)
qed

text \<open>What another thread owns is untouched.\<close>

lemma other_untouched:
  assumes ok: "sessions_ok root s" and step: "session_step sys root i s s'"
    and other: "j \<noteq> i" "owned (sessions s j) = Some p" and x: "inside p x"
  shows "nodes (the_world s') x = nodes (the_world s) x"
proof (rule ccontr)
  assume changed: "nodes (the_world s') x \<noteq> nodes (the_world s) x"
  obtain f where "plain_name f" "p = join root f"
    using ok owned_path [OF other(2)] unfolding sessions_ok_def by blast
  with root_outside x have "\<not> (x = root \<or> below x root)" by blast
  with changed step_frame [OF step ok] obtain q where q: "path_of (sessions s i) = Some q"
    and new: "owned (sessions s i) = None \<longrightarrow> nodes (the_world s) q = None" and xq: "inside q x"
    by fastforce
  have "p \<noteq> q"
  proof
    assume "p = q"
    with ok other have dir: "is_directory (nodes (the_world s) q)" by (auto simp: sessions_ok_def)
    then have "owned (sessions s i) \<noteq> None" using new by auto
    then have "owned (sessions s i) = Some q" using q owned_path by fastforce
    with ok other \<open>p = q\<close> show False by (auto simp: sessions_ok_def)
  qed
  moreover obtain f g where "plain_name f" "p = join root f" "plain_name g" "q = join root g"
    using ok q owned_path [OF other(2)] unfolding sessions_ok_def by blast
  ultimately show False using inside_disjoint [of f g root x] x xq by auto
qed

text \<open>The thread itself: where it gets to, and that it then owns a directory.\<close>

lemma own_step:
  assumes "session_step sys root i s s'" and ok: "sessions_ok root s"
  shows "path_of (sessions s' i) = Some p \<Longrightarrow>
      (\<exists>f. plain_name f \<and> p = join root f) \<and> directory_path p"
    and "owned (sessions s' i) = Some p \<Longrightarrow> is_directory (nodes (the_world s') p)
      \<and> (owned (sessions s i) = Some p \<or> nodes (the_world s) p = None)"
proof -
  have path: "(\<exists>f. plain_name f \<and> p = join root f) \<and> directory_path p"
    if "path_of (sessions s i) = Some p" for p
    using ok that unfolding sessions_ok_def by blast
  have dir: "is_directory (nodes (the_world s) p)" if "owned (sessions s i) = Some p" for p
    using ok that unfolding sessions_ok_def by blast
  show "(\<exists>f. plain_name f \<and> p = join root f) \<and> directory_path p"
    if "path_of (sessions s' i) = Some p"
    using assms(1) that path
    by cases (auto simp: directory_path_def last_scratch join_not_Nil scratch_name_plain
        intro!: exI [of _ "scratch_name (process_id sys) _ _"])
  show "is_directory (nodes (the_world s') p)
      \<and> (owned (sessions s i) = Some p \<or> nodes (the_world s) p = None)"
    if "owned (sessions s' i) = Some p"
    using assms(1)
  proof cases
    case (write_inside_it q f bs r w)
    with that dir path [of q] join_neq [of q f] show ?thesis
      by (auto simp: write_file_def split: if_splits)
  qed (use that dir in \<open>auto simp: create_dir_def set_private_directory_permissions_def
      set_permissions_def only_inside_def split: if_splits option.splits node.splits\<close>)
qed

lemma step_keeps_ok:
  assumes ok: "sessions_ok root s" and step: "session_step sys root i s s'"
  shows "sessions_ok root s'"
proof -
  have same: "sessions s' j = sessions s j" if "j \<noteq> i" for j
    using step_frame [OF step ok] that by blast
  have "(\<exists>f. plain_name f \<and> p = join root f) \<and> directory_path p"
    if "path_of (sessions s' j) = Some p" for j p
    using own_step(1) [OF step ok] ok that same [of j] unfolding sessions_ok_def by (cases "j = i") auto
  moreover have "is_directory (nodes (the_world s') p)" if "owned (sessions s' j) = Some p" for j p
  proof (cases "j = i")
    case False
    with that same have o: "owned (sessions s j) = Some p" by simp
    with ok have "is_directory (nodes (the_world s) p)" by (auto simp: sessions_ok_def)
    with other_untouched [OF ok step False o, of p] show ?thesis by (simp add: inside_def)
  qed (use that own_step(2) [OF step ok] in auto)
  moreover have clash: False
    if "owned (sessions s' i) = Some p" "owned (sessions s' j) = Some p" "j \<noteq> i" for j p
  proof -
    have "owned (sessions s j) = Some p" using that same by simp
    moreover from this ok have "is_directory (nodes (the_world s) p)" by (simp add: sessions_ok_def)
    then have "nodes (the_world s) p \<noteq> None" by (cases "nodes (the_world s) p") simp_all
    ultimately show False
      using own_step(2) [OF step ok that(1)] ok that(3) by (auto simp: sessions_ok_def)
  qed
  moreover have "j = k" if "owned (sessions s' j) = Some p" "owned (sessions s' k) = Some p" for j k p
    using that clash [of p] same ok
    by (cases "j = i"; cases "k = i") (auto simp: sessions_ok_def)
  ultimately show ?thesis unfolding sessions_ok_def by blast
qed

lemma reachable_ok: "reachable sys root s \<Longrightarrow> sessions_ok root s"
proof (induction rule: reachable.induct)
  case (start s)
  then show ?case by (simp add: sessions_ok_def)
next
  case (step s i s')
  then show ?case by (blast intro: step_keeps_ok)
qed

section \<open>Isolation\<close>

text \<open>
  C33: calls that run at the same time never share a scratch directory, in any interleaving of
  their steps: in every reachable state two threads own different directories, and no step
  of one thread changes a file in the directory of another one or takes it away.
\<close>

theorem scratch_directories_isolated:
  assumes "reachable sys root s" and "session_step sys root i s s'" and "j \<noteq> i"
    and "owned (sessions s j) = Some p"
  shows "owned (sessions s i) \<noteq> Some p \<and> owned (sessions s' i) \<noteq> Some p
    \<and> owned (sessions s' j) = Some p
    \<and> (\<forall>x. x = p \<or> below p x \<longrightarrow> nodes (the_world s') x = nodes (the_world s) x)"
proof -
  note ok = reachable_ok [OF assms(1)]
  have ok': "sessions_ok root s'" by (rule step_keeps_ok [OF ok assms(2)])
  have same: "owned (sessions s' j) = Some p" using step_frame [OF assms(2) ok] assms(3,4) by simp
  have "owned (sessions s i) \<noteq> Some p" "owned (sessions s' i) \<noteq> Some p"
    using ok ok' assms(3,4) same unfolding sessions_ok_def by blast+
  with same other_untouched [OF ok assms(2-4)] show ?thesis by (simp add: inside_def)
qed

text \<open>Two threads of the sample system: the first one has made its directory.\<close>

definition sample_start :: shared where
  "sample_start = \<lparr>the_world = sample_world, sessions = (\<lambda>_. Idle)\<rparr>"

definition sample_scratch_path :: str where
  "sample_scratch_path = ''/tmp/'' @ scratch_name 42 7 0"

definition sample_chosen :: shared where
  "sample_chosen = move sample_start 1 (Chosen sample_scratch_path) (sample_world\<lparr>scratch_sequence := 1\<rparr>)"

definition sample_made :: shared where
  "sample_made = move sample_chosen 1 (Made sample_scratch_path)
     (snd (create_dir sample_system sample_scratch_path (the_world sample_chosen)))"

lemma sample_path_free:
  "nodes sample_world sample_scratch_path = None \<and> parent sample_scratch_path = ''/tmp''"
  by code_simp

lemma sample_made_reachable: "reachable sample_system ''/tmp'' sample_made"
proof -
  have start: "reachable sample_system ''/tmp'' sample_start"
    by (rule reachable.start) (simp add: sample_start_def)
  have "session_step sample_system ''/tmp'' 1 sample_start (move sample_start 1
      (Chosen (join ''/tmp'' (scratch_name (process_id sample_system) 7 0)))
      (sample_world\<lparr>scratch_sequence := 1\<rparr>))"
    by (rule session_step.choose_name)
      (simp_all add: sample_start_def next_sequence_def sample_world_def)
  then have "session_step sample_system ''/tmp'' 1 sample_start sample_chosen"
    by (simp add: sample_chosen_def sample_scratch_path_def sample_system_def join_def
        plain_not_absolute [OF scratch_name_plain])
  with start have chosen: "reachable sample_system ''/tmp'' sample_chosen" by (rule reachable.step)
  have "fst (create_dir sample_system sample_scratch_path (the_world sample_chosen)) = Inr ()"
    using sample_path_free sample_scratch(2)
    by (simp add: create_dir_def sample_chosen_def sample_provider_def provider_new_def)
  then have "session_step sample_system ''/tmp'' 1 sample_chosen sample_made"
    unfolding sample_made_def
    by (intro session_step.create [where u = "()"])
      (simp_all add: sample_chosen_def prod_eq_iff)
  with chosen show ?thesis by (rule reachable.step)
qed

theorem scratch_directories_isolated_witness:
  "\<exists>s. session_step sample_system ''/tmp'' 2 sample_made s
     \<and> nodes (the_world s) sample_scratch_path = nodes (the_world sample_made) sample_scratch_path"
proof -
  have "session_step sample_system ''/tmp'' 2 sample_made (move sample_made 2
      (Chosen (join ''/tmp'' (scratch_name (process_id sample_system) 9
        (scratch_sequence (the_world sample_made)))))
      ((the_world sample_made)\<lparr>scratch_sequence := scratch_sequence (the_world sample_made) + 1\<rparr>))"
    by (rule session_step.choose_name)
      (simp_all add: sample_made_def sample_chosen_def sample_start_def next_sequence_def)
  with scratch_directories_isolated [OF sample_made_reachable this, of 1 sample_scratch_path]
  show ?thesis by (auto simp: sample_made_def)
qed

end
