(* ===== verification/Openssl_Windows.thy ===== *)
theory Openssl_Windows
  imports Openssl_Laws
begin

text \<open>
  The parts of \<open>crates/tfws-openssl-provider/src/lib.rs\<close> that other platforms replace: the
  access list of a scratch directory and the paths given to commands on Windows, and the
  refusal everywhere else.
\<close>

section \<open>Paths\<close>

text \<open>An \<open>OsStr\<close> is a list of 16-bit units; backslash is 92, the question mark 63.\<close>

type_synonym wide = "16 word list"

definition VERBATIM_PREFIX :: wide where
  "VERBATIM_PREFIX = [92, 92, 63, 92]"

definition UNC_PREFIX :: wide where
  "UNC_PREFIX = [85, 78, 67, 92]"

definition external_command_path_windows :: "wide \<Rightarrow> wide" where
  "external_command_path_windows encoded =
     (if \<not> starts VERBATIM_PREFIX encoded then encoded
      else
        (let remainder = drop (length VERBATIM_PREFIX) encoded in
         if starts UNC_PREFIX remainder then [92, 92] @ drop (length UNC_PREFIX) remainder
         else remainder))"

section \<open>Permissions\<close>

text \<open>\<open>str::trim\<close>\<close>

definition trim :: "str \<Rightarrow> str" where
  "trim s = concat (rev (dropWhile blank (rev (dropWhile blank (chars s)))))"

definition set_private_directory_permissions_windows ::
  "system \<Rightarrow> str \<Rightarrow> (io_error, unit) io" where
  "set_private_directory_permissions_windows sys p =
     io_bind (run_command sys ''whoami'' []) (\<lambda>identity_output.
     if \<not> success identity_output
     then io_result (Inl (OtherError ''could not resolve the current Windows identity''))
     else
       (let identity = trim (from_utf8_lossy (out_stdout identity_output)) in
        if identity = []
        then io_result (Inl (OtherError ''the current Windows identity is empty''))
        else
          io_bind (run_command sys ''icacls''
              [p, ''/inheritance:r'', ''/grant:r'', identity @ '':(OI)(CI)F'']) (\<lambda>acl_output.
          io_result (if success acl_output then Inr ()
            else Inl (OtherError ''could not restrict the Windows scratch ACL'')))))"

definition set_private_directory_permissions_other ::
  "system \<Rightarrow> str \<Rightarrow> (io_error, unit) io" where
  "set_private_directory_permissions_other sys p =
     io_result (Inl (OtherError ''private scratch permissions are unsupported''))"

section \<open>Facts\<close>

text \<open>What is left of a path keeps its end; only a prefix is replaced.\<close>

lemma windows_path_suffix:
  "\<exists>l l' r. encoded = l @ r \<and> external_command_path_windows encoded = l' @ r
     \<and> (l, l') \<in> {([], []), (VERBATIM_PREFIX, []), (VERBATIM_PREFIX @ UNC_PREFIX, [92, 92])}"
proof -
  consider "\<not> starts VERBATIM_PREFIX encoded"
    | r where "encoded = VERBATIM_PREFIX @ r" "\<not> starts UNC_PREFIX r"
    | r where "encoded = VERBATIM_PREFIX @ UNC_PREFIX @ r"
    unfolding starts_iff by blast
  then show ?thesis
  proof cases
    case 1
    then have "encoded = [] @ encoded \<and> external_command_path_windows encoded = [] @ encoded"
      by (simp add: external_command_path_windows_def)
    then show ?thesis by blast
  next
    case (2 r)
    then have "external_command_path_windows encoded = [] @ r"
      by (auto simp: external_command_path_windows_def starts_iff)
    with 2(1) show ?thesis by blast
  next
    case (3 r)
    then have "external_command_path_windows encoded = [92, 92] @ r"
      by (auto simp: external_command_path_windows_def starts_iff)
    with 3 have "encoded = (VERBATIM_PREFIX @ UNC_PREFIX) @ r
        \<and> external_command_path_windows encoded = [92, 92] @ r" by simp
    then show ?thesis by blast
  qed
qed

text \<open>
  On Windows a directory counts as private only after both commands have succeeded: the
  access list was replaced by a grant to the identity that \<open>whoami\<close> printed, which is not
  empty; every other outcome is an error, as on platforms without permissions.
\<close>

lemma windows_acl_fails_closed:
  "set_private_directory_permissions_windows sys p w = (Inr (), w') \<longleftrightarrow>
     (\<exists>out w1 acl. run_command sys ''whoami'' [] w = (Inr out, w1) \<and> success out
        \<and> trim (from_utf8_lossy (out_stdout out)) \<noteq> []
        \<and> run_command sys ''icacls'' [p, ''/inheritance:r'', ''/grant:r'',
            trim (from_utf8_lossy (out_stdout out)) @ '':(OI)(CI)F''] w1 = (Inr acl, w')
        \<and> success acl)"
  by (auto simp: set_private_directory_permissions_windows_def io_bind_Inr io_result_eq Let_def
      if_result split: if_splits)

end
